(* ===== verification/Prelude.thy ===== *)
theory Prelude
  imports Main "HOL-Library.Finite_Map" "HOL-Library.List_Lexorder" "HOL-Library.Char_ord"
begin

text \<open>
  Shared vocabulary of the development.

  \<^item> Go errors are values: \<open>go_error\<close> keeps the message of \<^verbatim>\<open>errors.New\<close>, the format and the
    operands of \<^verbatim>\<open>fmt.Errorf\<close>, and has a constructor for a run-time panic, so that a nil
    dereference is a branch of the model and its absence is a theorem.
  \<^item> A function that returns \<^verbatim>\<open>(T, error)\<close> returns \<open>go_error + T\<close>; \<open>bindE\<close> is the
    \<^verbatim>\<open>if err != nil { return err }\<close> that follows a call, \<open>foldE\<close> a \<^verbatim>\<open>for range\<close> loop
    whose body may return early.
  \<^item> A Go map is a finite map \<open>('k, 'v) fmap\<close>; where the code iterates over a map and the
    order matters it sorts, and so does the model.
\<close>

named_theorems bind_elims "destruct a successful bind or fold"

datatype go_error =
    ErrorsNew string
  | Errorf string "string list"
  | Wrapped string go_error
  | Panic string

type_synonym 'a res = "go_error + 'a"

definition fails :: "string \<Rightarrow> 'a res" where
  "fails msg = Inl (ErrorsNew msg)"

definition panics :: "string \<Rightarrow> 'a res" where
  "panics msg = Inl (Panic msg)"

fun is_panic :: "go_error \<Rightarrow> bool" where
  "is_panic (Panic _) = True"
| "is_panic (Wrapped _ e) = is_panic e"
| "is_panic _ = False"

definition bindE :: "'a res \<Rightarrow> ('a \<Rightarrow> 'b res) \<Rightarrow> 'b res" where
  "bindE m f = (case m of Inl e \<Rightarrow> Inl e | Inr x \<Rightarrow> f x)"

definition guardE :: "bool \<Rightarrow> string \<Rightarrow> 'b res \<Rightarrow> 'b res" where
  "guardE bad msg k = (if bad then fails msg else k)"

fun foldE :: "('s \<Rightarrow> 'a \<Rightarrow> 's res) \<Rightarrow> 's \<Rightarrow> 'a list \<Rightarrow> 's res" where
  "foldE f s [] = Inr s"
| "foldE f s (x # xs) = bindE (f s x) (\<lambda>s'. foldE f s' xs)"

fun mapE :: "('a \<Rightarrow> 'b res) \<Rightarrow> 'a list \<Rightarrow> 'b list res" where
  "mapE f [] = Inr []"
| "mapE f (x # xs) = bindE (f x) (\<lambda>y. bindE (mapE f xs) (\<lambda>ys. Inr (y # ys)))"

lemma bindE_simps [simp]:
  "bindE (Inl e) f = Inl e"
  "bindE (Inr x) f = f x"
  by (simp_all add: bindE_def)

lemma bindE_fails [simp]: "bindE (fails msg) f = fails msg"
  by (simp add: fails_def)

lemma fails_not_Inr [simp]: "fails msg \<noteq> Inr x" "Inr x \<noteq> fails msg"
  by (simp_all add: fails_def)

lemma panics_not_Inr [simp]: "panics msg \<noteq> Inr x" "Inr x \<noteq> panics msg"
  by (simp_all add: panics_def)

lemma bindE_Inr_iff: "bindE m f = Inr y \<longleftrightarrow> (\<exists>x. m = Inr x \<and> f x = Inr y)"
  by (cases m) simp_all

lemma bindE_Inl_iff:
  "bindE m f = Inl e \<longleftrightarrow> m = Inl e \<or> (\<exists>x. m = Inr x \<and> f x = Inl e)"
  by (cases m) simp_all

lemma bindE_InrE [elim!, bind_elims]:
  assumes "bindE m f = Inr y"
  obtains x where "m = Inr x" and "f x = Inr y"
  using assms by (auto simp: bindE_Inr_iff)

lemma guardE_InrE [elim!, bind_elims]:
  assumes "guardE bad msg k = Inr y"
  obtains "\<not> bad" and "k = Inr y"
  using assms by (auto simp: guardE_def split: if_splits)

lemma guardE_simps [simp]:
  "guardE True msg k = fails msg"
  "guardE False msg k = k"
  by (simp_all add: guardE_def)

lemma bindE_cong [fundef_cong]:
  assumes "m = m'" and "\<And>x. m' = Inr x \<Longrightarrow> f x = g x"
  shows "bindE m f = bindE m' g"
  using assms by (cases m') simp_all

lemma foldE_append:
  "foldE f s (xs @ ys) = bindE (foldE f s xs) (\<lambda>s'. foldE f s' ys)"
proof (induction xs arbitrary: s)
  case (Cons x xs)
  then show ?case by (cases "f s x") simp_all
qed simp

text \<open>The invariant rule of a loop: what each successful body keeps, the loop keeps.\<close>

lemma foldE_invariant:
  assumes "foldE f s xs = Inr t" and "P s"
    and "\<And>s x s'. x \<in> set xs \<Longrightarrow> P s \<Longrightarrow> f s x = Inr s' \<Longrightarrow> P s'"
  shows "P t"
  using assms
proof (induction xs arbitrary: s)
  case (Cons x xs)
  from Cons.prems(1) obtain s' where s': "f s x = Inr s'" and rest: "foldE f s' xs = Inr t"
    by auto
  have "P s'" using Cons.prems(3) [OF _ Cons.prems(2) s'] by simp
  then show ?case using Cons.prems(3) by (intro Cons.IH [OF rest]) auto
qed simp

lemma mapE_Inr: "(\<And>x. x \<in> set xs \<Longrightarrow> f x = Inr (g x)) \<Longrightarrow> mapE f xs = Inr (map g xs)"
  by (induction xs) simp_all

lemma foldE_total:
  assumes "\<And>s x. x \<in> set xs \<Longrightarrow> P s \<Longrightarrow> \<exists>s'. f s x = Inr s' \<and> P s'" and "P s"
  shows "\<exists>t. foldE f s xs = Inr t \<and> P t"
  using assms
proof (induction xs arbitrary: s)
  case (Cons x xs)
  from Cons.prems(1) [of x s] Cons.prems(2) obtain s' where "f s x = Inr s'" and "P s'"
    by auto
  then show ?case using Cons.IH [of s'] Cons.prems(1) by simp
qed simp

subsection \<open>Finite maps\<close>

definition fm_values :: "('k::linorder, 'v) fmap \<Rightarrow> 'v list" where
  "fm_values m = map snd (sorted_list_of_fmap m)"

lemma set_sorted_list_of_fmap:
  "set (sorted_list_of_fmap m) = {(k, v). fmlookup m k = Some v}"
  by (auto simp: sorted_list_of_fmap_def sorted_list_of_fset_simps fmlookup_dom_iff
      intro!: image_eqI)

lemma set_fm_values [simp]: "set (fm_values m) = fmran' m"
  by (force simp: fm_values_def set_sorted_list_of_fmap fmlookup_ran'_iff image_iff)

lemma fm_values_empty [simp]: "fm_values fmempty = []"
proof -
  have "set (fm_values (fmempty :: ('k::linorder, 'v) fmap)) = {}"
    by (auto simp: fmlookup_ran'_iff simp del: set_empty)
  then show ?thesis by (simp only: set_empty)
qed

subsection \<open>Sums over lists\<close>

lemma sum_list_nonneg_le:
  fixes f :: "'a \<Rightarrow> int"
  assumes "\<And>x. x \<in> set xs \<Longrightarrow> 0 \<le> f x" and "y \<in> set xs"
  shows "f y \<le> sum_list (map f xs)"
  using assms
proof (induction xs)
  case (Cons x xs)
  have "0 \<le> sum_list (map f xs)" using Cons.prems(1) by (intro sum_list_nonneg) auto
  then show ?case using Cons by (auto intro: add_increasing add_increasing2)
qed simp

end
