(* ===== verification/Game_Mode.thy ===== *)
theory Game_Mode
  imports Prelude
begin

text \<open>
  The game-level contracts of \<^verbatim>\<open>internal/game/mode.go\<close>: play modes and lifecycle states are
  strings with a closed set of valid values.
\<close>

type_synonym play_mode = string
type_synonym lifecycle_state = string

definition play_mode_turn_based :: play_mode where "play_mode_turn_based = ''turn_based''"
definition play_mode_real_time :: play_mode where "play_mode_real_time = ''real_time''"

definition validate_play_mode :: "play_mode \<Rightarrow> unit res" where
  "validate_play_mode m =
     (if m \<in> {play_mode_turn_based, play_mode_real_time} then Inr ()
      else Inl (Errorf ''unsupported play mode %q'' [m]))"

definition lifecycle_preparing :: lifecycle_state where "lifecycle_preparing = ''preparing''"
definition lifecycle_countdown :: lifecycle_state where "lifecycle_countdown = ''countdown''"
definition lifecycle_running :: lifecycle_state where "lifecycle_running = ''running''"
definition lifecycle_paused :: lifecycle_state where "lifecycle_paused = ''paused''"
definition lifecycle_completed :: lifecycle_state where "lifecycle_completed = ''completed''"

lemmas lifecycle_defs = lifecycle_preparing_def lifecycle_countdown_def lifecycle_running_def
  lifecycle_paused_def lifecycle_completed_def

definition validate_lifecycle :: "lifecycle_state \<Rightarrow> unit res" where
  "validate_lifecycle s =
     (if s \<in> {lifecycle_preparing, lifecycle_countdown, lifecycle_running, lifecycle_paused,
              lifecycle_completed}
      then Inr () else Inl (Errorf ''unsupported lifecycle state %q'' [s]))"

end
