(* ===== verification/Go_Int.thy ===== *)
theory Go_Int
  imports Prelude "HOL-Library.Word" "HOL-Library.Signed_Division"
begin

text \<open>
  Go's 64-bit integers. \<open>u64\<close> is the library's \<open>64 word\<close>. \<open>i64\<close> wraps the same bits and
  reads them as two's complement: it is a commutative ring whose operations wrap around, as
  Go's do, and a linear order by the signed value \<open>ival\<close>. The lemmas of
  \<open>ival_arith\<close> say when an operation is exact.
\<close>

unbundle bit_operations_syntax

type_synonym u64 = "64 word"

datatype i64 = I64 (bits: u64)

definition ival :: "i64 \<Rightarrow> int" where
  "ival a = sint (bits a)"

definition i64_of :: "int \<Rightarrow> i64" where
  "i64_of n = I64 (word_of_int n)"

named_theorems ival_arith "signed values of i64 operations"

subsection \<open>The ring of wrapping operations\<close>

instantiation i64 :: comm_ring_1
begin

definition zero_i64_def: "0 = I64 0"
definition one_i64_def: "1 = I64 1"
definition plus_i64_def: "a + b = I64 (bits a + bits b)"
definition minus_i64_def: "a - b = I64 (bits a - bits b)"
definition uminus_i64_def: "- a = I64 (- bits a)"
definition times_i64_def: "a * b = I64 (bits a * bits b)"

instance
  by standard
    (simp_all add: zero_i64_def one_i64_def plus_i64_def minus_i64_def uminus_i64_def
      times_i64_def algebra_simps)

end

lemma ival_inject: "ival a = ival b \<longleftrightarrow> a = b"
proof
  assume "ival a = ival b"
  then have "(of_int (sint (bits a)) :: u64) = of_int (sint (bits b))"
    by (simp add: ival_def)
  then have "bits a = bits b" by simp
  then show "a = b" by (rule i64.expand)
qed simp

instantiation i64 :: linorder
begin

definition less_eq_i64_def: "a \<le> b \<longleftrightarrow> ival a \<le> ival b"
definition less_i64_def: "a < b \<longleftrightarrow> ival a < ival b"

instance
  by standard
    (auto simp: less_eq_i64_def less_i64_def ival_inject)

end

lemmas i64_order = less_eq_i64_def less_i64_def

lemma ival_0 [simp]: "ival 0 = 0"
  by (simp add: ival_def zero_i64_def)

lemma ival_1 [simp]: "ival 1 = 1"
  by (simp add: ival_def one_i64_def)

lemma i64_numeral: "numeral n = I64 (numeral n)"
proof (induction n)
  case One
  show ?case by (simp add: one_i64_def)
next
  case (Bit0 n)
  then show ?case by (simp only: numeral_Bit0 plus_i64_def i64.sel)
next
  case (Bit1 n)
  then show ?case by (simp only: numeral_Bit1 plus_i64_def one_i64_def i64.sel)
qed

lemma ival_numeral [simp]: "ival (numeral n) = signed_take_bit 63 (numeral n)"
  by (simp add: ival_def i64_numeral sint_sbintrunc)

lemma ival_neg_numeral [simp]: "ival (- numeral n) = signed_take_bit 63 (- numeral n)"
  by (simp add: ival_def i64_numeral uminus_i64_def sint_sbintrunc')

lemma ival_neg_1 [simp]: "ival (- 1) = - 1"
  by (simp add: ival_def one_i64_def uminus_i64_def)

lemma bits_numeral [simp]: "bits (numeral n) = numeral n" "bits 0 = 0" "bits 1 = 1"
  by (simp_all add: i64_numeral zero_i64_def one_i64_def)

subsection \<open>Range and exactness\<close>

abbreviation max_int :: int where "max_int \<equiv> 9223372036854775807"
abbreviation min_int :: int where "min_int \<equiv> - 9223372036854775808"

definition max_i64 :: i64 where "max_i64 = 9223372036854775807"
definition min_i64 :: i64 where "min_i64 = - 9223372036854775808"

definition fits :: "int \<Rightarrow> bool" where
  "fits n \<longleftrightarrow> min_int \<le> n \<and> n \<le> max_int"

lemma ival_max [simp]: "ival max_i64 = max_int"
  by (simp add: max_i64_def)

lemma ival_min [simp]: "ival min_i64 = min_int"
  by (simp add: min_i64_def)

lemma max_neq_min [simp]: "max_i64 \<noteq> min_i64"
proof
  assume "max_i64 = min_i64"
  then have "ival max_i64 = ival min_i64" by simp
  then show False by simp
qed

lemma ival_range: "min_int \<le> ival a" "ival a \<le> max_int"
  using sint_range_size [of "bits a"] by (simp_all add: ival_def word_size)

lemma fits_ival [simp]: "fits (ival a)"
  using ival_range by (simp add: fits_def)

lemma signed_take_bit_fits: "fits n \<Longrightarrow> signed_take_bit 63 n = n"
  by (subst signed_take_bit_int_eq_self_iff) (simp add: fits_def)

lemma ival_i64_of [ival_arith]: "fits n \<Longrightarrow> ival (i64_of n) = n"
  by (simp add: ival_def i64_of_def sint_sbintrunc' signed_take_bit_fits)

lemma i64_of_ival [simp]: "i64_of (ival a) = a"
  by (simp add: i64_of_def ival_def)

lemma i64_of_minus: "i64_of (- n) = - i64_of n"
  by (simp add: i64_of_def uminus_i64_def)

lemma ival_add [ival_arith]: "fits (ival a + ival b) \<Longrightarrow> ival (a + b) = ival a + ival b"
  by (simp add: ival_def plus_i64_def sint_word_add signed_take_bit_fits)

lemma ival_sub [ival_arith]: "fits (ival a - ival b) \<Longrightarrow> ival (a - b) = ival a - ival b"
  by (simp add: ival_def minus_i64_def sint_word_diff signed_take_bit_fits)

lemma ival_neg [ival_arith]: "fits (- ival a) \<Longrightarrow> ival (- a) = - ival a"
  by (simp add: ival_def uminus_i64_def sint_word_minus signed_take_bit_fits)

lemma ival_mult [ival_arith]: "fits (ival a * ival b) \<Longrightarrow> ival (a * b) = ival a * ival b"
  by (simp add: ival_def times_i64_def sint_word_mult signed_take_bit_fits)

lemma neg_min_i64: "- min_i64 = min_i64"
  by (simp add: min_i64_def i64_numeral uminus_i64_def)

text \<open>The signed value of a wrapping sum is the sum modulo \<open>2 ^ 64\<close>.\<close>

lemma ival_add_wraps: "ival (a + b) = (ival a + ival b + 2 ^ 63) mod 2 ^ 64 - 2 ^ 63"
  by (simp add: ival_def plus_i64_def sint_word_add signed_take_bit_eq_take_bit_shift
      take_bit_eq_mod)

subsection \<open>Division, and the unsigned reading\<close>

text \<open>Go's \<^verbatim>\<open>/\<close> truncates towards zero; \<^verbatim>\<open>math.MinInt64 / -1\<close> wraps to \<^verbatim>\<open>math.MinInt64\<close>.
  Division by zero panics, which every caller excludes first.\<close>

definition go_div :: "i64 \<Rightarrow> i64 \<Rightarrow> i64" where
  "go_div a b = i64_of (ival a sdiv ival b)"

lemma sdiv_fits:
  assumes "0 < b \<or> b \<noteq> 0 \<and> a \<noteq> min_int" and "fits a"
  shows "fits (a sdiv b)"
proof -
  have le: "\<bar>a\<bar> div \<bar>b\<bar> \<le> \<bar>a\<bar>"
    by (cases "a = 0") (simp_all add: int_div_le_self)
  have nonneg: "0 \<le> \<bar>a\<bar> div \<bar>b\<bar>"
    using assms(1) by (auto simp: pos_imp_zdiv_nonneg_iff)
  from assms show ?thesis
    by (cases "0 < b")
      (use le nonneg in \<open>auto simp: signed_divide_int_def fits_def abs_mult sgn_if abs_if
        split: if_splits\<close>)
qed

lemma ival_go_div [ival_arith]:
  assumes "0 < ival b \<or> ival b \<noteq> 0 \<and> a \<noteq> min_i64"
  shows "ival (go_div a b) = ival a sdiv ival b"
proof -
  have "0 < ival b \<or> ival b \<noteq> 0 \<and> ival a \<noteq> min_int"
    using assms ival_inject [of a min_i64] by auto
  then show ?thesis by (simp add: go_div_def ival_i64_of sdiv_fits)
qed

end
