(* ===== verification/Fixed.thy ===== *)
theory Fixed
  imports Go_Int "HOL-Library.Sublist"
begin

text \<open>
  The fixed-point arithmetic of \<^verbatim>\<open>internal/fixed/fixed.go\<close>: prices and quantities in
  ten-thousandths, money in hundred-millionths, all held in an \<^verbatim>\<open>int64\<close>. Every operation is
  translated with its own overflow test and shown to be exact: it returns the mathematical
  result when that result fits in 64 bits and an error otherwise.
\<close>

type_synonym price = i64
type_synonym qty = i64
type_synonym money = i64

definition price_scale :: i64 where "price_scale = 10000"
definition qty_scale :: i64 where "qty_scale = 10000"
definition money_scale :: i64 where "money_scale = 100000000"

definition positive :: "i64 \<Rightarrow> bool" where
  "positive v \<longleftrightarrow> v > 0"

subsection \<open>Checked arithmetic\<close>

definition notional :: "price \<Rightarrow> qty \<Rightarrow> money res" where
  "notional a b =
     (if a = 0 \<or> b = 0 then Inr 0
      else if (a > 0 \<and> b > 0 \<and> a > go_div max_i64 b) \<or>
              (a > 0 \<and> b < 0 \<and> b < go_div min_i64 a) \<or>
              (a < 0 \<and> b > 0 \<and> a < go_div min_i64 b) \<or>
              (a < 0 \<and> b < 0 \<and> a < go_div max_i64 b)
      then fails ''notional overflows money range''
      else Inr (a * b))"

definition add_money :: "money \<Rightarrow> money \<Rightarrow> money res" where
  "add_money a b =
     (if (b > 0 \<and> a > max_i64 - b) \<or> (b < 0 \<and> a < min_i64 - b)
      then fails ''money overflows range'' else Inr (a + b))"

definition add_qty :: "qty \<Rightarrow> qty \<Rightarrow> qty res" where
  "add_qty a b =
     (if (b > 0 \<and> a > max_i64 - b) \<or> (b < 0 \<and> a < min_i64 - b)
      then fails ''quantity overflows range'' else Inr (a + b))"

definition neg_money :: "money \<Rightarrow> money res" where
  "neg_money v =
     (if v = min_i64 then fails ''money negation overflows range'' else Inr (- v))"

definition neg_qty :: "qty \<Rightarrow> qty res" where
  "neg_qty v =
     (if v = min_i64 then fails ''quantity negation overflows range'' else Inr (- v))"

definition sub_money :: "money \<Rightarrow> money \<Rightarrow> money res" where
  "sub_money a b =
     (if (b > 0 \<and> a < min_i64 + b) \<or> (b < 0 \<and> a > max_i64 + b)
      then fails ''money overflows range'' else Inr (a - b))"

definition sub_qty :: "qty \<Rightarrow> qty \<Rightarrow> qty res" where
  "sub_qty a b =
     (if (b > 0 \<and> a < min_i64 + b) \<or> (b < 0 \<and> a > max_i64 + b)
      then fails ''quantity overflows range'' else Inr (a - b))"

definition abs_qty_checked :: "qty \<Rightarrow> qty res" where
  "abs_qty_checked v = (if v < 0 then neg_qty v else Inr v)"

text \<open>\<^verbatim>\<open>AbsQty\<close> panics where the checked version returns an error.\<close>

definition abs_qty :: "qty \<Rightarrow> qty res" where
  "abs_qty v = (case abs_qty_checked v of Inl e \<Rightarrow> panics ''AbsQty'' | Inr a \<Rightarrow> Inr a)"

subsection \<open>Scaling through a 128-bit product\<close>

text \<open>\<^verbatim>\<open>bits.Mul64\<close> and \<^verbatim>\<open>bits.Div64\<close> of the standard library; the latter panics when the divisor
  is not above the high word, which the caller tests first.\<close>

definition mul64 :: "u64 \<Rightarrow> u64 \<Rightarrow> u64 \<times> u64" where
  "mul64 x y = (let p = uint x * uint y in (word_of_int (p div 2 ^ 64), word_of_int p))"

definition div64 :: "u64 \<Rightarrow> u64 \<Rightarrow> u64 \<Rightarrow> u64" where
  "div64 hi lo y = word_of_int ((uint hi * 2 ^ 64 + uint lo) div uint y)"

definition scale_int64 :: "i64 \<Rightarrow> i64 \<Rightarrow> i64 \<Rightarrow> i64 option" where
  "scale_int64 value numerator denominator =
     (let negative = value < 0;
          magnitude = (if negative then bits (- (value + 1)) + 1 else bits value);
          (hi, lo) = mul64 magnitude (bits numerator);
          unsigned_denominator = bits denominator
      in if hi \<ge> unsigned_denominator then None
         else let quotient = div64 hi lo unsigned_denominator;
                  limit = bits max_i64 + (if negative then 1 else 0)
              in if quotient > limit then None
                 else if negative
                 then (if quotient = bits max_i64 + 1 then Some min_i64
                       else Some (- I64 quotient))
                 else Some (I64 quotient))"

definition scale_money :: "money \<Rightarrow> i64 \<Rightarrow> i64 \<Rightarrow> money res" where
  "scale_money amount numerator denominator =
     (if denominator \<le> 0 \<or> numerator < 0 then fails ''invalid money scale''
      else case scale_int64 amount numerator denominator of
             None \<Rightarrow> fails ''money scale overflows range''
           | Some r \<Rightarrow> Inr r)"

definition scale_price :: "price \<Rightarrow> i64 \<Rightarrow> i64 \<Rightarrow> price res" where
  "scale_price p numerator denominator =
     (if denominator \<le> 0 \<or> numerator < 0 then fails ''invalid price scale''
      else case scale_int64 p numerator denominator of
             None \<Rightarrow> fails ''price scale overflows range''
           | Some r \<Rightarrow> Inr r)"

subsection \<open>Exactness\<close>

text \<open>\<open>exactly r n\<close>: the checked operation \<open>r\<close> computes the integer \<open>n\<close>, failing
  precisely when \<open>n\<close> does not fit.\<close>

definition exactly :: "i64 res \<Rightarrow> int \<Rightarrow> bool" where
  "exactly r n \<longleftrightarrow> (case r of Inr v \<Rightarrow> ival v = n | Inl _ \<Rightarrow> \<not> fits n)"

lemma exactly_InrD: "exactly r n \<Longrightarrow> r = Inr v \<Longrightarrow> ival v = n"
  by (simp add: exactly_def)

lemma exactly_fits: "exactly r n \<Longrightarrow> fits n \<Longrightarrow> r = Inr (i64_of n)"
  by (cases r) (auto simp: exactly_def)

lemma exactly_iff: "exactly r n \<Longrightarrow> r = Inr v \<longleftrightarrow> fits n \<and> v = i64_of n"
  by (cases r) (auto simp: exactly_def ival_arith)

lemma add_sub_limits:
  "0 < ival b \<Longrightarrow> ival (max_i64 - b) = max_int - ival b"
  "ival b < 0 \<Longrightarrow> ival (min_i64 - b) = min_int - ival b"
  "0 < ival b \<Longrightarrow> ival (min_i64 + b) = min_int + ival b"
  "ival b < 0 \<Longrightarrow> ival (max_i64 + b) = max_int + ival b"
  using ival_range [of b] by (simp_all add: ival_arith fits_def)

lemma add_money_exact: "exactly (add_money a b) (ival a + ival b)"
  using ival_range [of a] ival_range [of b]
  by (auto simp: add_money_def exactly_def i64_order add_sub_limits fails_def ival_add fits_def)

lemma add_qty_exact: "exactly (add_qty a b) (ival a + ival b)"
  using ival_range [of a] ival_range [of b]
  by (auto simp: add_qty_def exactly_def i64_order add_sub_limits fails_def ival_add fits_def)

lemma sub_money_exact: "exactly (sub_money a b) (ival a - ival b)"
  using ival_range [of a] ival_range [of b]
  by (auto simp: sub_money_def exactly_def i64_order add_sub_limits fails_def ival_sub fits_def)

lemma sub_qty_exact: "exactly (sub_qty a b) (ival a - ival b)"
  using ival_range [of a] ival_range [of b]
  by (auto simp: sub_qty_def exactly_def i64_order add_sub_limits fails_def ival_sub fits_def)

lemma neg_exact:
  "exactly (neg_money a) (- ival a)" "exactly (neg_qty a) (- ival a)"
  using ival_range [of a] ival_inject [of a min_i64]
  by (auto simp: neg_money_def neg_qty_def exactly_def fails_def ival_neg fits_def)

lemma abs_qty_exact: "exactly (abs_qty_checked a) \<bar>ival a\<bar>"
  using neg_exact(2) [of a]
  by (auto simp: abs_qty_checked_def i64_order) (simp add: exactly_def)

lemma le_div_pos_iff:
  fixes a b m :: int
  assumes "0 < b"
  shows "a \<le> m div b \<longleftrightarrow> a * b \<le> m"
proof
  assume "a \<le> m div b"
  then have "a * b \<le> m div b * b" using assms by (simp add: mult_right_mono)
  also have "\<dots> \<le> m" using assms by (simp add: minus_mod_eq_div_mult [symmetric])
  finally show "a * b \<le> m" .
next
  assume "a * b \<le> m"
  then have "a * b div b \<le> m div b" using assms by (intro zdiv_mono1)
  then show "a \<le> m div b" using assms by simp
qed

lemma notional_test_iff:
  fixes a b :: int
  assumes "a \<noteq> 0" "b \<noteq> 0"
  shows "(a > 0 \<and> b > 0 \<and> a > max_int sdiv b) \<or> (a > 0 \<and> b < 0 \<and> b < min_int sdiv a) \<or>
    (a < 0 \<and> b > 0 \<and> a < min_int sdiv b) \<or> (a < 0 \<and> b < 0 \<and> a < max_int sdiv b)
    \<longleftrightarrow> \<not> fits (a * b)"
proof -
  consider "a > 0" "b > 0" | "a > 0" "b < 0" | "a < 0" "b > 0" | "a < 0" "b < 0"
    using assms by linarith
  then show ?thesis
  proof cases
    case 1
    then have "0 < a * b" by simp
    then have "min_int \<le> a * b" by linarith
    with 1 show ?thesis using le_div_pos_iff [of b a max_int]
      by (auto simp: fits_def signed_divide_int_def)
  next
    case 2
    then have "a * b < 0" by (simp add: mult_pos_neg)
    with 2 show ?thesis using le_div_pos_iff [of a "- b" "- min_int"]
      by (auto simp: fits_def signed_divide_int_def mult.commute)
  next
    case 3
    then have "a * b < 0" by (simp add: mult_neg_pos)
    with 3 show ?thesis using le_div_pos_iff [of b "- a" "- min_int"]
      by (auto simp: fits_def signed_divide_int_def)
  next
    case 4
    then have "0 < a * b" by (simp add: mult_neg_neg)
    then have "min_int \<le> a * b" by linarith
    with 4 show ?thesis using le_div_pos_iff [of "- b" "- a" max_int]
      by (auto simp: fits_def signed_divide_int_def)
  qed
qed

lemma notional_exact: "exactly (notional a b) (ival a * ival b)"
proof (cases "a = 0 \<or> b = 0")
  case True
  then show ?thesis by (auto simp: notional_def exactly_def)
next
  case False
  then have nz: "ival a \<noteq> 0" "ival b \<noteq> 0"
    using ival_inject [of a 0] ival_inject [of b 0] by auto
  have div: "ival (go_div max_i64 b) = max_int sdiv ival b"
    "0 < ival b \<Longrightarrow> ival (go_div min_i64 b) = min_int sdiv ival b"
    "0 < ival a \<Longrightarrow> ival (go_div min_i64 a) = min_int sdiv ival a"
    using nz by (simp_all add: ival_go_div)
  let ?test = "(a > 0 \<and> b > 0 \<and> a > go_div max_i64 b) \<or> (a > 0 \<and> b < 0 \<and> b < go_div min_i64 a) \<or>
    (a < 0 \<and> b > 0 \<and> a < go_div min_i64 b) \<or> (a < 0 \<and> b < 0 \<and> a < go_div max_i64 b)"
  have "?test \<longleftrightarrow> \<not> fits (ival a * ival b)"
    unfolding notional_test_iff [OF nz, symmetric] by (auto simp: less_i64_def div)
  then show ?thesis using False
    by (cases ?test) (simp_all add: notional_def exactly_def fails_def ival_mult)
qed

lemmas checked_exact = add_money_exact add_qty_exact sub_money_exact sub_qty_exact
  neg_exact abs_qty_exact notional_exact

text \<open>In the ring of wrapping operations a successful check returns the plain result: the
  equations that the settlement and ledger proofs calculate with.\<close>

lemma checked_ring [dest]:
  "add_money a b = Inr c \<Longrightarrow> c = a + b"
  "add_qty a b = Inr c \<Longrightarrow> c = a + b"
  "sub_money a b = Inr c \<Longrightarrow> c = a - b"
  "sub_qty a b = Inr c \<Longrightarrow> c = a - b"
  "neg_money a = Inr c \<Longrightarrow> c = - a"
  "neg_qty a = Inr c \<Longrightarrow> c = - a"
  "notional a b = Inr c \<Longrightarrow> c = a * b"
  by (auto simp: add_money_def add_qty_def sub_money_def sub_qty_def neg_money_def neg_qty_def
      notional_def split: if_splits)

lemma abs_qty_never_panics_iff:
  "(\<exists>a. abs_qty v = Inr a) \<longleftrightarrow> v \<noteq> min_i64"
  by (auto simp: abs_qty_def abs_qty_checked_def neg_qty_def i64_order fails_def min_i64_def
      split: sum.splits)

subsection \<open>Scaling is exact and truncates towards zero\<close>

lemma uint_bits: "uint (bits v) = ival v mod 2 ^ 64"
proof -
  have "uint (bits v) = uint (word_of_int (ival v) :: u64)" by (simp add: ival_def)
  then show ?thesis by (simp add: uint_word_of_int)
qed

lemma unat_bits: "unat (bits v) = nat (ival v mod 2 ^ 64)"
  by (simp add: unat_eq_nat_uint uint_bits)

lemma unat_bits_nonneg: "0 \<le> ival v \<Longrightarrow> unat (bits v) = nat (ival v)"
  using ival_range [of v] by (simp add: unat_bits)

lemma ival_I64_small: "unat w \<le> 9223372036854775807 \<Longrightarrow> ival (I64 w) = int (unat w)"
proof -
  assume "unat w \<le> 9223372036854775807"
  then have "fits (int (unat w))" by (simp only: fits_def) linarith
  then have "ival (i64_of (int (unat w))) = int (unat w)" by (rule ival_i64_of)
  then show ?thesis by (simp add: i64_of_def)
qed

definition magnitude :: "i64 \<Rightarrow> u64" where
  "magnitude v = (if v < 0 then bits (- (v + 1)) + 1 else bits v)"

lemma unat_magnitude: "unat (magnitude v) = nat \<bar>ival v\<bar>"
proof (cases "ival v < 0")
  case True
  have "ival (v + 1) = ival v + 1"
    using True ival_range [of v] by (simp add: ival_add fits_def)
  then have "ival (- (v + 1)) = - ival v - 1"
    using True ival_range [of v] ival_neg [of "v + 1"] by (simp only: fits_def) linarith
  then have "unat (bits (- (v + 1))) = nat (- ival v - 1)"
    using True by (simp add: unat_bits_nonneg del: minus_add_distrib)
  then show ?thesis
    using True ival_range [of v] by (simp del: minus_add_distrib add: magnitude_def i64_order unat_word_ariths)
next
  case False
  then show ?thesis by (simp add: magnitude_def i64_order unat_bits_nonneg)
qed

lemma nat_abs_sdiv:
  assumes "0 \<le> n" "0 < d"
  shows "(v * n) sdiv d = (if v < 0 then - int (nat \<bar>v\<bar> * nat n div nat d)
    else int (nat \<bar>v\<bar> * nat n div nat d))"
proof (cases "n = 0")
  case False
  with assms have n: "0 < n" by simp
  have "\<bar>v * n\<bar> div \<bar>d\<bar> = int (nat \<bar>v\<bar> * nat n div nat d)"
    using assms by (simp add: zdiv_int abs_mult)
  moreover have "sgn (v * n) * sgn d = sgn v" using n assms(2) by (simp add: sgn_mult)
  ultimately show ?thesis by (simp add: signed_divide_int_def sgn_if)
qed (simp add: signed_divide_int_def)

lemma mul64_nat: "mul64 x y = (let p = unat x * unat y in (word_of_nat (p div 2 ^ 64), word_of_nat p))"
proof -
  have p: "uint x * uint y = int (unat x * unat y)" by simp
  have d: "int n div 2 ^ 64 = int (n div 2 ^ 64)" for n by (simp add: zdiv_int)
  show ?thesis unfolding mul64_def Let_def p d of_int_of_nat_eq ..
qed

lemma div64_nat: "div64 hi lo y = word_of_nat ((unat hi * 2 ^ 64 + unat lo) div unat y)"
proof -
  have n: "uint hi * 2 ^ 64 + uint lo = int (unat hi * 2 ^ 64 + unat lo)" by simp
  have d: "int n div uint y = int (n div unat y)" for n by (simp add: zdiv_int)
  show ?thesis unfolding div64_def n d of_int_of_nat_eq ..
qed

lemma mul_div_128:
  fixes x y d :: u64
  assumes "0 < d"
  shows "fst (mul64 x y) \<ge> d \<longleftrightarrow> 2 ^ 64 \<le> unat x * unat y div unat d"
    and "fst (mul64 x y) < d \<Longrightarrow>
      unat (div64 (fst (mul64 x y)) (snd (mul64 x y)) d) = unat x * unat y div unat d"
proof -
  let ?P = "unat x * unat y"
  have x: "unat x < 2 ^ 64" and y: "unat y < 2 ^ 64"
    by (rule order_less_le_trans [OF unsigned_less], simp)+
  then have "?P < 2 ^ 64 * 2 ^ 64" by (intro mult_strict_mono') simp_all
  then have "?P div 2 ^ 64 < 2 ^ 64" by (simp add: less_mult_imp_div_less)
  then have hi: "unat (fst (mul64 x y)) = ?P div 2 ^ 64"
    by (simp add: mul64_nat Let_def unat_of_nat)
  have lo: "unat (snd (mul64 x y)) = ?P mod 2 ^ 64"
    by (simp add: mul64_nat Let_def unat_word_ariths)
  have d: "0 < unat d" using assms by (simp add: word_less_nat_alt)
  have iff: "unat d \<le> ?P div 2 ^ 64 \<longleftrightarrow> 2 ^ 64 \<le> ?P div unat d"
    using d by (simp add: less_eq_div_iff_mult_less_eq mult.commute)
  then show "fst (mul64 x y) \<ge> d \<longleftrightarrow> 2 ^ 64 \<le> ?P div unat d"
    by (simp add: word_le_nat_alt hi)
  assume "fst (mul64 x y) < d"
  then have "?P div unat d < 2 ^ 64" using iff by (simp add: word_less_nat_alt hi)
  moreover have "?P div 2 ^ 64 * 2 ^ 64 + ?P mod 2 ^ 64 = ?P" by (rule div_mult_mod_eq)
  ultimately show "unat (div64 (fst (mul64 x y)) (snd (mul64 x y)) d) = ?P div unat d"
    by (simp add: div64_nat hi lo unat_of_nat)
qed

lemma scale_int64_eq:
  assumes num: "0 \<le> ival num" and den: "0 < ival den"
  shows "scale_int64 v num den =
    (let q = (ival v * ival num) sdiv ival den in if fits q then Some (i64_of q) else None)"
proof -
  define P where "P = nat \<bar>ival v\<bar> * nat (ival num) div nat (ival den)"
  define hi where "hi = fst (mul64 (magnitude v) (bits num))"
  define lo where "lo = snd (mul64 (magnitude v) (bits num))"
  define w where "w = div64 hi lo (bits den)"
  have den': "0 < bits den" using den by (simp add: word_less_nat_alt unat_bits_nonneg)
  have P: "unat (magnitude v) * unat (bits num) div unat (bits den) = P"
    using num den by (simp add: P_def unat_magnitude unat_bits_nonneg)
  note hi_iff = mul_div_128(1) [OF den', of "magnitude v" "bits num", unfolded P, folded hi_def]
  note wP = mul_div_128(2) [OF den', of "magnitude v" "bits num", unfolded P,
      folded hi_def lo_def, folded w_def]
  have q: "(ival v * ival num) sdiv ival den = (if ival v < 0 then - int P else int P)"
    using nat_abs_sdiv [OF num den] by (simp add: P_def)
  have max: "unat (bits max_i64) = 9223372036854775807" by (simp add: unat_bits)
  have lim: "unat (bits max_i64 + 1) = 9223372036854775808"
    using max by (simp add: unat_word_ariths)
  have eq: "scale_int64 v num den =
    (if hi \<ge> bits den then None
     else if w > bits max_i64 + (if v < 0 then 1 else 0) then None
     else if v < 0 then (if w = bits max_i64 + 1 then Some min_i64 else Some (- I64 w))
     else Some (I64 w))"
    by (simp add: scale_int64_def Let_def w_def hi_def lo_def magnitude_def split_beta)
  show ?thesis
  proof (cases "hi \<ge> bits den")
    case True
    then have "2 ^ 64 \<le> P" using hi_iff by simp
    then have "\<not> fits ((ival v * ival num) sdiv ival den)" by (auto simp: q fits_def)
    with True show ?thesis by (simp add: eq)
  next
    case False
    then have w: "unat w = P" using wP by simp
    have small: "P \<le> 9223372036854775807 \<Longrightarrow> I64 w = i64_of (int P)"
      using ival_I64_small [of w] w by (metis i64_of_ival)
    have eq_lim: "w = bits max_i64 + 1 \<longleftrightarrow> P = 9223372036854775808"
      using w lim by (metis word_unat_eq_iff)
    have min: "- i64_of 9223372036854775808 = min_i64"
      using i64_of_ival [of min_i64] by (simp add: i64_of_minus)
    show ?thesis using False
      by (auto simp: eq q fits_def word_less_nat_alt w lim max i64_order small i64_of_minus eq_lim
          min not_le not_less)
  qed
qed

lemma scale_money_eq:
  "scale_money a num den =
    (if den \<le> 0 \<or> num < 0 then fails ''invalid money scale''
     else if fits ((ival a * ival num) sdiv ival den)
     then Inr (i64_of ((ival a * ival num) sdiv ival den))
     else fails ''money scale overflows range'')"
  by (auto simp: scale_money_def scale_int64_eq i64_order Let_def)

lemma scale_price_eq:
  "scale_price a num den =
    (if den \<le> 0 \<or> num < 0 then fails ''invalid price scale''
     else if fits ((ival a * ival num) sdiv ival den)
     then Inr (i64_of ((ival a * ival num) sdiv ival den))
     else fails ''price scale overflows range'')"
  by (auto simp: scale_price_def scale_int64_eq i64_order Let_def)

end
