(* ===== verification/Decimal.thy ===== *)
theory Decimal
  imports Fixed
begin

text \<open>
  Decimal text of \<^verbatim>\<open>internal/fixed/fixed.go\<close>: \<open>parse\<close> and \<open>format\<close>, with the standard
  library calls they make (\<^verbatim>\<open>strings.TrimSpace\<close>, \<^verbatim>\<open>strings.Split\<close>, \<^verbatim>\<open>strconv.ParseUint\<close> in base
  10, \<^verbatim>\<open>strconv.FormatInt\<close>, \<^verbatim>\<open>fmt.Sprintf("%d.%0*d")\<close>) over byte strings. The main result is the
  round trip: every \<^verbatim>\<open>int64\<close>, \<^verbatim>\<open>math.MinInt64\<close> included, is read back from its own text.
\<close>

subsection \<open>Library calls\<close>

definition spaces :: "string list" where
  "spaces =
     map (\<lambda>b. [char_of (b :: nat)]) [9, 10, 11, 12, 13, 32] @
     map (map char_of)
       ([[0xC2, 0x85], [0xC2, 0xA0], [0xE1, 0x9A, 0x80]] @
        map (\<lambda>b. [0xE2, 0x80, b]) [0x80..<0x8B] @
        [[0xE2, 0x80, 0xA8], [0xE2, 0x80, 0xA9], [0xE2, 0x80, 0xAF], [0xE2, 0x81, 0x9F],
         [0xE3, 0x80, 0x80 :: nat]])"

function strip_pre :: "string list \<Rightarrow> string \<Rightarrow> string" where
  "strip_pre ws s =
     (case find (\<lambda>w. w \<noteq> [] \<and> prefix w s) ws of
        None \<Rightarrow> s
      | Some w \<Rightarrow> strip_pre ws (drop (length w) s))"
  by pat_completeness auto
termination
  by (relation "measure (\<lambda>(ws, s). length s)") (auto simp: find_Some_iff dest: prefix_length_le intro!: diff_less)

declare strip_pre.simps [simp del]

definition trim_space :: "string \<Rightarrow> string" where
  "trim_space s = rev (strip_pre (map rev spaces) (rev (strip_pre spaces s)))"

fun split_on :: "char \<Rightarrow> string \<Rightarrow> string list" where
  "split_on c [] = [[]]"
| "split_on c (x # xs) =
     (if x = c then [] # split_on c xs
      else case split_on c xs of [] \<Rightarrow> [[x]] | p # ps \<Rightarrow> (x # p) # ps)"

definition digit_val :: "char \<Rightarrow> nat" where
  "digit_val c = of_char c - 48"

definition is_digit :: "char \<Rightarrow> bool" where
  "is_digit c \<longleftrightarrow> (48::nat) \<le> of_char c \<and> of_char c \<le> (57::nat)"

definition digits_val :: "string \<Rightarrow> nat" where
  "digits_val s = foldl (\<lambda>acc c. acc * 10 + digit_val c) 0 s"

definition parse_uint :: "string \<Rightarrow> u64 option" where
  "parse_uint s =
     (if s = [] \<or> \<not> list_all is_digit s \<or> digits_val s \<ge> 2 ^ 64 then None
      else Some (word_of_nat (digits_val s)))"

definition digit :: "nat \<Rightarrow> char" where
  "digit n = char_of (48 + n)"

fun show_nat :: "nat \<Rightarrow> string" where
  "show_nat n = (if n < 10 then [digit n] else show_nat (n div 10) @ [digit (n mod 10)])"

declare show_nat.simps [simp del]

text \<open>Decimal digits of a non-negative integer; \<open>show_nat\<close> is the same function on naturals, which
  the proofs use.\<close>

function show_dec :: "int \<Rightarrow> string" where
  "show_dec n =
     (if n < 10 then [digit (nat n)] else show_dec (n div 10) @ [digit (nat (n mod 10))])"
  by pat_completeness auto
termination
  by (relation "measure nat") auto

declare show_dec.simps [simp del]

lemma show_dec_nat: "show_dec (int n) = show_nat n"
proof (induction n rule: show_nat.induct)
  case (1 n)
  have "int n div 10 = int (n div 10)" "int n mod 10 = int (n mod 10)"
    by (simp_all add: zdiv_int zmod_int)
  then show ?case
    using 1 by (subst show_dec.simps, subst show_nat.simps) simp
qed

lemma show_dec_uint: "show_dec (uint w) = show_nat (unat w)"
  by (simp add: show_dec_nat [symmetric])

definition format_int :: "i64 \<Rightarrow> string" where
  "format_int v = (if v < 0 then CHR ''-'' # show_dec (- ival v) else show_dec (ival v))"

lemma format_int_nat:
  "format_int v = (if v < 0 then CHR ''-'' # show_nat (nat (- ival v)) else show_nat (nat (ival v)))"
  by (simp add: format_int_def i64_order show_dec_nat [symmetric])

definition pad_zeros :: "nat \<Rightarrow> string \<Rightarrow> string" where
  "pad_zeros width s = replicate (width - length s) (CHR ''0'') @ s"

subsection \<open>The two functions\<close>

definition parse :: "string \<Rightarrow> i64 \<Rightarrow> i64 res" where
  "parse s0 scale =
     (let s1 = trim_space s0 in
      if s1 = [] then fails ''value is required''
      else
        let signed = (hd s1 = CHR ''-'' \<or> hd s1 = CHR ''+'');
            negative = (signed \<and> hd s1 = CHR ''-'');
            s = (if signed then tl s1 else s1);
            parts = split_on (CHR ''.'') s
        in if length parts > 2 \<or> hd parts = [] then Inl (Errorf ''invalid decimal %q'' [s])
        else case parse_uint (hd parts) of
          None \<Rightarrow> Inl (Errorf ''decimal out of range %q'' [s])
        | Some whole \<Rightarrow>
          let fraction0 = (if length parts = 2 then parts ! 1 else []);
              digits = length (format_int scale) - 1
          in if length fraction0 > digits
             then Inl (Errorf ''decimal %q exceeds %d places'' [s, show_nat digits])
             else
               let fraction1 = (if fraction0 = [] then ''0'' else fraction0);
                   fraction = fraction1 @ replicate (digits - length fraction1) (CHR ''0'')
               in case parse_uint fraction of
                 None \<Rightarrow> Inl (Errorf ''invalid decimal %q'' [s])
               | Some fr \<Rightarrow>
                 let limit = bits max_i64 + (if negative then 1 else 0);
                     unsigned_scale = bits scale
                 in if whole > limit div unsigned_scale \<or>
                       (whole = limit div unsigned_scale \<and> fr > limit mod unsigned_scale)
                    then Inl (Errorf ''decimal out of range %q'' [s])
                    else
                      let mag = whole * unsigned_scale + fr
                      in if negative
                         then (if mag = bits max_i64 + 1 then Inr min_i64
                               else Inr (- I64 mag))
                         else Inr (I64 mag))"

definition format :: "i64 \<Rightarrow> i64 \<Rightarrow> string" where
  "format value scale =
     (let negative = value < 0;
          magnitude = (if negative then bits (- (value + 1)) + 1 else bits value);
          digits = length (format_int scale) - 1;
          whole = magnitude div bits scale;
          fraction = magnitude mod bits scale;
          s = show_dec (uint whole) @ ''.'' @ pad_zeros digits (show_dec (uint fraction))
      in if negative then ''-'' @ s else s)"

definition parse_price :: "string \<Rightarrow> price res" where "parse_price s = parse s price_scale"
definition parse_qty :: "string \<Rightarrow> qty res" where "parse_qty s = parse s qty_scale"
definition parse_money :: "string \<Rightarrow> money res" where "parse_money s = parse s money_scale"
definition show_price :: "price \<Rightarrow> string" where "show_price v = format v price_scale"
definition show_qty :: "qty \<Rightarrow> string" where "show_qty v = format v qty_scale"
definition show_money :: "money \<Rightarrow> string" where "show_money v = format v money_scale"

subsection \<open>Printing and reading numbers\<close>

lemma of_char_digit: "n < 10 \<Longrightarrow> (of_char (digit n) :: nat) = 48 + n"
  by (simp add: digit_def)

lemma digit_facts [simp]:
  assumes "n < 10"
  shows "is_digit (digit n)" "digit_val (digit n) = n"
  using assms by (simp_all add: is_digit_def digit_val_def of_char_digit)

lemma digits_val_snoc: "digits_val (s @ [c]) = digits_val s * 10 + digit_val c"
  by (simp add: digits_val_def)

lemma show_nat_digits: "list_all is_digit (show_nat n)"
proof (induction n rule: show_nat.induct)
  case (1 n)
  then show ?case by (subst show_nat.simps) auto
qed

lemma show_nat_not_Nil [simp]: "show_nat n \<noteq> []"
  by (subst show_nat.simps) simp

lemma digits_val_show_nat [simp]: "digits_val (show_nat n) = n"
proof (induction n rule: show_nat.induct)
  case (1 n)
  then show ?case
    by (subst show_nat.simps) (auto simp: digits_val_snoc, simp add: digits_val_def)
qed

lemma length_show_nat: "n < 10 ^ d \<Longrightarrow> 0 < d \<Longrightarrow> length (show_nat n) \<le> d"
proof (induction n arbitrary: d rule: show_nat.induct)
  case (1 n)
  show ?case
  proof (cases "n < 10")
    case True
    then show ?thesis using "1.prems" by (subst show_nat.simps) simp
  next
    case False
    obtain e where d: "d = Suc e" using "1.prems"(2) by (cases d) auto
    have "0 < e" using False "1.prems"(1) d by (cases e) auto
    moreover have "n div 10 < 10 ^ e" using "1.prems"(1) d by (simp add: div_less_iff_less_mult)
    ultimately show ?thesis using "1.IH" [of e] False d by (subst show_nat.simps) simp
  qed
qed

lemma length_show_pow10: "length (show_nat (10 ^ d)) = Suc d"
proof (induction d)
  case 0
  show ?case by (subst show_nat.simps) simp
next
  case (Suc d)
  have "\<not> (10 :: nat) ^ Suc d < 10" by simp
  then show ?case using Suc by (subst show_nat.simps) simp
qed

lemma foldl_zeros:
  "foldl (\<lambda>acc c. acc * 10 + digit_val c) 0 (replicate k (CHR ''0'')) = (0::nat)"
  by (induction k) (simp_all add: digit_val_def)

lemma digits_val_pad [simp]: "digits_val (pad_zeros w s) = digits_val s"
  by (simp add: digits_val_def pad_zeros_def foldl_zeros)

lemma pad_zeros_digits: "list_all is_digit s \<Longrightarrow> list_all is_digit (pad_zeros w s)"
  by (auto simp: pad_zeros_def list_all_iff is_digit_def)

lemma length_pad_zeros: "length s \<le> w \<Longrightarrow> length (pad_zeros w s) = w"
  by (simp add: pad_zeros_def)

lemma parse_uint_digits:
  "s \<noteq> [] \<Longrightarrow> list_all is_digit s \<Longrightarrow> digits_val s < 2 ^ 64 \<Longrightarrow>
   parse_uint s = Some (word_of_nat (digits_val s))"
  by (simp add: parse_uint_def)

lemma split_on_digits:
  "list_all is_digit b \<Longrightarrow> split_on (CHR ''.'') b = [b]"
  by (induction b) (auto simp: is_digit_def)

lemma split_on_two:
  "list_all is_digit a \<Longrightarrow> list_all is_digit b \<Longrightarrow>
   split_on (CHR ''.'') (a @ CHR ''.'' # b) = [a, b]"
  by (induction a) (auto simp: split_on_digits is_digit_def)

lemma strip_pre_id:
  assumes "\<forall>w \<in> set ws. w = [] \<or> hd w \<noteq> hd s" and "s \<noteq> []"
  shows "strip_pre ws s = s"
proof -
  have "find (\<lambda>w. w \<noteq> [] \<and> prefix w s) ws = None"
    using assms by (auto simp: find_None_iff prefix_def hd_append)
  then show ?thesis by (subst strip_pre.simps) simp
qed

definition plain :: "char \<Rightarrow> bool" where
  "plain c \<longleftrightarrow> is_digit c \<or> c = CHR ''-''"

lemma spaces_not_plain:
  "\<forall>w \<in> set spaces. \<not> plain (hd w)"
  "\<forall>w \<in> set (map rev spaces). \<not> plain (hd w)"
  by code_simp+

lemma trim_space_plain:
  assumes "s \<noteq> []" and "plain (hd s)" and "plain (last s)"
  shows "trim_space s = s"
proof -
  have "strip_pre spaces s = s"
    using assms spaces_not_plain(1) by (intro strip_pre_id) auto
  moreover have "strip_pre (map rev spaces) (rev s) = rev s"
    using assms spaces_not_plain(2) by (intro strip_pre_id) (auto simp: hd_rev)
  ultimately show ?thesis by (simp add: trim_space_def)
qed

subsection \<open>The round trip\<close>

definition decimal_scale :: "i64 \<Rightarrow> nat \<Rightarrow> bool" where
  "decimal_scale scale d \<longleftrightarrow> ival scale = 10 ^ d \<and> 0 < d"

lemma decimal_scales: "decimal_scale price_scale 4" "decimal_scale qty_scale 4"
  "decimal_scale money_scale 8"
  by (simp_all add: decimal_scale_def price_scale_def qty_scale_def money_scale_def)

lemma decimal_scaleD:
  assumes "decimal_scale scale d"
  shows "unat (bits scale) = 10 ^ d" and "length (format_int scale) - 1 = d"
  using assms
  by (simp_all add: decimal_scale_def unat_bits_nonneg format_int_nat i64_order nat_power_eq
      length_show_pow10)

lemma format_eq:
  assumes "decimal_scale scale d"
  shows "format v scale = (if v < 0 then ''-'' else []) @
    show_nat (unat (magnitude v) div 10 ^ d) @ CHR ''.'' #
    pad_zeros d (show_nat (unat (magnitude v) mod 10 ^ d))"
  using decimal_scaleD [OF assms]
  by (simp add: format_def show_dec_uint Let_def unat_div_distrib unat_mod_distrib magnitude_def)

lemma signed_magnitude:
  "(if v < 0 then (if magnitude v = bits max_i64 + 1 then min_i64 else - I64 (magnitude v))
    else I64 (magnitude v)) = v"
proof -
  note m = unat_magnitude [of v] and r = ival_range [of v]
  have max1: "unat (bits max_i64 + 1) = 9223372036854775808"
    by (simp add: unat_word_ariths unat_bits)
  consider "\<not> v < 0" | "v = min_i64" | "v < 0" "v \<noteq> min_i64" by blast
  then show ?thesis
  proof cases
    case 1
    then show ?thesis using m r ival_I64_small [of "magnitude v"]
      by (simp add: i64_order flip: ival_inject)
  next
    case 2
    then show ?thesis using m max1 by (simp add: i64_order word_unat_eq_iff)
  next
    case 3
    then have "min_int < ival v" using r ival_inject [of v min_i64] by fastforce
    then have small: "unat (magnitude v) \<le> 9223372036854775807" using 3 m by (simp add: i64_order)
    then have "ival (I64 (magnitude v)) = - ival v"
      using ival_I64_small [OF small] 3 m by (simp add: i64_order)
    then have "ival (- I64 (magnitude v)) = ival v"
      using ival_neg [of "I64 (magnitude v)"] by simp
    then show ?thesis using 3 small max1 by (auto simp: ival_inject)
  qed
qed

lemma limit_test:
  fixes M L S :: nat
  assumes "0 < S"
  shows "M div S > L div S \<or> (M div S = L div S \<and> M mod S > L mod S) \<longleftrightarrow> M > L"
proof -
  have M: "M = M div S * S + M mod S" and L: "L = L div S * S + L mod S" by simp_all
  have mS: "M mod S < S" and lS: "L mod S < S" using assms by simp_all
  have mono: "m < n \<Longrightarrow> m * S + S \<le> n * S" for m n :: nat
    by (metis Suc_leI mult_Suc mult_le_mono1 add.commute)
  consider "M div S < L div S" | "M div S = L div S" | "L div S < M div S" by linarith
  then show ?thesis
  proof cases
    case 1
    then have "M < L" using mono [OF 1] M L mS by linarith
    with 1 show ?thesis by simp
  next
    case 2
    then show ?thesis using M L by (metis add_less_cancel_left less_irrefl)
  next
    case 3
    then have "L < M" using mono [OF 3] M L lS by linarith
    with 3 show ?thesis by simp
  qed
qed

lemma parse_format:
  assumes scale: "decimal_scale scale d"
  shows "parse (format v scale) scale = Inr v"
proof -
  define M where "M = unat (magnitude v)"
  have M: "M = nat \<bar>ival v\<bar>" by (simp add: M_def unat_magnitude)
  define W F where "W = M div 10 ^ d" and "F = M mod 10 ^ d"
  have d: "0 < d" using scale by (simp add: decimal_scale_def)
  have F: "F < 10 ^ d" by (simp add: F_def)
  define body where "body = show_nat W @ CHR ''.'' # pad_zeros d (show_nat F)"
  have fmt: "format v scale = (if v < 0 then ''-'' else []) @ body"
    by (simp add: format_eq [OF scale] M_def W_def F_def body_def)
  have Flen: "length (pad_zeros d (show_nat F)) = d"
    using length_show_nat [OF F d] by (rule length_pad_zeros)
  have body: "body \<noteq> []" "is_digit (hd body)" "is_digit (last body)"
    using show_nat_digits [of W] show_nat_digits [of F, THEN pad_zeros_digits, of d] Flen d
    by (auto simp: body_def list_all_iff hd_append intro!: hd_in_set last_in_set)
  then have nosign: "hd body \<noteq> CHR ''-''" "hd body \<noteq> CHR ''+''"
    by (auto simp: is_digit_def)
  have trim: "trim_space (format v scale) = format v scale"
    using body by (intro trim_space_plain) (auto simp: fmt plain_def)
  have parts: "split_on (CHR ''.'') body = [show_nat W, pad_zeros d (show_nat F)]"
    unfolding body_def by (intro split_on_two show_nat_digits pad_zeros_digits)
  have M64: "M < 2 ^ 64" unfolding M_def by (rule order_less_le_trans [OF unsigned_less]) simp
  then have W64: "W < 2 ^ 64" unfolding W_def by (rule le_less_trans [OF div_le_dividend])
  have F64: "F < 2 ^ 64" unfolding F_def using M64 by (rule le_less_trans [OF mod_less_eq_dividend])
  have pW: "parse_uint (show_nat W) = Some (word_of_nat W)"
    using W64 by (simp add: parse_uint_digits show_nat_digits)
  have pF: "parse_uint (pad_zeros d (show_nat F)) = Some (word_of_nat F)"
    using F64 Flen d
    by (subst parse_uint_digits) (auto simp: show_nat_digits pad_zeros_digits)
  have uW: "unat (word_of_nat W :: u64) = W" and uF: "unat (word_of_nat F :: u64) = F"
    using W64 F64 by (simp_all add: unat_of_nat)
  let ?limit = "bits max_i64 + (if v < 0 then 1 else 0)"
  have limit: "unat ?limit = 9223372036854775807 + (if v < 0 then 1 else 0)"
    by (simp add: unat_word_ariths unat_bits)
  have ok: "\<not> (word_of_nat W > ?limit div bits scale \<or>
      (word_of_nat W = ?limit div bits scale \<and> word_of_nat F > ?limit mod bits scale))"
  proof -
    have "M \<le> unat ?limit" unfolding limit using M ival_range [of v] by (auto simp: i64_order)
    then have "\<not> (W > unat ?limit div 10 ^ d \<or> (W = unat ?limit div 10 ^ d \<and> F > unat ?limit mod 10 ^ d))"
      using limit_test [where M = M and L = "unat ?limit" and S = "10 ^ d"]
      unfolding W_def F_def by simp
    then show ?thesis
      unfolding word_less_nat_alt word_unat_eq_iff unat_div_distrib unat_mod_distrib uW uF
        decimal_scaleD(1) [OF scale] .
  qed
  have mag: "word_of_nat W * bits scale + word_of_nat F = magnitude v"
  proof (rule word_unat_eq_iff [THEN iffD2])
    have "unat (word_of_nat W * bits scale + word_of_nat F :: u64) = (W * 10 ^ d + F) mod 2 ^ 64"
      by (simp add: unat_word_ariths uW uF decimal_scaleD(1) [OF scale] mod_simps)
    also have "W * 10 ^ d + F = M" unfolding W_def F_def by (rule div_mult_mod_eq)
    finally show "unat (word_of_nat W * bits scale + word_of_nat F :: u64) = unat (magnitude v)"
      using M64 by (simp add: M_def)
  qed
  have read: "parse (format v scale) scale = (if v < 0
      then (if magnitude v = bits max_i64 + 1 then Inr min_i64 else Inr (- I64 (magnitude v)))
      else Inr (I64 (magnitude v)))"
    unfolding parse_def Let_def trim unfolding fmt
    using nosign body(1) Flen d ok
    by (cases "v < 0") (auto simp: parts pW pF decimal_scaleD(2) [OF scale, simplified] mag)
  show ?thesis unfolding read using signed_magnitude [of v] by (auto split: if_splits)
qed

end
