(* ===== verification/Rng.thy ===== *)
theory Rng
  imports Fixed
begin

text \<open>
  The random streams. \<open>split_mix\<close> is the engine's own generator (\<^verbatim>\<open>exchange.go\<close>); \<open>pcg\<close> is the
  generator of \<^verbatim>\<open>math/rand/v2\<close> that the legacy simulation uses, with the bounded draws \<^verbatim>\<open>IntN\<close>
  and \<^verbatim>\<open>Int64N\<close>. Both bounded draws reject and redraw in a loop; the loops are defined by general
  recursion, and their termination proofs show that a draw always returns: the split-mix state
  walks through all words, and the PCG state through all pairs of words (a full-period linear
  congruential generator), so a state whose output is accepted is always ahead.
\<close>

subsection \<open>SplitMix64\<close>

type_synonym split_mix = u64

definition golden :: u64 where "golden = 0x9e3779b97f4a7c15"

definition mix64 :: "u64 \<Rightarrow> u64" where
  "mix64 s =
     (let z = (s XOR drop_bit 30 s) * 0xbf58476d1ce4e5b9;
          z = (z XOR drop_bit 27 z) * 0x94d049bb133111eb
      in z XOR drop_bit 31 z)"

definition split_next :: "split_mix \<Rightarrow> u64 \<times> split_mix" where
  "split_next s = (let s' = s + golden in (mix64 s', s'))"

text \<open>The inverse of the increment, and the state that produces the greatest word.\<close>

definition golden_inv :: u64 where "golden_inv = 17428512612931826493"
definition top_state :: u64 where "top_state = 14959274266131672512"

lemma golden_inv: "golden * golden_inv = 1"
  by (simp add: golden_def golden_inv_def)

lemma mix64_top: "mix64 top_state = - 1"
  by code_simp

definition steps_left :: "split_mix \<Rightarrow> nat" where
  "steps_left s = unat ((top_state - s) * golden_inv - 1)"

lemma steps_left_less:
  assumes "s + golden \<noteq> top_state"
  shows "steps_left (s + golden) < steps_left s"
proof -
  let ?d = "(top_state - s) * golden_inv - 1"
  have eq: "(top_state - (s + golden)) * golden_inv - 1 = ?d - 1"
    using golden_inv by (simp add: algebra_simps)
  have "?d \<noteq> 0"
  proof
    assume "?d = 0"
    then have "(top_state - s) * golden_inv = 1" by simp
    then have "(top_state - s) * (golden_inv * golden) = golden" by (simp add: mult.assoc [symmetric])
    then have "top_state - s = golden" using golden_inv by (simp add: mult.commute)
    then show False using assms by (simp add: algebra_simps)
  qed
  then show ?thesis unfolding steps_left_def eq by (rule measure_unat)
qed

function bounded_loop :: "u64 \<Rightarrow> u64 \<Rightarrow> split_mix \<Rightarrow> u64 \<times> split_mix" where
  "bounded_loop bound threshold s =
     (let (v, s') = split_next s
      in if v \<ge> threshold then (v mod bound, s') else bounded_loop bound threshold s')"
  by pat_completeness auto
termination
proof (relation "measure (\<lambda>(b, t, s). steps_left s)", goal_cases)
  case (2 bound threshold s p v s')
  have "s' \<noteq> top_state"
  proof
    assume "s' = top_state"
    then have "v = - 1" using 2 by (auto simp: split_next_def Let_def mix64_top)
    then show False using 2 by simp
  qed
  then show ?case using 2 steps_left_less [of s] by (auto simp: split_next_def Let_def)
qed simp

declare bounded_loop.simps [simp del]

text \<open>\<^verbatim>\<open>-bound % bound\<close> panics when the bound is zero.\<close>

definition bounded :: "split_mix \<Rightarrow> u64 \<Rightarrow> (u64 \<times> split_mix) res" where
  "bounded s bound =
     (if bound = 0 then panics ''integer divide by zero''
      else Inr (bounded_loop bound ((- bound) mod bound) s))"

lemma bounded_loop_range: "bound \<noteq> 0 \<Longrightarrow> fst (bounded_loop bound t s) < bound"
proof (induction bound t s rule: bounded_loop.induct)
  case (1 bound t s)
  obtain v s' where d: "split_next s = (v, s')" by fastforce
  show ?case
  proof (cases "v \<ge> t")
    case True
    then show ?thesis
      using d "1.prems" by (subst bounded_loop.simps)
        (simp add: word_mod_less_divisor word_greater_zero_iff)
  next
    case False
    then show ?thesis
      using d "1.IH" [OF d [symmetric] refl] "1.prems" by (subst bounded_loop.simps) simp
  qed
qed

lemma bounded_range:
  assumes "bound \<noteq> 0"
  shows "\<exists>v s'. bounded s bound = Inr (v, s') \<and> v < bound"
proof (cases "bounded_loop bound ((- bound) mod bound) s")
  case (Pair v s')
  then show ?thesis
    using assms bounded_loop_range [OF assms, of "(- bound) mod bound" s] by (simp add: bounded_def)
qed

subsection \<open>PCG\<close>

text \<open>The 128-bit state \<open>(hi, lo)\<close> of \<^verbatim>\<open>rand.PCG\<close>, its step and its output function.\<close>

type_synonym pcg = "u64 \<times> u64"

definition mul_hi :: u64 where "mul_hi = 2549297995355413924"
definition mul_lo :: u64 where "mul_lo = 4865540595714422341"
definition inc_hi :: u64 where "inc_hi = 6364136223846793005"
definition inc_lo :: u64 where "inc_lo = 1442695040888963407"

definition pcg_step :: "pcg \<Rightarrow> pcg" where
  "pcg_step s = (case s of (hi, lo) \<Rightarrow>
     let (h, l) = mul64 lo mul_lo;
         h = h + (hi * mul_lo + lo * mul_hi);
         l' = l + inc_lo;
         carry = (if l' < l then 1 else 0)
     in (h + inc_hi + carry, l'))"

definition pcg_output :: "pcg \<Rightarrow> u64" where
  "pcg_output s = (case s of (hi, lo) \<Rightarrow>
     let h = hi XOR drop_bit 32 hi;
         h = h * 0xda942042e4dd58b5;
         h = h XOR drop_bit 48 h
     in h * (lo OR 1))"

definition pcg_uint64 :: "pcg \<Rightarrow> u64 \<times> pcg" where
  "pcg_uint64 s = (let s' = pcg_step s in (pcg_output s', s'))"

definition pcg_val :: "pcg \<Rightarrow> int" where
  "pcg_val s = (case s of (hi, lo) \<Rightarrow> uint hi * 2 ^ 64 + uint lo)"

definition lcg :: "int \<Rightarrow> int" where
  "lcg x = (uint mul_hi * 2 ^ 64 + uint mul_lo) * x + (uint inc_hi * 2 ^ 64 + uint inc_lo)"

lemma pcg_val_parts: "pcg_val (hi, lo) div 2 ^ 64 = uint hi" "pcg_val (hi, lo) mod 2 ^ 64 = uint lo"
proof -
  have "0 \<le> uint lo" "uint lo < 2 ^ 64" using uint_bounded [of lo] by simp_all
  then show "pcg_val (hi, lo) div 2 ^ 64 = uint hi" "pcg_val (hi, lo) mod 2 ^ 64 = uint lo"
    by (simp_all add: pcg_val_def)
qed

lemma pcg_val_inject: "pcg_val s = pcg_val t \<Longrightarrow> s = t"
  using pcg_val_parts by (cases s, cases t) (metis word_uint_eq_iff)

lemma pcg_val_range: "0 \<le> pcg_val s" "pcg_val s < 2 ^ 128"
proof -
  obtain a b where s: "s = (a, b)" by (cases s)
  have "uint a < 2 ^ 64" "uint b < 2 ^ 64" "0 \<le> uint a" "0 \<le> uint b"
    using uint_bounded [of a] uint_bounded [of b] by simp_all
  then show "0 \<le> pcg_val s" "pcg_val s < 2 ^ 128" using s by (simp_all add: pcg_val_def)
qed

text \<open>Iterating the generator \<open>2 ^ k\<close> times adds an odd multiple of \<open>2 ^ k\<close>.\<close>

lemma lcg_power:
  "\<exists>a b. \<forall>x. (lcg ^^ (2 ^ k)) x = (1 + 2 ^ (k + 2) * a) * x + 2 ^ k * (1 + 2 * b)"
proof (induction k)
  case 0
  have "lcg x = (1 + 4 * 11756561921985530462036051872959380881) * x +
      (1 + 2 * 58698796085763056634279467059502104743)" for x
    by (simp add: lcg_def mul_hi_def mul_lo_def inc_hi_def inc_lo_def)
  then show ?case
    by (intro exI [of _ 11756561921985530462036051872959380881]
        exI [of _ 58698796085763056634279467059502104743]) simp
next
  case (Suc k)
  then obtain a b where IH: "\<And>x. (lcg ^^ (2 ^ k)) x = (1 + 2 ^ (k + 2) * a) * x + 2 ^ k * (1 + 2 * b)"
    by blast
  let ?a = "a + 2 ^ (k + 1) * a * a" and ?b = "b + 2 ^ k * a * (1 + 2 * b)"
  have "(lcg ^^ (2 ^ Suc k)) x = (1 + 2 ^ (Suc k + 2) * ?a) * x + 2 ^ Suc k * (1 + 2 * ?b)" for x
  proof -
    have "(lcg ^^ (2 ^ Suc k)) x = (lcg ^^ (2 ^ k)) ((lcg ^^ (2 ^ k)) x)"
      by (simp add: funpow_add mult_2)
    also have "\<dots> = (1 + 2 ^ (Suc k + 2) * ?a) * x + 2 ^ Suc k * (1 + 2 * ?b)"
      by (simp add: IH algebra_simps power_add power2_eq_square)
    finally show ?thesis .
  qed
  then show ?case by blast
qed

text \<open>So modulo any power of two every value is reached from every other one.\<close>

lemma lcg_reaches: "\<exists>n. (lcg ^^ n) x mod 2 ^ k = y mod 2 ^ k"
proof (induction k)
  case (Suc k)
  then obtain n where n: "(lcg ^^ n) x mod 2 ^ k = y mod 2 ^ k" by blast
  let ?z = "(lcg ^^ n) x"
  from n obtain d where d: "?z - y = 2 ^ k * d" by (metis dvd_def mod_eq_dvd_iff)
  show ?case
  proof (cases "even d")
    case True
    then have "?z mod 2 ^ Suc k = y mod 2 ^ Suc k"
      using d by (simp add: mod_eq_dvd_iff mult.commute)
    then show ?thesis by blast
  next
    case False
    obtain a b where ab: "\<And>x. (lcg ^^ (2 ^ k)) x = (1 + 2 ^ (k + 2) * a) * x + 2 ^ k * (1 + 2 * b)"
      using lcg_power by blast
    obtain d' where d': "d = 2 * d' + 1" using False by (rule oddE)
    have "(lcg ^^ (2 ^ k + n)) x = (1 + 2 ^ (k + 2) * a) * ?z + 2 ^ k * (1 + 2 * b)"
      by (simp only: funpow_add o_apply ab)
    then have "(lcg ^^ (2 ^ k + n)) x - y = (?z - y) + 2 ^ (k + 2) * a * ?z + 2 ^ k * (1 + 2 * b)"
      by (simp add: distrib_right)
    also have "\<dots> = 2 ^ Suc k * (d' + 1 + b + 2 * a * ?z)"
      unfolding d d' by (simp add: algebra_simps)
    finally have "(lcg ^^ (2 ^ k + n)) x - y = 2 ^ Suc k * (d' + 1 + b + 2 * a * ?z)" .
    then have "(lcg ^^ (2 ^ k + n)) x mod 2 ^ Suc k = y mod 2 ^ Suc k"
      unfolding mod_eq_dvd_iff by (metis dvd_triv_left)
    then show ?thesis by blast
  qed
qed simp

lemma uint_mul64:
  "uint (fst (mul64 x y)) * 2 ^ 64 + uint (snd (mul64 x y)) = uint x * uint y"
proof -
  have "unat x * unat y < 2 ^ 64 * 2 ^ 64"
    using unsigned_less [of x, where 'a = nat] unsigned_less [of y, where 'a = nat] by (intro mult_strict_mono) simp_all
  then have "unat x * unat y div 2 ^ 64 < 2 ^ 64" by (simp add: less_mult_imp_div_less)
  then have "unat (fst (mul64 x y)) * 2 ^ 64 + unat (snd (mul64 x y)) = unat x * unat y"
    by (simp add: mul64_nat Let_def unsigned_of_nat take_bit_eq_mod unat_word_ariths)
  then show ?thesis
    by (metis (mono_tags) of_nat_add of_nat_mult of_nat_numeral of_nat_power uint_nat)
qed

lemma uint_word_mod: "uint (w :: u64) mod 2 ^ 64 = uint w"
  using uint_bounded [of w] by simp

lemma uint_add_carry:
  fixes l i :: u64
  shows "uint (l + i) = uint l + uint i - (if l + i < l then 2 ^ 64 else 0)"
proof -
  have "0 \<le> uint l" "uint l < 2 ^ 64" "0 \<le> uint i" "uint i < 2 ^ 64"
    using uint_bounded [of l] uint_bounded [of i] by simp_all
  then show ?thesis
    using uint_plus_if' [of l i] by (auto simp: word_less_def split: if_splits)
qed

lemma pcg_step_val: "pcg_val (pcg_step s) = lcg (pcg_val s) mod 2 ^ 128"
proof -
  obtain hi lo where s: "s = (hi, lo)" by (cases s)
  obtain h l where m: "mul64 lo mul_lo = (h, l)" by (cases "mul64 lo mul_lo")
  define l' where "l' = l + inc_lo"
  define h1 where "h1 = h + (hi * mul_lo + lo * mul_hi)"
  define c :: u64 where "c = (if l' < l then 1 else 0)"
  define v where "v = uint h + uint hi * uint mul_lo + uint lo * uint mul_hi + uint inc_hi + uint c"
  have step: "pcg_step s = (h1 + inc_hi + c, l')"
    by (simp add: s pcg_step_def m Let_def l'_def h1_def c_def)
  have hl: "uint h * 2 ^ 64 + uint l = uint lo * uint mul_lo"
    using uint_mul64 [of lo mul_lo] m by simp
  have low: "uint l' = uint l + uint inc_lo - uint c * 2 ^ 64"
    using uint_add_carry [of l inc_lo] by (simp add: l'_def c_def)
  have high: "uint (h1 + inc_hi + c) = v mod 2 ^ 64"
    unfolding h1_def v_def by (simp add: uint_word_ariths take_bit_eq_mod mod_simps ac_simps)
  have "lcg (pcg_val s) = (v * 2 ^ 64 + uint l') + 2 ^ 128 * (uint hi * uint mul_hi)"
    using hl low by (simp add: lcg_def pcg_val_def s v_def algebra_simps)
  then have "lcg (pcg_val s) mod 2 ^ 128 = (v * 2 ^ 64 + uint l') mod 2 ^ 128" by simp
  also have "\<dots> = (v mod 2 ^ 64) * 2 ^ 64 + uint l'"
  proof -
    define d m where "d = v div 2 ^ 64" and "m = v mod 2 ^ 64"
    have "v = d * 2 ^ 64 + m" by (simp add: d_def m_def)
    then have "v * 2 ^ 64 + uint l' = d * 2 ^ 128 + ((v mod 2 ^ 64) * 2 ^ 64 + uint l')"
      unfolding m_def [symmetric] by simp
    moreover have "0 \<le> (v mod 2 ^ 64) * 2 ^ 64 + uint l'"
      "(v mod 2 ^ 64) * 2 ^ 64 + uint l' < 2 ^ 128"
      using pcg_val_range [of "(h1 + inc_hi + c, l')"] by (simp_all add: pcg_val_def high)
    ultimately show ?thesis by (simp only: mod_mult_self3 mod_pos_pos_trivial)
  qed
  finally show ?thesis by (simp add: step pcg_val_def high)
qed

lemma pcg_iterate_val: "pcg_val ((pcg_step ^^ n) s) = (lcg ^^ n) (pcg_val s) mod 2 ^ 128"
proof (induction n)
  case 0
  show ?case using pcg_val_range [of s] by simp
next
  case (Suc n)
  have "lcg (x mod 2 ^ 128) mod 2 ^ 128 = lcg x mod 2 ^ 128" for x
    unfolding lcg_def by (metis mod_add_left_eq mod_mult_right_eq)
  then show ?case using Suc by (simp add: pcg_step_val)
qed

lemma pcg_full_period: "\<exists>n. (pcg_step ^^ n) s = t"
proof -
  obtain n where n: "(lcg ^^ n) (pcg_val s) mod 2 ^ 128 = pcg_val t mod 2 ^ 128"
    using lcg_reaches by blast
  then have "pcg_val ((pcg_step ^^ n) s) = pcg_val t"
    using pcg_val_range [of t] by (simp add: pcg_iterate_val)
  then show ?thesis using pcg_val_inject by blast
qed

subsection \<open>Bounded draws of \<open>rand.Rand\<close>\<close>

definition top_pcg :: pcg where "top_pcg = (8285685522624391957, 0)"

lemma pcg_output_top: "pcg_output top_pcg = - 1"
  by code_simp

definition draws_left :: "pcg \<Rightarrow> nat" where
  "draws_left s = (LEAST n. (pcg_step ^^ Suc n) s = top_pcg)"

lemma draws_left:
  "(pcg_step ^^ Suc (draws_left s)) s = top_pcg"
proof -
  obtain n where "(pcg_step ^^ n) (pcg_step s) = top_pcg" using pcg_full_period by blast
  then have "(pcg_step ^^ Suc n) s = top_pcg" by (simp add: funpow_swap1)
  then show ?thesis unfolding draws_left_def by (rule LeastI)
qed

lemma draws_left_less:
  assumes "pcg_step s \<noteq> top_pcg"
  shows "draws_left (pcg_step s) < draws_left s"
proof (cases "draws_left s")
  case 0
  then show ?thesis using draws_left [of s] assms by simp
next
  case (Suc n)
  then have "(pcg_step ^^ Suc n) (pcg_step s) = top_pcg"
    using draws_left [of s] by (simp add: funpow_swap1)
  then have "draws_left (pcg_step s) \<le> n" unfolding draws_left_def by (rule Least_le)
  then show ?thesis using Suc by simp
qed

text \<open>The greatest output is accepted for every bound.\<close>

lemma top_accepted: "snd (mul64 (- 1) n) \<ge> (- n) mod n" for n :: u64
proof -
  have "snd (mul64 (- 1) n) = of_nat (unat (- 1 :: u64)) * of_nat (unat n)"
    by (simp add: mul64_nat Let_def)
  also have "\<dots> = - n" by simp
  finally show ?thesis by (simp add: word_le_nat_alt unat_mod_distrib)
qed

function redraw :: "u64 \<Rightarrow> u64 \<Rightarrow> u64 \<Rightarrow> pcg \<Rightarrow> u64 \<times> pcg" where
  "redraw n hi lo s =
     (if lo < (- n) mod n
      then let (u, s') = pcg_uint64 s; (hi', lo') = mul64 u n in redraw n hi' lo' s'
      else (hi, s))"
  by pat_completeness auto
termination
proof (relation "measure (\<lambda>(n, hi, lo, s). if lo < (- n) mod n then Suc (draws_left s) else 0)", goal_cases)
  case (2 n hi lo s p u s' q hi' lo')
  have s': "s' = pcg_step s" and u: "u = pcg_output s'" using 2 by (auto simp: pcg_uint64_def Let_def)
  show ?case
  proof (cases "lo' < (- n) mod n")
    case True
    have "s' \<noteq> top_pcg"
    proof
      assume "s' = top_pcg"
      then have "lo' = snd (mul64 (- 1) n)" using 2 u pcg_output_top by (metis snd_conv)
      then show False using True top_accepted [of n] by simp
    qed
    then show ?thesis using 2 True draws_left_less [of s] s' by simp
  next
    case False
    then show ?thesis using 2 by simp
  qed
qed simp

declare redraw.simps [simp del]

text \<open>\<^verbatim>\<open>uint64n\<close> of \<^verbatim>\<open>math/rand/v2\<close> on a 64-bit platform, and the two draws the engine uses.\<close>

definition uint64n :: "pcg \<Rightarrow> u64 \<Rightarrow> u64 \<times> pcg" where
  "uint64n s n =
     (let (u, s') = pcg_uint64 s in
      if n AND (n - 1) = 0 then (u AND (n - 1), s')
      else let (hi, lo) = mul64 u n in if lo < n then redraw n hi lo s' else (hi, s'))"

definition int64n :: "pcg \<Rightarrow> i64 \<Rightarrow> (i64 \<times> pcg) res" where
  "int64n s n =
     (if n \<le> 0 then panics ''invalid argument to Int64N''
      else let (v, s') = uint64n s (bits n) in Inr (I64 v, s'))"

definition int_n :: "pcg \<Rightarrow> i64 \<Rightarrow> (i64 \<times> pcg) res" where
  "int_n s n =
     (if n \<le> 0 then panics ''invalid argument to IntN''
      else let (v, s') = uint64n s (bits n) in Inr (I64 v, s'))"

end
