(* ===== verification/Arith_Properties.thy ===== *)
theory Arith_Properties
  imports Decimal Rng
begin

text \<open>
  The properties of the fixed-point package and of the random draws.
\<close>

text \<open>C34. Every checked operation on prices, quantities and money computes the exact integer result
  when it fits 64 bits and reports an error, never a wrapped value, when it does not.\<close>

theorem checked_arithmetic_exact:
  "exactly (notional p q) (ival p * ival q) \<and>
   exactly (add_money a b) (ival a + ival b) \<and> exactly (sub_money a b) (ival a - ival b) \<and>
   exactly (add_qty a b) (ival a + ival b) \<and> exactly (sub_qty a b) (ival a - ival b) \<and>
   exactly (neg_money a) (- ival a) \<and> exactly (neg_qty a) (- ival a) \<and>
   exactly (abs_qty_checked a) \<bar>ival a\<bar>"
  by (simp add: notional_exact add_money_exact sub_money_exact add_qty_exact sub_qty_exact neg_exact
      abs_qty_exact)

text \<open>C35. Scaling by a ratio goes through a 128-bit product: it is the exact quotient truncated
  towards zero, with no intermediate overflow, and fails exactly on a bad ratio or a result
  outside 64 bits.\<close>

theorem scale_is_exact:
  "(case scale_money a num den of
      Inr v \<Rightarrow> 0 < ival den \<and> 0 \<le> ival num \<and> ival v = (ival a * ival num) sdiv ival den
    | Inl _ \<Rightarrow> \<not> (0 < ival den \<and> 0 \<le> ival num \<and> fits ((ival a * ival num) sdiv ival den))) \<and>
   (case scale_price p num den of
      Inr v \<Rightarrow> 0 < ival den \<and> 0 \<le> ival num \<and> ival v = (ival p * ival num) sdiv ival den
    | Inl _ \<Rightarrow> \<not> (0 < ival den \<and> 0 \<le> ival num \<and> fits ((ival p * ival num) sdiv ival den)))"
  by (auto simp: scale_money_eq scale_price_eq i64_order fails_def ival_i64_of)

text \<open>C36. Text is faithful: every price, quantity and amount, the least 64-bit value included, is
  read back unchanged from its own decimal text.\<close>

theorem decimal_round_trip:
  "parse_price (show_price v) = Inr v \<and> parse_qty (show_qty v) = Inr v \<and>
   parse_money (show_money v) = Inr v"
  using decimal_scales
  by (auto simp: parse_price_def parse_qty_def parse_money_def show_price_def show_qty_def
      show_money_def intro!: parse_format)

text \<open>C37. A bounded draw of the engine's generator always returns, after finitely many rejections,
  and returns a value below its bound.\<close>

theorem bounded_draw_returns:
  "case bounded s bound of
     Inl e \<Rightarrow> bound = 0 \<and> is_panic e
   | Inr (v, s') \<Rightarrow> v < bound"
  using bounded_range [of bound s] by (cases "bound = 0") (auto simp: bounded_def panics_def)

end
