(* ===== verification/Ledger.thy ===== *)
theory Ledger
  imports Fixed
begin

text \<open>
  The double-entry journal of \<^verbatim>\<open>internal/exchange/ledger.go\<close>. \<open>ledger_append\<close> validates a batch
  of entries against a copy of the balances and commits the batch and the balances together.
\<close>

type_synonym ledger_account = string

record posting =
  ps_account :: ledger_account
  ps_money :: money
  ps_instrument :: qty

record ledger_ref =
  lr_order :: u64
  lr_trade :: u64
  lr_maker :: u64
  lr_taker :: u64

record ledger_entry =
  le_id :: u64
  le_type :: string
  le_ref :: ledger_ref
  le_postings :: "posting list"

record ledger =
  lg_next :: u64
  lg_entries :: "ledger_entry list"
  lg_balances :: "(ledger_account, posting) fmap"

definition no_ref :: ledger_ref where
  "no_ref = \<lparr>lr_order = 0, lr_trade = 0, lr_maker = 0, lr_taker = 0\<rparr>"

definition new_ledger :: ledger where
  "new_ledger = \<lparr>lg_next = 0, lg_entries = [], lg_balances = fmempty\<rparr>"

definition zero_posting :: posting where
  "zero_posting = \<lparr>ps_account = '''', ps_money = 0, ps_instrument = 0\<rparr>"

definition balance_in :: "(ledger_account, posting) fmap \<Rightarrow> ledger_account \<Rightarrow> posting" where
  "balance_in m a = (case fmlookup m a of None \<Rightarrow> zero_posting | Some p \<Rightarrow> p)"

text \<open>The body of the inner loop: the running sums of the entry and the balances.\<close>

definition post_one ::
  "money \<times> qty \<times> (ledger_account, posting) fmap \<Rightarrow> posting \<Rightarrow>
   (money \<times> qty \<times> (ledger_account, posting) fmap) res" where
  "post_one s p = (case s of (m, q, balances) \<Rightarrow>
     guardE (ps_account p = '''') ''ledger posting account is required''
     (bindE (add_money m (ps_money p)) (\<lambda>m'.
      bindE (add_qty q (ps_instrument p)) (\<lambda>q'.
      let balance = (balance_in balances (ps_account p))\<lparr>ps_account := ps_account p\<rparr> in
      bindE (add_money (ps_money balance) (ps_money p)) (\<lambda>bm.
      bindE (add_qty (ps_instrument balance) (ps_instrument p)) (\<lambda>bq.
      Inr (m', q', fmupd (ps_account p) (balance\<lparr>ps_money := bm, ps_instrument := bq\<rparr>) balances)))))))"

definition post_entry ::
  "(ledger_account, posting) fmap \<Rightarrow> ledger_entry \<Rightarrow> (ledger_account, posting) fmap res" where
  "post_entry balances en =
     guardE (le_type en = '''' \<or> length (le_postings en) < 2) ''invalid ledger entry''
     (bindE (foldE post_one (0, 0, balances) (le_postings en)) (\<lambda>(m, q, balances').
      guardE (m \<noteq> 0 \<or> q \<noteq> 0) ''unbalanced ledger entry'' (Inr balances')))"

text \<open>Numbering the committed entries.\<close>

fun number_entries :: "u64 \<Rightarrow> ledger_entry list \<Rightarrow> u64 \<times> ledger_entry list" where
  "number_entries n [] = (n, [])"
| "number_entries n (en # es) =
     (let (n', es') = number_entries (n + 1) es in (n', en\<lparr>le_id := n + 1\<rparr> # es'))"

definition ledger_append :: "ledger \<Rightarrow> ledger_entry list \<Rightarrow> ledger res" where
  "ledger_append l es =
     bindE (foldE post_entry (lg_balances l) es) (\<lambda>balances.
       let (n, es') = number_entries (lg_next l) es
       in Inr \<lparr>lg_next = n, lg_entries = lg_entries l @ es', lg_balances = balances\<rparr>)"

text \<open>Entries are immutable values here, so the copies of \<^verbatim>\<open>entriesCopy\<close> and \<^verbatim>\<open>clone\<close> are the
  values themselves.\<close>

definition entries_copy :: "ledger \<Rightarrow> ledger_entry list" where
  "entries_copy l = map (\<lambda>en. en\<lparr>le_postings := [] @ le_postings en\<rparr>) (lg_entries l)"

definition ledger_balance :: "ledger \<Rightarrow> ledger_account \<Rightarrow> posting" where
  "ledger_balance l a = balance_in (lg_balances l) a"

definition clone_ledger :: "ledger \<Rightarrow> ledger" where
  "clone_ledger l = \<lparr>lg_next = lg_next l, lg_entries = entries_copy l,
     lg_balances = fmap_of_list (sorted_list_of_fmap (lg_balances l))\<rparr>"

definition cash_available :: "string \<Rightarrow> ledger_account" where
  "cash_available i = ''cash/available/'' @ i"
definition cash_reserved :: "string \<Rightarrow> ledger_account" where
  "cash_reserved i = ''cash/reserved/'' @ i"
definition instrument_available :: "string \<Rightarrow> ledger_account" where
  "instrument_available i = ''instrument/available/'' @ i"
definition instrument_reserved :: "string \<Rightarrow> ledger_account" where
  "instrument_reserved i = ''instrument/reserved/'' @ i"
definition opening_cash_account :: "string \<Rightarrow> ledger_account" where
  "opening_cash_account i = ''cash/external/opening/'' @ i"
definition opening_instrument_account :: "string \<Rightarrow> ledger_account" where
  "opening_instrument_account i = ''instrument/external/opening/'' @ i"
definition storage_account :: ledger_account where
  "storage_account = ''cash/venue/storage''"

lemmas ledger_account_defs = cash_available_def cash_reserved_def instrument_available_def
  instrument_reserved_def opening_cash_account_def opening_instrument_account_def storage_account_def

text \<open>The account names of distinct kinds or distinct owners are distinct.\<close>

lemma ledger_account_inject [simp]:
  "cash_available i = cash_available j \<longleftrightarrow> i = j"
  "cash_reserved i = cash_reserved j \<longleftrightarrow> i = j"
  "instrument_available i = instrument_available j \<longleftrightarrow> i = j"
  "instrument_reserved i = instrument_reserved j \<longleftrightarrow> i = j"
  by (simp_all add: ledger_account_defs)

lemma ledger_account_distinct [simp]:
  "cash_available i \<noteq> cash_reserved j" "cash_reserved j \<noteq> cash_available i"
  "cash_available i \<noteq> instrument_available j" "instrument_available j \<noteq> cash_available i"
  "cash_available i \<noteq> instrument_reserved j" "instrument_reserved j \<noteq> cash_available i"
  "cash_reserved i \<noteq> instrument_available j" "instrument_available j \<noteq> cash_reserved i"
  "cash_reserved i \<noteq> instrument_reserved j" "instrument_reserved j \<noteq> cash_reserved i"
  "instrument_available i \<noteq> instrument_reserved j" "instrument_reserved j \<noteq> instrument_available i"
  "cash_available i \<noteq> storage_account" "storage_account \<noteq> cash_available i"
  "cash_reserved i \<noteq> storage_account" "storage_account \<noteq> cash_reserved i"
  "instrument_available i \<noteq> storage_account" "storage_account \<noteq> instrument_available i"
  "instrument_reserved i \<noteq> storage_account" "storage_account \<noteq> instrument_reserved i"
  "opening_cash_account j \<noteq> cash_available i" "cash_available i \<noteq> opening_cash_account j"
  "opening_cash_account j \<noteq> cash_reserved i" "cash_reserved i \<noteq> opening_cash_account j"
  "opening_cash_account j \<noteq> instrument_available i" "instrument_available i \<noteq> opening_cash_account j"
  "opening_cash_account j \<noteq> instrument_reserved i" "instrument_reserved i \<noteq> opening_cash_account j"
  "opening_instrument_account j \<noteq> cash_available i" "cash_available i \<noteq> opening_instrument_account j"
  "opening_instrument_account j \<noteq> cash_reserved i" "cash_reserved i \<noteq> opening_instrument_account j"
  "opening_instrument_account j \<noteq> instrument_available i" "instrument_available i \<noteq> opening_instrument_account j"
  "opening_instrument_account j \<noteq> instrument_reserved i" "instrument_reserved i \<noteq> opening_instrument_account j"
  by (simp_all add: ledger_account_defs)

lemma ledger_account_nonempty [simp]:
  "cash_available i \<noteq> ''''" "cash_reserved i \<noteq> ''''" "instrument_available i \<noteq> ''''"
  "instrument_reserved i \<noteq> ''''" "opening_cash_account i \<noteq> ''''"
  "opening_instrument_account i \<noteq> ''''" "storage_account \<noteq> ''''"
  by (simp_all add: ledger_account_defs)

subsection \<open>What posting does to the balances\<close>

definition posted :: "(posting \<Rightarrow> i64) \<Rightarrow> posting list \<Rightarrow> ledger_account \<Rightarrow> i64" where
  "posted f ps a = sum_list (map f (filter (\<lambda>p. ps_account p = a) ps))"

definition posted_int :: "(posting \<Rightarrow> i64) \<Rightarrow> posting list \<Rightarrow> ledger_account \<Rightarrow> int" where
  "posted_int f ps a = sum_list (map (\<lambda>p. ival (f p)) (filter (\<lambda>p. ps_account p = a) ps))"

definition total :: "(posting \<Rightarrow> i64) \<Rightarrow> (ledger_account, posting) fmap \<Rightarrow> int" where
  "total f m = (\<Sum>a \<in> fset (fmdom m). ival (f (balance_in m a)))"

lemma posted_Cons [simp]:
  "posted f [] a = 0"
  "posted f (p # ps) a = (if ps_account p = a then f p else 0) + posted f ps a"
  "posted_int f [] a = 0"
  "posted_int f (p # ps) a = (if ps_account p = a then ival (f p) else 0) + posted_int f ps a"
  by (simp_all add: posted_def posted_int_def)

lemma posted_append [simp]:
  "posted f (ps @ qs) a = posted f ps a + posted f qs a"
  "posted_int f (ps @ qs) a = posted_int f ps a + posted_int f qs a"
  by (simp_all add: posted_def posted_int_def)

lemma i64_of_add: "i64_of (m + n) = i64_of m + i64_of n"
  by (simp add: i64_of_def plus_i64_def)

lemma i64_of_0 [simp]: "i64_of 0 = 0"
  by (simp add: i64_of_def zero_i64_def)

lemma posted_eq: "posted f ps a = i64_of (posted_int f ps a)"
  by (induction ps) (simp_all add: i64_of_add)

lemma ring_of_int: "ival x = ival y + n \<Longrightarrow> x = y + i64_of n"
  by (metis i64_of_add i64_of_ival)

lemma balance_in_upd [simp]: "balance_in (fmupd k x m) a = (if a = k then x else balance_in m a)"
  by (simp add: balance_in_def)

lemma zero_posting_sel [simp]: "ps_money zero_posting = 0" "ps_instrument zero_posting = 0"
  by (simp_all add: zero_posting_def)

lemma balance_in_missing: "a |\<notin>| fmdom m \<Longrightarrow> balance_in m a = zero_posting"
  by (simp add: balance_in_def fmdom_notD)

lemma total_upd:
  assumes "f zero_posting = 0"
  shows "total f (fmupd k x m) = total f m - ival (f (balance_in m k)) + ival (f x)"
proof -
  let ?D = "fset (fmdom m)"
  have "total f (fmupd k x m) = ival (f x) + (\<Sum>a \<in> ?D - {k}. ival (f (balance_in m a)))"
    unfolding total_def by (simp add: sum.insert_remove)
  moreover have "total f m = ival (f (balance_in m k)) + (\<Sum>a \<in> ?D - {k}. ival (f (balance_in m a)))"
  proof (cases "k \<in> ?D")
    case True
    then show ?thesis unfolding total_def by (simp add: sum.remove)
  next
    case False
    then show ?thesis using assms by (simp add: total_def balance_in_missing)
  qed
  ultimately show ?thesis by simp
qed

lemma checked_exact_add:
  "add_money a b = Inr c \<Longrightarrow> ival c = ival a + ival b"
  "add_qty a b' = Inr c' \<Longrightarrow> ival c' = ival a + ival b'"
  using exactly_InrD [OF add_money_exact] exactly_InrD [OF add_qty_exact] by auto

lemma post_one_Inr:
  assumes "post_one (m, q, b) p = Inr (m', q', b')"
  shows "ival m' = ival m + ival (ps_money p)" "ival q' = ival q + ival (ps_instrument p)"
    "ps_account p \<noteq> ''''"
    "ival (ps_money (balance_in b' a)) = ival (ps_money (balance_in b a)) + posted_int ps_money [p] a"
    "ival (ps_instrument (balance_in b' a)) =
       ival (ps_instrument (balance_in b a)) + posted_int ps_instrument [p] a"
    "total ps_money b' = total ps_money b + ival (ps_money p)"
    "total ps_instrument b' = total ps_instrument b + ival (ps_instrument p)"
  using assms
  by (auto simp: post_one_def Let_def total_upd dest: checked_exact_add split: if_splits)

text \<open>The whole inner loop.\<close>

lemma post_all_Inr:
  assumes "foldE post_one (m, q, b) ps = Inr (m', q', b')"
  shows "ival m' = ival m + sum_list (map (\<lambda>p. ival (ps_money p)) ps) \<and>
    ival q' = ival q + sum_list (map (\<lambda>p. ival (ps_instrument p)) ps) \<and>
    (\<forall>p \<in> set ps. ps_account p \<noteq> '''') \<and>
    ival (ps_money (balance_in b' a)) = ival (ps_money (balance_in b a)) + posted_int ps_money ps a \<and>
    ival (ps_instrument (balance_in b' a)) =
      ival (ps_instrument (balance_in b a)) + posted_int ps_instrument ps a \<and>
    total ps_money b' = total ps_money b + sum_list (map (\<lambda>p. ival (ps_money p)) ps) \<and>
    total ps_instrument b' = total ps_instrument b + sum_list (map (\<lambda>p. ival (ps_instrument p)) ps)"
  using assms
proof (induction ps arbitrary: m q b)
  case (Cons p ps)
  then obtain m1 q1 b1 where one: "post_one (m, q, b) p = Inr (m1, q1, b1)"
    and rest: "foldE post_one (m1, q1, b1) ps = Inr (m', q', b')"
    by auto
  show ?case using Cons.IH [OF rest] post_one_Inr [OF one] by simp
qed simp

definition entry_ok :: "ledger_entry \<Rightarrow> bool" where
  "entry_ok en \<longleftrightarrow> le_type en \<noteq> '''' \<and> 2 \<le> length (le_postings en) \<and>
     list_all (\<lambda>p. ps_account p \<noteq> '''') (le_postings en) \<and>
     sum_list (map (\<lambda>p. ival (ps_money p)) (le_postings en)) = 0 \<and>
     sum_list (map (\<lambda>p. ival (ps_instrument p)) (le_postings en)) = 0"

lemma post_entry_Inr:
  assumes "post_entry b en = Inr b'"
  shows "entry_ok en"
    "ival (ps_money (balance_in b' a)) =
       ival (ps_money (balance_in b a)) + posted_int ps_money (le_postings en) a"
    "ival (ps_instrument (balance_in b' a)) =
       ival (ps_instrument (balance_in b a)) + posted_int ps_instrument (le_postings en) a"
    "total ps_money b' = total ps_money b" "total ps_instrument b' = total ps_instrument b"
proof -
  from assms have f: "foldE post_one (0, 0, b) (le_postings en) = Inr (0, 0, b')"
    and w: "le_type en \<noteq> ''''" "2 \<le> length (le_postings en)"
    by (auto simp: post_entry_def)
  note all = post_all_Inr [OF f]
  show "entry_ok en" using all w by (simp add: entry_ok_def list_all_iff)
  show "ival (ps_money (balance_in b' a)) =
       ival (ps_money (balance_in b a)) + posted_int ps_money (le_postings en) a"
    "ival (ps_instrument (balance_in b' a)) =
       ival (ps_instrument (balance_in b a)) + posted_int ps_instrument (le_postings en) a"
    using all [of a] by blast+
  show "total ps_money b' = total ps_money b" "total ps_instrument b' = total ps_instrument b"
    using all by simp_all
qed

lemma number_entries_spec:
  "fst (number_entries n es) = n + of_nat (length es)"
  "map le_postings (snd (number_entries n es)) = map le_postings es"
  "map le_type (snd (number_entries n es)) = map le_type es"
  "map le_id (snd (number_entries n es)) = map (\<lambda>i. n + 1 + of_nat i) [0..<length es]"
proof (induction es arbitrary: n)
  case (Cons en es)
  {
    case 1 then show ?case using Cons(1) [of "n + 1"] by (simp add: case_prod_beta Let_def)
  next
    case 2 then show ?case using Cons(2) [of "n + 1"] by (simp add: case_prod_beta Let_def)
  next
    case 3 then show ?case using Cons(3) [of "n + 1"] by (simp add: case_prod_beta Let_def)
  next
    case 4
    have "[0..<Suc (length es)] = 0 # map Suc [0..<length es]"
      by (simp only: map_Suc_upt upt_conv_Cons zero_less_Suc)
    then show ?case
      using Cons(4) [of "n + 1"]
      by (simp add: case_prod_beta Let_def add_ac del: upt_Suc)
  }
qed simp_all

text \<open>An append is all or nothing, and what it commits is the sum of its postings.\<close>

definition journal :: "ledger \<Rightarrow> posting list" where
  "journal l = concat (map le_postings (lg_entries l))"

lemma ledger_append_Inr:
  assumes "ledger_append l es = Inr l'"
  shows "list_all entry_ok es"
    "map le_postings (lg_entries l') = map le_postings (lg_entries l) @ map le_postings es"
    "ps_money (ledger_balance l' a) =
       ps_money (ledger_balance l a) + posted ps_money (concat (map le_postings es)) a"
    "ps_instrument (ledger_balance l' a) =
       ps_instrument (ledger_balance l a) + posted ps_instrument (concat (map le_postings es)) a"
    "ival (ps_money (ledger_balance l' a)) =
       ival (ps_money (ledger_balance l a)) + posted_int ps_money (concat (map le_postings es)) a"
    "ival (ps_instrument (ledger_balance l' a)) =
       ival (ps_instrument (ledger_balance l a)) + posted_int ps_instrument (concat (map le_postings es)) a"
    "total ps_money (lg_balances l') = total ps_money (lg_balances l)"
    "total ps_instrument (lg_balances l') = total ps_instrument (lg_balances l)"
    "lg_next l' = lg_next l + of_nat (length es)"
    "length (lg_entries l') = length (lg_entries l) + length es"
proof -
  from assms obtain b where f: "foldE post_entry (lg_balances l) es = Inr b"
    and l': "l' = \<lparr>lg_next = fst (number_entries (lg_next l) es),
      lg_entries = lg_entries l @ snd (number_entries (lg_next l) es), lg_balances = b\<rparr>"
    by (auto simp: ledger_append_def case_prod_beta Let_def)
  have all: "list_all entry_ok es \<and>
    ival (ps_money (balance_in b a)) =
       ival (ps_money (balance_in (lg_balances l) a)) + posted_int ps_money (concat (map le_postings es)) a \<and>
    ival (ps_instrument (balance_in b a)) =
       ival (ps_instrument (balance_in (lg_balances l) a)) + posted_int ps_instrument (concat (map le_postings es)) a \<and>
    total ps_money b = total ps_money (lg_balances l) \<and>
    total ps_instrument b = total ps_instrument (lg_balances l)" for a
    using f
  proof (induction es arbitrary: l)
    case (Cons en es)
    then obtain c where one: "post_entry (lg_balances l) en = Inr c" and rest: "foldE post_entry c es = Inr b"
      by auto
    show ?case
      using Cons.IH [of "l\<lparr>lg_balances := c\<rparr>"] rest post_entry_Inr [OF one] by simp
  qed simp
  show "list_all entry_ok es" "total ps_money (lg_balances l') = total ps_money (lg_balances l)"
    "total ps_instrument (lg_balances l') = total ps_instrument (lg_balances l)"
    using all l' by simp_all
  show exact: "ival (ps_money (ledger_balance l' a)) =
       ival (ps_money (ledger_balance l a)) + posted_int ps_money (concat (map le_postings es)) a"
    "ival (ps_instrument (ledger_balance l' a)) =
       ival (ps_instrument (ledger_balance l a)) + posted_int ps_instrument (concat (map le_postings es)) a"
    using all [of a] l' by (simp_all add: ledger_balance_def)
  show "ps_money (ledger_balance l' a) =
       ps_money (ledger_balance l a) + posted ps_money (concat (map le_postings es)) a"
    "ps_instrument (ledger_balance l' a) =
       ps_instrument (ledger_balance l a) + posted ps_instrument (concat (map le_postings es)) a"
    using exact by (simp_all add: posted_eq ring_of_int)
  show "map le_postings (lg_entries l') = map le_postings (lg_entries l) @ map le_postings es"
    "lg_next l' = lg_next l + of_nat (length es)"
    "length (lg_entries l') = length (lg_entries l) + length es"
    using l' number_entries_spec(1,2) [of "lg_next l" es]
    by (auto dest: map_eq_imp_length_eq)
qed

text \<open>The contract of a journal: exact balances, double entry, consecutive numbers.\<close>

definition ledger_inv :: "ledger \<Rightarrow> bool" where
  "ledger_inv l \<longleftrightarrow>
     (\<forall>a. ival (ps_money (ledger_balance l a)) = posted_int ps_money (journal l) a \<and>
          ival (ps_instrument (ledger_balance l a)) = posted_int ps_instrument (journal l) a) \<and>
     total ps_money (lg_balances l) = 0 \<and> total ps_instrument (lg_balances l) = 0 \<and>
     list_all entry_ok (lg_entries l) \<and>
     map le_id (lg_entries l) = map (\<lambda>i. 1 + of_nat i) [0..<length (lg_entries l)] \<and>
     lg_next l = of_nat (length (lg_entries l))"

lemma ledger_inv_new: "ledger_inv new_ledger"
  by (simp add: ledger_inv_def new_ledger_def ledger_balance_def balance_in_def journal_def total_def)

lemma entry_ok_id [simp]: "entry_ok (en\<lparr>le_id := n\<rparr>) = entry_ok en"
  by (simp add: entry_ok_def)

lemma number_entries_ok: "list_all entry_ok (snd (number_entries n es)) = list_all entry_ok es"
  by (induction es arbitrary: n) (simp_all add: case_prod_beta Let_def)

lemma ledger_inv_append:
  assumes inv: "ledger_inv l" and r: "ledger_append l es = Inr l'"
  shows "ledger_inv l'"
proof -
  note app = ledger_append_Inr [OF r]
  from r obtain b where l': "l' = \<lparr>lg_next = fst (number_entries (lg_next l) es),
      lg_entries = lg_entries l @ snd (number_entries (lg_next l) es), lg_balances = b\<rparr>"
    by (auto simp: ledger_append_def case_prod_beta Let_def)
  let ?n = "length (lg_entries l)" and ?k = "length es"
  have len: "length (snd (number_entries (lg_next l) es)) = ?k"
    using app(10) l' by simp
  have j: "journal l' = journal l @ concat (map le_postings es)"
    by (simp add: journal_def app(2))
  have ok: "list_all entry_ok (lg_entries l')"
    using inv app(1) l' by (simp add: ledger_inv_def number_entries_ok)
  have "map le_id (lg_entries l') =
      map (\<lambda>i. 1 + of_nat i) [0..<?n] @ map (\<lambda>i. lg_next l + 1 + of_nat i) [0..<?k]"
    using inv l' by (simp add: ledger_inv_def number_entries_spec)
  also have "map (\<lambda>i. lg_next l + 1 + of_nat i) [0..<?k] =
      map (\<lambda>i. 1 + of_nat i) (map (\<lambda>i. i + ?n) [0..<?k])"
    using inv by (simp add: ledger_inv_def add_ac)
  also have "map (\<lambda>i. i + ?n) [0..<?k] = [?n..<?n + ?k]"
    by (simp add: map_add_upt add.commute)
  finally have ids: "map le_id (lg_entries l') = map (\<lambda>i. 1 + of_nat i) [0..<length (lg_entries l')]"
    using app(10) upt_add_eq_append [of 0 ?n ?k] by simp
  show ?thesis
    using inv ok ids app(5-10) unfolding ledger_inv_def j by simp
qed

definition run_ledger :: "ledger \<Rightarrow> ledger_entry list list \<Rightarrow> ledger" where
  "run_ledger l batches =
     foldl (\<lambda>l es. case ledger_append l es of Inl _ \<Rightarrow> l | Inr l' \<Rightarrow> l') l batches"

lemma run_ledger_inv: "ledger_inv l \<Longrightarrow> ledger_inv (run_ledger l batches)"
  by (induction batches arbitrary: l)
    (auto simp: run_ledger_def dest: ledger_inv_append split: sum.splits)

lemma fmap_of_sorted_list: "fmap_of_list (sorted_list_of_fmap m) = m"
  by (rule fmap_ext) (metis fmlookup_of_list map_of_sorted_list)

lemma clone_ledger_id [simp]: "clone_ledger l = l"
  by (simp add: clone_ledger_def entries_copy_def fmap_of_sorted_list)

text \<open>C33. The journal is double entry: however batches were appended, every account's balance is
  the exact sum of its postings, all balances add up to zero in money and in instrument, every
  entry is balanced, and the entries are numbered from one without gaps.\<close>

theorem ledger_double_entry:
  "ledger_inv (run_ledger new_ledger batches)"
  by (rule run_ledger_inv [OF ledger_inv_new])

text \<open>A batch is appended as a whole or not at all: on success the journal grows by exactly
  the batch's postings; on failure the ledger is the one before, without an ordinary error
  being a panic.\<close>

theorem ledger_append_atomic:
  "case ledger_append l es of
     Inl e \<Rightarrow> \<not> is_panic e \<and> run_ledger l [es] = l
   | Inr l' \<Rightarrow> journal l' = journal l @ concat (map le_postings es) \<and> list_all entry_ok es"
proof (cases "ledger_append l es")
  case (Inl e)
  have one: "\<not> is_panic e" if "post_one s p = Inl e" for s p e
    using that by (auto simp: post_one_def guardE_def bindE_Inl_iff Let_def fails_def add_money_def
        add_qty_def split: prod.splits if_splits)
  have all: "\<not> is_panic e" if "foldE post_one s ps = Inl e" for s ps e
    using that by (induction ps arbitrary: s) (auto simp: bindE_Inl_iff dest: one)
  have en: "\<not> is_panic e" if "post_entry b en = Inl e" for b en e
    using that by (auto simp: post_entry_def guardE_def bindE_Inl_iff fails_def dest: all
        split: if_splits prod.splits)
  have "\<not> is_panic e" if "foldE post_entry b es = Inl e" for b
    using that by (induction es arbitrary: b) (auto simp: bindE_Inl_iff dest: en)
  then show ?thesis
    using Inl by (auto simp: ledger_append_def bindE_Inl_iff run_ledger_def case_prod_beta Let_def)
next
  case (Inr l')
  then show ?thesis using ledger_append_Inr(1,2) [OF Inr] by (simp add: journal_def)
qed

end
