(* ===== verification/Order_Book.thy ===== *)
theory Order_Book
  imports Fixed
begin

text \<open>
  The limit order book of \<^verbatim>\<open>internal/orderbook/book.go\<close>. A node pointer of the code is the id of
  its order: the map \<open>bk_orders\<close> is the store the nodes live in, shared by the index and the
  price levels, and a level's doubly linked list is the list of its order ids, head first. So
  \<^verbatim>\<open>maker.order.Remaining -= quantity\<close> is an update of the store that both views see.

  Operations that may fail return \<open>res\<close>; the public operations of the code work on a clone
  and commit it, which is the assignment of the returned book here.
\<close>

subsection \<open>Data\<close>

datatype side = Buy | Sell | OtherSide string
datatype tif = GTC | IOC | OtherTif string
datatype self_trade_policy = RejectTaker | OtherPolicy string

record book_order =
  bo_id :: u64
  bo_seq :: u64
  bo_owner :: string
  bo_side :: side
  bo_price :: price
  bo_qty :: qty
  bo_rem :: qty
  bo_tif :: tif

record fill =
  fl_maker :: book_order
  fl_taker :: book_order
  fl_price :: price
  fl_qty :: qty

record report =
  rp_accepted :: book_order
  rp_fills :: "fill list"
  rp_resting :: "book_order option"
  rp_expired :: "book_order option"
  rp_completed :: "book_order list"

record depth =
  dp_price :: price
  dp_qty :: qty
  dp_count :: nat

record level =
  lv_price :: price
  lv_queue :: "u64 list"
  lv_qty :: qty

record book_side =
  sd_buy :: bool
  sd_levels :: "(price, level) fmap"
  sd_prices :: "price list"

record book =
  bk_bids :: book_side
  bk_asks :: book_side
  bk_orders :: "(u64, book_order) fmap"

definition new_book :: book where
  "new_book =
     \<lparr>bk_bids = \<lparr>sd_buy = True, sd_levels = fmempty, sd_prices = []\<rparr>,
      bk_asks = \<lparr>sd_buy = False, sd_levels = fmempty, sd_prices = []\<rparr>,
      bk_orders = fmempty\<rparr>"

subsection \<open>The sorted price index\<close>

text \<open>\<^verbatim>\<open>sort.Search\<close>: the library's binary search for the least index that satisfies a monotone
  predicate.\<close>

function search :: "(nat \<Rightarrow> bool) \<Rightarrow> nat \<Rightarrow> nat \<Rightarrow> nat" where
  "search f i j =
     (if i < j
      then let h = (i + j) div 2 in if \<not> f h then search f (Suc h) j else search f i h
      else i)"
  by pat_completeness auto
termination
  by (relation "measure (\<lambda>(f, i, j). j - i)") auto

declare search.simps [simp del]

definition price_index :: "price list \<Rightarrow> price \<Rightarrow> nat" where
  "price_index ps p = search (\<lambda>i. ps ! i \<ge> p) 0 (length ps)"

definition insert_price :: "price \<Rightarrow> price list \<Rightarrow> price list" where
  "insert_price p ps = (let i = price_index ps p in take i ps @ p # drop i ps)"

definition remove_price :: "price \<Rightarrow> price list \<Rightarrow> price list" where
  "remove_price p ps =
     (let i = price_index ps p
      in if i < length ps \<and> ps ! i = p then take i ps @ drop (Suc i) ps else ps)"

definition best :: "book_side \<Rightarrow> price" where
  "best s = (if sd_prices s = [] then 0
             else if sd_buy s then last (sd_prices s) else hd (sd_prices s))"

definition best_bid :: "book \<Rightarrow> price" where "best_bid b = best (bk_bids b)"
definition best_ask :: "book \<Rightarrow> price" where "best_ask b = best (bk_asks b)"

definition for_side :: "book \<Rightarrow> side \<Rightarrow> book_side" where
  "for_side b s = (if s = Buy then bk_bids b else bk_asks b)"

definition put_side :: "side \<Rightarrow> book_side \<Rightarrow> book \<Rightarrow> book" where
  "put_side s sd b = (if s = Buy then b\<lparr>bk_bids := sd\<rparr> else b\<lparr>bk_asks := sd\<rparr>)"

subsection \<open>Queries\<close>

definition lookup_order :: "book \<Rightarrow> u64 \<Rightarrow> book_order option" where
  "lookup_order b i = fmlookup (bk_orders b) i"

text \<open>\<^verbatim>\<open>Orders\<close> ranges over the map and sorts by sequence number; the model ranges in the order of
  the ids. Live orders have distinct sequence numbers, so the sorted result is the same.\<close>

definition orders :: "book \<Rightarrow> string \<Rightarrow> book_order list" where
  "orders b owner =
     sort_key bo_seq
       (filter (\<lambda>ord. owner = '''' \<or> bo_owner ord = owner) (fm_values (bk_orders b)))"

definition max_sequence :: "book \<Rightarrow> u64" where
  "max_sequence b =
     foldl (\<lambda>m ord. if bo_seq ord > m then bo_seq ord else m) 0 (fm_values (bk_orders b))"

definition sequence_used :: "book \<Rightarrow> u64 \<Rightarrow> u64 \<Rightarrow> bool" where
  "sequence_used b seq except =
     list_ex (\<lambda>(i, ord). i \<noteq> except \<and> bo_seq ord = seq) (sorted_list_of_fmap (bk_orders b))"

definition would_self_trade :: "book \<Rightarrow> book_order \<Rightarrow> bool" where
  "would_self_trade b ord =
     list_ex (\<lambda>resting. bo_side resting \<noteq> bo_side ord \<and>
        ((bo_side ord = Buy \<and> bo_price resting \<le> bo_price ord) \<or>
         (bo_side ord = Sell \<and> bo_price resting \<ge> bo_price ord)))
       (orders b (bo_owner ord))"

definition invalid_order :: "book_order \<Rightarrow> bool" where
  "invalid_order ord \<longleftrightarrow>
     bo_id ord = 0 \<or> bo_seq ord = 0 \<or> bo_owner ord = '''' \<or>
     (bo_side ord \<noteq> Buy \<and> bo_side ord \<noteq> Sell) \<or>
     \<not> positive (bo_price ord) \<or> \<not> positive (bo_qty ord) \<or>
     (bo_tif ord \<noteq> GTC \<and> bo_tif ord \<noteq> IOC)"

text \<open>The head of the best opposite level, if the taker's limit reaches it.\<close>

definition best_crossing :: "book \<Rightarrow> side \<Rightarrow> price \<Rightarrow> u64 option res" where
  "best_crossing b taker_side limit =
     (let opposite = (if taker_side = Sell then bk_bids b else bk_asks b);
          bst = best opposite
      in if bst = 0 \<or> (taker_side = Buy \<and> bst > limit) \<or> (taker_side = Sell \<and> bst < limit)
         then Inr None
         else case fmlookup (sd_levels opposite) bst of
                None \<Rightarrow> panics ''nil level''
              | Some l \<Rightarrow> Inr (case lv_queue l of [] \<Rightarrow> None | i # _ \<Rightarrow> Some i))"

subsection \<open>Resting and removing an order\<close>

definition rest :: "book \<Rightarrow> book_order \<Rightarrow> book res" where
  "rest b ord =
     (let s = for_side b (bo_side ord);
          l = fmlookup (sd_levels s) (bo_price ord)
      in bindE (case l of None \<Rightarrow> Inr (bo_rem ord) | Some lv \<Rightarrow> add_qty (lv_qty lv) (bo_rem ord))
         (\<lambda>next_qty.
            let ps = (case l of None \<Rightarrow> insert_price (bo_price ord) (sd_prices s)
                              | Some _ \<Rightarrow> sd_prices s);
                queue = (case l of None \<Rightarrow> [] | Some lv \<Rightarrow> lv_queue lv);
                lv = \<lparr>lv_price = bo_price ord, lv_queue = queue @ [bo_id ord], lv_qty = next_qty\<rparr>
            in Inr ((put_side (bo_side ord)
                  (s\<lparr>sd_levels := fmupd (bo_price ord) lv (sd_levels s), sd_prices := ps\<rparr>) b)
                \<lparr>bk_orders := fmupd (bo_id ord) ord (bk_orders b)\<rparr>)))"

text \<open>A live node always has its level (\<open>book_inv\<close> below), so the missing-level case is not
  reached.\<close>

definition remove_order :: "book \<Rightarrow> u64 \<Rightarrow> book" where
  "remove_order b i =
     (case fmlookup (bk_orders b) i of
        None \<Rightarrow> b
      | Some ord \<Rightarrow>
        let s = for_side b (bo_side ord);
            b' = b\<lparr>bk_orders := fmdrop i (bk_orders b)\<rparr>
        in case fmlookup (sd_levels s) (bo_price ord) of
             None \<Rightarrow> b'
           | Some l \<Rightarrow>
             let l' = l\<lparr>lv_queue := remove1 i (lv_queue l), lv_qty := lv_qty l - bo_rem ord\<rparr>
             in if lv_queue l' = []
                then put_side (bo_side ord)
                  (s\<lparr>sd_levels := fmdrop (lv_price l) (sd_levels s),
                     sd_prices := remove_price (lv_price l) (sd_prices s)\<rparr>) b'
                else put_side (bo_side ord)
                  (s\<lparr>sd_levels := fmupd (bo_price ord) l' (sd_levels s)\<rparr>) b')"

text \<open>The partial execution of a maker: its node and its level lose the filled quantity.\<close>

definition reduce_order :: "book \<Rightarrow> u64 \<Rightarrow> qty \<Rightarrow> book" where
  "reduce_order b i q =
     (case fmlookup (bk_orders b) i of
        None \<Rightarrow> b
      | Some ord \<Rightarrow>
        let s = for_side b (bo_side ord);
            b' = b\<lparr>bk_orders := fmupd i (ord\<lparr>bo_rem := bo_rem ord - q\<rparr>) (bk_orders b)\<rparr>
        in case fmlookup (sd_levels s) (bo_price ord) of
             None \<Rightarrow> b'
           | Some l \<Rightarrow> put_side (bo_side ord)
               (s\<lparr>sd_levels := fmupd (bo_price ord) (l\<lparr>lv_qty := lv_qty l - q\<rparr>) (sd_levels s)\<rparr>) b')"

subsection \<open>Matching\<close>

lemma fcard_fmdom_drop: "i |\<in>| fmdom m \<Longrightarrow> fcard (fmdom (fmdrop i m)) < fcard (fmdom m)"
  by (metis fcard_fminus1_less fmdom_drop)

lemma fmdrop_missing: "fmlookup m i = None \<Longrightarrow> fmdrop i m = m"
  by (rule fmap_ext) auto

lemma bk_orders_remove [simp]:
  "bk_orders (remove_order b i) = fmdrop i (bk_orders b)"
  by (auto simp: remove_order_def put_side_def Let_def fmdrop_missing
      split: option.splits)

lemma bk_orders_reduce:
  "bk_orders (reduce_order b i q) = (case fmlookup (bk_orders b) i of None \<Rightarrow> bk_orders b
    | Some ord \<Rightarrow> fmupd i (ord\<lparr>bo_rem := bo_rem ord - q\<rparr>) (bk_orders b))"
  by (auto simp: reduce_order_def put_side_def Let_def split: option.splits)

function match_loop ::
  "book \<Rightarrow> book_order \<Rightarrow> report \<Rightarrow> (book \<times> book_order \<times> report) res" where
  "match_loop b taker rp =
     (if \<not> bo_rem taker > 0 then Inr (b, taker, rp)
      else case best_crossing b (bo_side taker) (bo_price taker) of
        Inl e \<Rightarrow> Inl e
      | Inr None \<Rightarrow> Inr (b, taker, rp)
      | Inr (Some i) \<Rightarrow>
        (case fmlookup (bk_orders b) i of
           None \<Rightarrow> panics ''nil node''
         | Some maker \<Rightarrow>
           let quantity = (if bo_rem maker < bo_rem taker then bo_rem maker else bo_rem taker);
               maker' = maker\<lparr>bo_rem := bo_rem maker - quantity\<rparr>;
               b' = reduce_order b i quantity;
               taker' = taker\<lparr>bo_rem := bo_rem taker - quantity\<rparr>;
               fl = \<lparr>fl_maker = maker, fl_taker = taker, fl_price = bo_price maker,
                      fl_qty = quantity\<rparr>;
               rp' = rp\<lparr>rp_fills := rp_fills rp @ [fl]\<rparr>
           in if bo_rem maker' = 0
              then match_loop (remove_order b' i) taker'
                     (rp'\<lparr>rp_completed := rp_completed rp' @ [maker']\<rparr>)
              else match_loop b' taker' rp'))"
  by pat_completeness auto
termination
proof (relation "measures [\<lambda>(b, t, rp). fcard (fmdom (bk_orders b)),
    \<lambda>(b, t, rp). if bo_rem t > 0 then 1 else 0]", goal_cases)
  case (2 b taker rp x2 i maker)
  then have "i |\<in>| fmdom (bk_orders b)" by (simp add: fmdomI)
  then show ?case using 2 fcard_fmdom_drop [of i "bk_orders b"]
    by (simp add: bk_orders_reduce finsert_absorb fcard_fminus1_less)
next
  case (3 b taker rp x2 i maker)
  then have "i |\<in>| fmdom (bk_orders b)" by (simp add: fmdomI)
  then show ?case using 3 by (auto simp: bk_orders_reduce finsert_absorb split: if_splits)
qed simp

declare match_loop.simps [simp del]

definition submit :: "book \<Rightarrow> book_order \<Rightarrow> self_trade_policy \<Rightarrow> (book \<times> report) res" where
  "submit b ord0 policy =
     guardE (invalid_order ord0) ''invalid order''
     (guardE (lookup_order b (bo_id ord0) \<noteq> None) ''duplicate order id''
     (guardE (bo_seq ord0 \<le> max_sequence b) ''order sequence must increase monotonically''
     (guardE (policy \<noteq> RejectTaker) ''unsupported self-trade policy''
     (guardE (would_self_trade b ord0) ''self trade prevention rejected order''
     (let ord = ord0\<lparr>bo_rem := bo_qty ord0\<rparr>;
          rp0 = \<lparr>rp_accepted = ord, rp_fills = [], rp_resting = None, rp_expired = None,
                 rp_completed = []\<rparr>
      in bindE (match_loop b ord rp0) (\<lambda>(b', taker, rp).
           if bo_rem taker = 0
           then Inr (b', rp\<lparr>rp_completed := rp_completed rp @ [taker]\<rparr>)
           else if bo_tif taker = IOC
           then Inr (b', rp\<lparr>rp_expired := Some taker\<rparr>)
           else bindE (rest b' taker) (\<lambda>b''. Inr (b'', rp\<lparr>rp_resting := Some taker\<rparr>))))))))"

text \<open>\<^verbatim>\<open>Clone\<close> re-rests every live order in sequence order; a failure there panics.\<close>

definition clone_book :: "book \<Rightarrow> book res" where
  "clone_book b =
     (case foldE rest new_book (orders b '''') of
        Inl e \<Rightarrow> panics ''orderbook: valid book failed to clone''
      | Inr c \<Rightarrow> Inr c)"

definition submit_public :: "book \<Rightarrow> book_order \<Rightarrow> self_trade_policy \<Rightarrow> (book \<times> report) res" where
  "submit_public b ord policy = bindE (clone_book b) (\<lambda>c. submit c ord policy)"

definition cancel_order :: "book \<Rightarrow> u64 \<Rightarrow> (book \<times> book_order) option" where
  "cancel_order b i =
     (case lookup_order b i of None \<Rightarrow> None | Some ord \<Rightarrow> Some (remove_order b i, ord))"

definition without :: "book \<Rightarrow> u64 \<Rightarrow> book res" where
  "without b i =
     guardE (lookup_order b i = None) ''order not found''
       (foldE rest new_book (filter (\<lambda>ord. bo_id ord \<noteq> i) (orders b '''')))"

definition preview_replace ::
  "book \<Rightarrow> u64 \<Rightarrow> book_order \<Rightarrow> self_trade_policy \<Rightarrow> (book \<times> report) res" where
  "preview_replace b old replacement policy =
     guardE (lookup_order b old = None) ''order not found''
     (guardE (bo_id replacement = old \<or> bo_seq replacement \<le> max_sequence b \<or>
              sequence_used b (bo_seq replacement) old)
        ''replacement must have a unique newer sequence''
     (bindE (without b old) (\<lambda>c. submit_public c replacement policy)))"

definition replace_order ::
  "book \<Rightarrow> u64 \<Rightarrow> book_order \<Rightarrow> self_trade_policy \<Rightarrow> (book \<times> report) res" where
  "replace_order b old replacement policy =
     bindE (preview_replace b old replacement policy) (\<lambda>(_, rp).
     bindE (without b old) (\<lambda>c.
     bindE (submit_public c replacement policy) (\<lambda>(c', _). Inr (c', rp))))"

subsection \<open>Market data\<close>

definition level_depth :: "book_side \<Rightarrow> price \<Rightarrow> depth res" where
  "level_depth s p =
     (case fmlookup (sd_levels s) p of
        None \<Rightarrow> panics ''nil level''
      | Some l \<Rightarrow>
        Inr \<lparr>dp_price = lv_price l, dp_qty = lv_qty l, dp_count = length (lv_queue l)\<rparr>)"

definition snapshot :: "book_side \<Rightarrow> bool \<Rightarrow> depth list res" where
  "snapshot s best_first =
     mapE (level_depth s) (if best_first then rev (sd_prices s) else sd_prices s)"

definition bids :: "book \<Rightarrow> depth list res" where "bids b = snapshot (bk_bids b) True"
definition asks :: "book \<Rightarrow> depth list res" where "asks b = snapshot (bk_asks b) False"

definition book_len :: "book \<Rightarrow> nat" where "book_len b = fcard (fmdom (bk_orders b))"

end
