(* ===== verification/Book_Inv.thy ===== *)
theory Book_Inv
  imports Order_Book "HOL-Library.Multiset"
begin

text \<open>
  The representation invariant of the book. The abstraction of a book is \<open>live\<close>, its resting
  orders in sequence order; \<open>book_inv\<close> says that both sides' levels, queues, level quantities
  and sorted price lists are exactly those that \<open>live\<close> determines. Each primitive of the
  code is shown to keep the invariant and to be one list operation on \<open>live\<close>.
\<close>

definition live :: "book \<Rightarrow> book_order list" where
  "live b = orders b ''''"

subsection \<open>The list view\<close>

definition order_ok :: "book_order \<Rightarrow> bool" where
  "order_ok ord \<longleftrightarrow> (bo_side ord = Buy \<or> bo_side ord = Sell) \<and> positive (bo_price ord) \<and>
     positive (bo_rem ord) \<and> bo_owner ord \<noteq> '''' \<and> bo_tif ord = GTC"

definition store_ok :: "(u64, book_order) fmap \<Rightarrow> bool" where
  "store_ok m \<longleftrightarrow>
     (\<forall>i ord. fmlookup m i = Some ord \<longrightarrow> bo_id ord = i \<and> order_ok ord) \<and>
     (\<forall>i j x y. fmlookup m i = Some x \<longrightarrow> fmlookup m j = Some y \<longrightarrow> bo_seq x = bo_seq y \<longrightarrow> i = j)"

definition list_ok :: "book_order list \<Rightarrow> bool" where
  "list_ok L \<longleftrightarrow> sorted_wrt (<) (map bo_seq L) \<and> distinct (map bo_id L) \<and> (\<forall>ord \<in> set L. order_ok ord)"

lemma store_okD:
  assumes "store_ok m" and "fmlookup m i = Some ord"
  shows "bo_id ord = i" and "order_ok ord"
  using assms by (auto simp: store_ok_def)

lemma store_ok_seq:
  assumes "store_ok m" and "fmlookup m i = Some x" and "fmlookup m j = Some y" and "bo_seq x = bo_seq y"
  shows "i = j"
  using assms unfolding store_ok_def by meson

lemma live_eq: "live b = sort_key bo_seq (fm_values (bk_orders b))"
  by (simp add: live_def orders_def)

lemma set_live [simp]: "set (live b) = fmran' (bk_orders b)"
  by (simp add: live_eq)

lemma map_id_fm_values:
  assumes "store_ok m"
  shows "map bo_id (fm_values m) = sorted_list_of_fset (fmdom m)"
  using assms
  by (auto simp: fm_values_def sorted_list_of_fmap_def sorted_list_of_fset_simps store_ok_def
      fmlookup_dom_iff intro!: map_idI)

lemma distinct_ids_live:
  assumes "store_ok (bk_orders b)"
  shows "distinct (map bo_id (live b))"
proof -
  have "mset (map bo_id (live b)) = mset (map bo_id (fm_values (bk_orders b)))"
    by (simp add: live_eq)
  then show ?thesis
    unfolding map_id_fm_values [OF assms]
    by (metis distinct_sorted_list_of_set mset_eq_imp_distinct_iff sorted_list_of_fset.rep_eq)
qed

lemma list_ok_live:
  assumes "store_ok (bk_orders b)"
  shows "list_ok (live b)"
proof -
  have d: "distinct (live b)" using distinct_ids_live [OF assms] by (simp add: distinct_map)
  have "inj_on bo_seq (set (live b))"
  proof (rule inj_onI)
    fix x y
    assume "x \<in> set (live b)" "y \<in> set (live b)" and eq: "bo_seq x = bo_seq y"
    then obtain i j where ij: "fmlookup (bk_orders b) i = Some x" "fmlookup (bk_orders b) j = Some y"
      by (auto simp: fmlookup_ran'_iff)
    with assms eq have "i = j" unfolding store_ok_def by blast
    with ij show "x = y" by simp
  qed
  with d have "distinct (map bo_seq (live b))" by (simp add: distinct_map)
  moreover have "sorted (map bo_seq (live b))" by (simp add: live_eq)
  ultimately have "sorted_wrt (<) (map bo_seq (live b))" by (simp add: strict_sorted_iff)
  moreover have "\<forall>ord \<in> set (live b). order_ok ord"
    using assms by (auto simp: store_ok_def fmlookup_ran'_iff)
  ultimately show ?thesis using distinct_ids_live [OF assms] by (simp add: list_ok_def)
qed

lemma list_okD:
  assumes "list_ok L"
  shows "distinct (map bo_id L)" "distinct (map bo_seq L)" "sorted (map bo_seq L)" "distinct L"
    "ord \<in> set L \<Longrightarrow> order_ok ord"
  using assms by (auto simp: list_ok_def strict_sorted_iff distinct_map)

lemma list_ok_unique_id:
  "list_ok L \<Longrightarrow> x \<in> set L \<Longrightarrow> y \<in> set L \<Longrightarrow> bo_id x = bo_id y \<Longrightarrow> x = y"
  by (auto simp: list_ok_def distinct_map inj_on_def)

text \<open>A sequence-sorted list with the right elements is the live list.\<close>

lemma live_unique:
  assumes "store_ok (bk_orders b)" and "list_ok L" and "set L = fmran' (bk_orders b)"
  shows "live b = L"
proof (rule map_sorted_distinct_set_unique)
  note L = list_okD [OF assms(2)] and B = list_okD [OF list_ok_live [OF assms(1)]]
  show "inj_on bo_seq (set (live b) \<union> set L)"
    using L(2) assms(3) by (simp add: distinct_map)
  show "sorted (map bo_seq (live b))" "distinct (map bo_seq (live b))" by (fact B)+
  show "sorted (map bo_seq L)" "distinct (map bo_seq L)" by (fact L)+
  show "set (live b) = set L" using assms(3) by simp
qed

lemma live_lookup:
  assumes "store_ok (bk_orders b)"
  shows "fmlookup (bk_orders b) i = Some ord \<longleftrightarrow> ord \<in> set (live b) \<and> bo_id ord = i"
  using assms by (auto simp: fmlookup_ran'_iff store_ok_def)

subsection \<open>What a side must look like\<close>

definition at :: "book_order list \<Rightarrow> side \<Rightarrow> price \<Rightarrow> book_order list" where
  "at L s p = filter (\<lambda>ord. bo_side ord = s \<and> bo_price ord = p) L"

definition qty_at :: "book_order list \<Rightarrow> side \<Rightarrow> price \<Rightarrow> int" where
  "qty_at L s p = sum_list (map (\<lambda>ord. ival (bo_rem ord)) (at L s p))"

definition prices_of :: "book_order list \<Rightarrow> side \<Rightarrow> price set" where
  "prices_of L s = bo_price ` {ord \<in> set L. bo_side ord = s}"

definition level_of :: "book_order list \<Rightarrow> side \<Rightarrow> price \<Rightarrow> level" where
  "level_of L s p =
     \<lparr>lv_price = p, lv_queue = map bo_id (at L s p), lv_qty = i64_of (qty_at L s p)\<rparr>"

definition side_inv :: "book_order list \<Rightarrow> side \<Rightarrow> book_side \<Rightarrow> bool" where
  "side_inv L s sd \<longleftrightarrow>
     sd_buy sd = (s = Buy) \<and> sorted_wrt (<) (sd_prices sd) \<and> set (sd_prices sd) = prices_of L s \<and>
     (\<forall>p. fmlookup (sd_levels sd) p = (if p \<in> prices_of L s then Some (level_of L s p) else None)) \<and>
     (\<forall>p. fits (qty_at L s p))"

definition book_inv :: "book \<Rightarrow> bool" where
  "book_inv b \<longleftrightarrow> store_ok (bk_orders b) \<and> side_inv (live b) Buy (bk_bids b) \<and>
     side_inv (live b) Sell (bk_asks b)"

lemma side_inv_unique:
  assumes "side_inv L s sd" and "side_inv L s sd'"
  shows "sd = sd'"
proof -
  have "sd_prices sd = sd_prices sd'"
    using assms
    by (intro strict_sorted_equal) (simp_all add: side_inv_def)
  moreover have "sd_levels sd = sd_levels sd'"
    using assms by (intro fmap_ext) (simp add: side_inv_def)
  ultimately show ?thesis using assms by (simp add: side_inv_def)
qed

text \<open>The book is determined by its store of orders: one representation per abstract state.\<close>

lemma book_inv_unique:
  assumes "book_inv b" and "book_inv c" and "bk_orders b = bk_orders c"
  shows "b = c"
proof -
  have "live b = live c" using assms(3) by (simp add: live_eq)
  then have "bk_bids b = bk_bids c" "bk_asks b = bk_asks c"
    using assms side_inv_unique by (auto simp: book_inv_def)
  with assms(3) show ?thesis by simp
qed

lemma book_inv_list_ok: "book_inv b \<Longrightarrow> list_ok (live b)"
  by (simp add: book_inv_def list_ok_live)

lemma in_prices_of_iff: "p \<in> prices_of L s \<longleftrightarrow> at L s p \<noteq> []"
  by (auto simp: prices_of_def at_def filter_empty_conv)

lemma book_inv_side: "book_inv b \<Longrightarrow> s = Buy \<or> s = Sell \<Longrightarrow> side_inv (live b) s (for_side b s)"
  by (auto simp: book_inv_def for_side_def)

subsection \<open>The price index\<close>

lemma search_least:
  assumes "i \<le> j" and "\<And>a c. a \<le> c \<Longrightarrow> c < j \<Longrightarrow> f a \<Longrightarrow> f c" and "\<And>a. a < i \<Longrightarrow> \<not> f a"
  shows "search f i j \<le> j \<and> (\<forall>a < search f i j. \<not> f a) \<and>
    (search f i j < j \<longrightarrow> f (search f i j)) \<and> i \<le> search f i j"
  using assms
proof (induction f i j rule: search.induct)
  case (1 f i j)
  show ?case
  proof (cases "i < j")
    case True
    define h where "h = (i + j) div 2"
    have h: "i \<le> h" "h < j" using True by (auto simp: h_def)
    show ?thesis
    proof (cases "f h")
      case True
      have "search f i h \<le> h \<and> (\<forall>a < search f i h. \<not> f a) \<and>
          (search f i h < h \<longrightarrow> f (search f i h)) \<and> i \<le> search f i h"
        using "1.IH"(2) [OF \<open>i < j\<close> h_def] True h "1.prems" by (meson order_less_trans)
      moreover have "search f i j = search f i h"
        using True \<open>i < j\<close> by (subst search.simps) (simp add: h_def Let_def)
      ultimately show ?thesis using True h by (metis le_less_trans less_imp_le order_le_less)
    next
      case False
      have low: "\<not> f a" if "a < Suc h" for a
        using that False h "1.prems"(2) [of a h] by (auto simp: less_Suc_eq_le)
      have "search f (Suc h) j \<le> j \<and> (\<forall>a < search f (Suc h) j. \<not> f a) \<and>
          (search f (Suc h) j < j \<longrightarrow> f (search f (Suc h) j)) \<and> Suc h \<le> search f (Suc h) j"
        using "1.IH"(1) [OF \<open>i < j\<close> h_def] False h low "1.prems"(2) by (meson Suc_leI)
      moreover have "search f i j = search f (Suc h) j"
        using False \<open>i < j\<close> by (subst search.simps) (simp add: h_def Let_def)
      ultimately show ?thesis using h by auto
    qed
  next
    case False
    then have "search f i j = i" by (subst search.simps) simp
    then show ?thesis using False "1.prems" by auto
  qed
qed

lemma price_index:
  assumes "sorted ps"
  shows "price_index ps p \<le> length ps" "\<forall>x \<in> set (take (price_index ps p) ps). x < p"
    "\<forall>x \<in> set (drop (price_index ps p) ps). p \<le> x"
proof -
  let ?k = "price_index ps p"
  have mono: "a \<le> c \<Longrightarrow> c < length ps \<Longrightarrow> p \<le> ps ! a \<Longrightarrow> p \<le> ps ! c" for a c
    using assms by (meson order_trans sorted_nth_mono)
  have k: "?k \<le> length ps \<and> (\<forall>a < ?k. \<not> p \<le> ps ! a) \<and>
      (?k < length ps \<longrightarrow> p \<le> ps ! ?k) \<and> 0 \<le> ?k"
    unfolding price_index_def
  proof (rule search_least)
    show "p \<le> ps ! c" if "a \<le> c" "c < length ps" "p \<le> ps ! a" for a c
      using mono that by blast
  qed simp_all
  then show "?k \<le> length ps" by simp
  show "\<forall>x \<in> set (take ?k ps). x < p" using k by (auto simp: in_set_conv_nth not_le)
  show "\<forall>x \<in> set (drop ?k ps). p \<le> x"
  proof
    fix x assume "x \<in> set (drop ?k ps)"
    then obtain c where c: "x = ps ! (?k + c)" "?k + c < length ps"
      by (auto simp: in_set_conv_nth)
    then have "p \<le> ps ! ?k" using k by simp
    then show "p \<le> x" using c mono [of ?k "?k + c"] by simp
  qed
qed

lemma insort_append_less:
  "\<forall>x \<in> set xs. x < p \<Longrightarrow> insort p (xs @ ys) = xs @ insort p ys"
  by (induction xs) auto

lemma insort_hd: "\<forall>x \<in> set ys. p \<le> x \<Longrightarrow> insort p ys = p # ys"
  by (cases ys) auto

lemma insert_price_eq_insort:
  assumes "sorted ps"
  shows "insert_price p ps = insort p ps"
proof -
  let ?k = "price_index ps p"
  have "insort p (take ?k ps @ drop ?k ps) = take ?k ps @ p # drop ?k ps"
    using price_index [OF assms, of p] by (simp only: insort_append_less insort_hd)
  then show ?thesis by (simp add: insert_price_def Let_def)
qed

lemma remove_price_eq_filter:
  assumes "sorted_wrt (<) ps"
  shows "remove_price p ps = filter (\<lambda>x. x \<noteq> p) ps"
proof -
  let ?k = "price_index ps p"
  have s: "sorted ps" "distinct ps" using assms by (simp_all add: strict_sorted_iff)
  note k = price_index [OF s(1), of p]
  have low: "filter (\<lambda>x. x \<noteq> p) (take ?k ps) = take ?k ps" using k(2) by (auto simp: filter_id_conv)
  have split: "filter (\<lambda>x. x \<noteq> p) ps = take ?k ps @ filter (\<lambda>x. x \<noteq> p) (drop ?k ps)"
    by (metis append_take_drop_id filter_append low)
  show ?thesis
  proof (cases "?k < length ps")
    case True
    then have drop: "drop ?k ps = ps ! ?k # drop (Suc ?k) ps" by (simp add: Cons_nth_drop_Suc)
    have "\<forall>x \<in> set (drop (Suc ?k) ps). ps ! ?k < x"
      using assms drop sorted_wrt_drop [OF assms, of ?k] by simp
    moreover have "p \<le> ps ! ?k" using k(3) drop by simp
    ultimately have "filter (\<lambda>x. x \<noteq> p) (drop (Suc ?k) ps) = drop (Suc ?k) ps"
      by (fastforce simp: filter_id_conv)
    then have filt: "filter (\<lambda>x. x \<noteq> p) ps =
        take ?k ps @ (if ps ! ?k = p then [] else [ps ! ?k]) @ drop (Suc ?k) ps"
      using split drop by simp
    have "ps = take ?k ps @ ps ! ?k # drop (Suc ?k) ps" using True by (rule id_take_nth_drop)
    then have "filter (\<lambda>x. x \<noteq> p) ps = ps" if "ps ! ?k \<noteq> p" using filt that by simp
    then show ?thesis using True filt by (cases "ps ! ?k = p") (simp_all add: remove_price_def Let_def)
  next
    case False
    then show ?thesis using split by (simp add: remove_price_def Let_def)
  qed
qed

subsection \<open>List operations and the sides they change\<close>

definition drop_id :: "u64 \<Rightarrow> book_order list \<Rightarrow> book_order list" where
  "drop_id i L = filter (\<lambda>ord. bo_id ord \<noteq> i) L"

definition fill_id :: "u64 \<Rightarrow> qty \<Rightarrow> book_order list \<Rightarrow> book_order list" where
  "fill_id i q L = map (\<lambda>ord. if bo_id ord = i then ord\<lparr>bo_rem := bo_rem ord - q\<rparr> else ord) L"

lemma at_sides: "at L s p = filter (\<lambda>ord. bo_price ord = p) (filter (\<lambda>ord. bo_side ord = s) L)"
  by (simp add: at_def conj_commute)

lemma prices_of_sides: "prices_of L s = bo_price ` set (filter (\<lambda>ord. bo_side ord = s) L)"
  by (simp add: prices_of_def)

lemma side_inv_cong:
  assumes "filter (\<lambda>ord. bo_side ord = s) L = filter (\<lambda>ord. bo_side ord = s) L'"
  shows "side_inv L s sd = side_inv L' s sd"
  using assms
  by (simp add: side_inv_def level_of_def qty_at_def at_sides prices_of_sides)

lemma at_snoc:
  "at (L @ [ord]) s p = at L s p @ (if bo_side ord = s \<and> bo_price ord = p then [ord] else [])"
  by (simp add: at_def)

lemma prices_of_snoc:
  "prices_of (L @ [ord]) s = prices_of L s \<union> (if bo_side ord = s then {bo_price ord} else {})"
  by (auto simp: prices_of_def)

lemma level_of_other:
  "p \<noteq> bo_price ord \<Longrightarrow> level_of (L @ [ord]) s p = level_of L s p"
  by (simp add: level_of_def qty_at_def at_snoc)

lemma side_inv_snoc:
  assumes inv: "side_inv L s sd" and s: "bo_side ord = s" and p: "bo_price ord = p"
    and fits: "fits (qty_at (L @ [ord]) s p)"
  shows "side_inv (L @ [ord]) s (sd\<lparr>sd_levels := fmupd p (level_of (L @ [ord]) s p) (sd_levels sd),
    sd_prices := if p \<in> prices_of L s then sd_prices sd else insort p (sd_prices sd)\<rparr>)"
proof -
  have sorted: "sorted (sd_prices sd)" "distinct (sd_prices sd)"
    using inv by (simp_all add: side_inv_def strict_sorted_iff)
  have "sorted_wrt (<) (if p \<in> prices_of L s then sd_prices sd else insort p (sd_prices sd))"
    using inv sorted by (simp add: side_inv_def strict_sorted_iff sorted_insort distinct_insort)
  moreover have "fits (qty_at (L @ [ord]) s p')" for p'
    using fits inv p by (cases "p' = p") (auto simp: side_inv_def qty_at_def at_snoc)
  ultimately show ?thesis
    using inv s p level_of_other [of _ ord L s]
    by (auto simp: side_inv_def prices_of_snoc set_insort_key)
qed

lemma list_ok_at: "list_ok L \<Longrightarrow> distinct (map bo_id (at L s p))"
  by (simp add: list_ok_def at_def distinct_map_filter)

lemma at_drop_id: "at (drop_id i L) s p = drop_id i (at L s p)"
  by (simp add: at_def drop_id_def conj_commute)

lemma at_fill_id: "at (fill_id i q L) s p = fill_id i q (at L s p)"
  by (induction L) (auto simp: at_def fill_id_def)

lemma drop_id_absent: "i \<notin> bo_id ` set L \<Longrightarrow> drop_id i L = L"
  by (auto simp: drop_id_def filter_id_conv)

lemma fill_id_absent: "i \<notin> bo_id ` set L \<Longrightarrow> fill_id i q L = L"
  by (auto simp: fill_id_def intro!: map_idI)

lemma ids_drop_id: "distinct (map bo_id L) \<Longrightarrow> map bo_id (drop_id i L) = remove1 i (map bo_id L)"
  by (simp add: drop_id_def distinct_remove1_removeAll removeAll_filter_not_eq filter_map o_def
      eq_commute)

lemma ids_fill_id [simp]: "map bo_id (fill_id i q L) = map bo_id L"
  by (simp add: fill_id_def)

lemma sum_drop_id:
  "distinct (map bo_id L) \<Longrightarrow> ord \<in> set L \<Longrightarrow>
   sum_list (map f (drop_id (bo_id ord) L)) = sum_list (map f L) - (f ord :: int)"
proof (induction L)
  case (Cons x xs)
  show ?case
  proof (cases "x = ord")
    case True
    then have "drop_id (bo_id ord) xs = xs" using Cons.prems by (intro drop_id_absent) auto
    then show ?thesis using True by (simp add: drop_id_def)
  next
    case False
    then have "ord \<in> set xs" "bo_id x \<noteq> bo_id ord" using Cons.prems by force+
    then show ?thesis using Cons by (simp add: drop_id_def)
  qed
qed simp

lemma sum_fill_id:
  assumes "distinct (map bo_id L)" and "ord \<in> set L"
    and "ival (bo_rem ord - q) = ival (bo_rem ord) - ival q"
  shows "sum_list (map (\<lambda>x. ival (bo_rem x)) (fill_id (bo_id ord) q L)) =
    sum_list (map (\<lambda>x. ival (bo_rem x)) L) - ival q"
  using assms(1,2)
proof (induction L)
  case (Cons x xs)
  show ?case
  proof (cases "x = ord")
    case True
    then have "fill_id (bo_id ord) q xs = xs" using Cons.prems by (intro fill_id_absent) auto
    then show ?thesis using True assms(3) by (simp add: fill_id_def)
  next
    case False
    then have "ord \<in> set xs" "bo_id x \<noteq> bo_id ord" using Cons.prems by force+
    then show ?thesis using Cons by (simp add: fill_id_def)
  qed
qed simp

lemma order_ok_rem: "order_ok ord \<Longrightarrow> 0 < ival (bo_rem ord)"
  by (simp add: order_ok_def positive_def i64_order)

lemma order_ok_price: "order_ok ord \<Longrightarrow> 0 < ival (bo_price ord)"
  by (simp add: order_ok_def positive_def i64_order)

lemma qty_at_nonneg: "list_ok L \<Longrightarrow> 0 \<le> qty_at L s p"
  unfolding qty_at_def
  by (rule sum_list_nonneg) (auto simp: at_def dest!: list_okD(5) order_ok_rem)

lemma rem_le_qty_at:
  "list_ok L \<Longrightarrow> ord \<in> set (at L s p) \<Longrightarrow> ival (bo_rem ord) \<le> qty_at L s p"
  unfolding qty_at_def
  by (rule sum_list_nonneg_le) (auto simp: at_def intro: less_imp_le order_ok_rem list_okD(5))

lemma i64_of_diff: "i64_of (m - n) = i64_of m - i64_of n"
  by (simp add: i64_of_def minus_i64_def)

lemma list_ok_drop_id: "list_ok L \<Longrightarrow> list_ok (drop_id i L)"
  by (auto simp: list_ok_def drop_id_def distinct_map_filter sorted_wrt_map sorted_wrt_filter)

lemma qty_at_drop_id:
  assumes "list_ok L" and "ord \<in> set L"
  shows "qty_at (drop_id (bo_id ord) L) s p =
    qty_at L s p - (if bo_side ord = s \<and> bo_price ord = p then ival (bo_rem ord) else 0)"
proof (cases "bo_side ord = s \<and> bo_price ord = p")
  case True
  then have "ord \<in> set (at L s p)" using assms by (simp add: at_def)
  then show ?thesis
    using True sum_drop_id [OF list_ok_at [OF assms(1)]] by (simp add: qty_at_def at_drop_id)
next
  case False
  have "drop_id (bo_id ord) (at L s p) = at L s p"
  proof (rule drop_id_absent, rule notI)
    assume "bo_id ord \<in> bo_id ` set (at L s p)"
    then obtain y where "y \<in> set L" "bo_id y = bo_id ord" "bo_side y = s" "bo_price y = p"
      by (auto simp: at_def)
    then show False using False list_ok_unique_id [OF assms(1)] assms(2) by blast
  qed
  then show ?thesis using False by (auto simp: qty_at_def at_drop_id)
qed

lemma at_drop_id_other:
  assumes "list_ok L" and "ord \<in> set L" and "\<not> (bo_side ord = s \<and> bo_price ord = p)"
  shows "at (drop_id (bo_id ord) L) s p = at L s p"
proof -
  have "bo_id ord \<notin> bo_id ` set (at L s p)"
    using assms list_ok_unique_id [OF assms(1)] by (fastforce simp: at_def)
  then show ?thesis by (simp add: at_drop_id drop_id_absent)
qed

lemma side_inv_drop:
  assumes inv: "side_inv L s sd" and ok: "list_ok L" and ord: "ord \<in> set L"
    and s: "bo_side ord = s" and p: "bo_price ord = p"
  defines "L' \<equiv> drop_id (bo_id ord) L"
  shows "side_inv L' s (if at L' s p = []
     then sd\<lparr>sd_levels := fmdrop p (sd_levels sd), sd_prices := filter (\<lambda>x. x \<noteq> p) (sd_prices sd)\<rparr>
     else sd\<lparr>sd_levels := fmupd p (level_of L' s p) (sd_levels sd)\<rparr>)"
proof -
  have other: "at L' s p' = at L s p'" if "p' \<noteq> p" for p'
    using at_drop_id_other [OF ok ord] that p by (simp add: L'_def)
  have inp: "p \<in> prices_of L s" using ord s p by (auto simp: prices_of_def)
  have prices: "p' \<in> prices_of L' s \<longleftrightarrow> (if p' = p then at L' s p \<noteq> [] else p' \<in> prices_of L s)" for p'
    using other by (auto simp: in_prices_of_iff)
  have lev: "level_of L' s p' = level_of L s p'" if "p' \<noteq> p" for p'
    using other [OF that] by (simp add: level_of_def qty_at_def)
  have fits: "fits (qty_at L' s p')" for p'
  proof -
    have "qty_at L' s p' \<le> qty_at L s p'"
      using qty_at_drop_id [OF ok ord, of s p'] order_ok_rem [OF list_okD(5) [OF ok ord]]
      by (simp add: L'_def)
    moreover have "0 \<le> qty_at L' s p'"
      unfolding L'_def by (intro qty_at_nonneg list_ok_drop_id ok)
    moreover have "fits (qty_at L s p')" using inv by (simp add: side_inv_def)
    ultimately show ?thesis by (simp add: fits_def)
  qed
  have set: "set (filter (\<lambda>x. x \<noteq> p) (sd_prices sd)) = prices_of L' s" if "at L' s p = []"
    using inv prices that by (auto simp: side_inv_def split: if_splits)
  have set': "set (sd_prices sd) = prices_of L' s" if "at L' s p \<noteq> []"
    using inv prices that inp by (auto simp: side_inv_def split: if_splits)
  show ?thesis
  proof (cases "at L' s p = []")
    case True
    have "fmlookup (fmdrop p (sd_levels sd)) p' =
        (if p' \<in> prices_of L' s then Some (level_of L' s p') else None)" for p'
      using inv prices [of p'] lev [of p'] True by (simp add: side_inv_def)
    then show ?thesis using True inv fits set [OF True] by (simp add: side_inv_def sorted_wrt_filter)
  next
    case False
    have "fmlookup (fmupd p (level_of L' s p) (sd_levels sd)) p' =
        (if p' \<in> prices_of L' s then Some (level_of L' s p') else None)" for p'
      using inv prices [of p'] lev [of p'] False by (simp add: side_inv_def)
    then show ?thesis using False inv fits set' [OF False] by (simp add: side_inv_def)
  qed
qed

subsection \<open>The primitives of the code keep the invariant\<close>

lemma for_side_put [simp]:
  "for_side (put_side s sd b) s = sd"
  "for_side (b\<lparr>bk_orders := m\<rparr>) s = for_side b s"
  "bk_orders (put_side s sd b) = bk_orders b"
  by (simp_all add: for_side_def put_side_def)

lemma for_side_put_other:
  "(s = Buy) \<noteq> (s' = Buy) \<Longrightarrow> for_side (put_side s sd b) s' = for_side b s'"
  by (simp add: for_side_def put_side_def)

lemma book_inv_sides:
  "book_inv b \<longleftrightarrow> store_ok (bk_orders b) \<and>
     side_inv (live b) Buy (for_side b Buy) \<and> side_inv (live b) Sell (for_side b Sell)"
  by (simp add: book_inv_def for_side_def)

text \<open>Changing one side: the other side's view of the list must be unchanged.\<close>

lemma book_inv_update:
  assumes inv: "book_inv b" and ok: "store_ok m" and live: "live b' = L'"
    and s: "s = Buy \<or> s = Sell" and b': "b' = (put_side s sd b)\<lparr>bk_orders := m\<rparr>"
    and side: "side_inv L' s sd"
    and other: "\<And>s'. s' \<noteq> s \<Longrightarrow>
      filter (\<lambda>ord. bo_side ord = s') L' = filter (\<lambda>ord. bo_side ord = s') (live b)"
  shows "book_inv b'"
proof -
  have "side_inv L' s' (for_side b' s')" if "s' = Buy \<or> s' = Sell" for s'
  proof (cases "s' = s")
    case True
    then show ?thesis using side b' by simp
  next
    case False
    then have "for_side b' s' = for_side b s'"
      using s that b' by (auto simp: for_side_put_other)
    then show ?thesis
      using inv that side_inv_cong [OF other [OF False]] by (auto simp: book_inv_sides)
  qed
  then show ?thesis using ok live b' by (simp add: book_inv_sides)
qed

lemma list_ok_snoc:
  "list_ok L \<Longrightarrow> order_ok ord \<Longrightarrow> bo_id ord \<notin> bo_id ` set L \<Longrightarrow>
   \<forall>x \<in> set L. bo_seq x < bo_seq ord \<Longrightarrow> list_ok (L @ [ord])"
  by (auto simp: list_ok_def sorted_wrt_append)

lemma store_ok_upd:
  assumes "store_ok m" and "order_ok ord"
    and "\<And>i x. fmlookup m i = Some x \<Longrightarrow> i \<noteq> bo_id ord \<Longrightarrow> bo_seq x \<noteq> bo_seq ord"
  shows "store_ok (fmupd (bo_id ord) ord m)"
  unfolding store_ok_def
proof (intro conjI allI impI)
  fix i j x y
  assume a: "fmlookup (fmupd (bo_id ord) ord m) i = Some x"
    "fmlookup (fmupd (bo_id ord) ord m) j = Some y" "bo_seq x = bo_seq y"
  consider "i = bo_id ord" "j = bo_id ord" | "i = bo_id ord" "j \<noteq> bo_id ord"
    | "i \<noteq> bo_id ord" "j = bo_id ord" | "i \<noteq> bo_id ord" "j \<noteq> bo_id ord" by blast
  then show "i = j"
  proof cases
    case 2
    then show ?thesis using a assms(3) [of j y] by force
  next
    case 3
    then show ?thesis using a assms(3) [of i x] by force
  next
    case 4
    then have "fmlookup m i = Some x" "fmlookup m j = Some y" using a by simp_all
    then show ?thesis using store_ok_seq [OF assms(1)] a(3) by blast
  qed simp
next
  fix i x
  assume a: "fmlookup (fmupd (bo_id ord) ord m) i = Some x"
  have "x = ord \<and> i = bo_id ord \<or> fmlookup m i = Some x"
    using a by (auto split: if_splits)
  then show "bo_id x = i" and "order_ok x"
    using assms(2) store_okD [OF assms(1)] by blast+
qed

lemma store_ok_drop: "store_ok m \<Longrightarrow> store_ok (fmdrop i m)"
  by (auto simp: store_ok_def split: if_splits)

definition newest :: "book \<Rightarrow> book_order \<Rightarrow> bool" where
  "newest b ord \<longleftrightarrow> fmlookup (bk_orders b) (bo_id ord) = None \<and>
     (\<forall>x \<in> set (live b). bo_seq x < bo_seq ord)"

lemma ran_fmupd_fresh:
  "fmlookup m i = None \<Longrightarrow> fmran' (fmupd i x m) = insert x (fmran' m)"
  by (auto simp: fmlookup_ran'_iff split: if_splits) (metis option.distinct(1))

lemma fresh_not_live:
  "store_ok (bk_orders b) \<Longrightarrow> fmlookup (bk_orders b) i = None \<Longrightarrow> i \<notin> bo_id ` set (live b)"
  using live_lookup [of b i] by fastforce

lemma rest_Inr:
  assumes inv: "book_inv b" and ord: "order_ok ord" and new: "newest b ord"
    and r: "rest b ord = Inr b'"
  shows "book_inv b'" and "live b' = live b @ [ord]"
proof -
  define s p L where "s = bo_side ord" and "p = bo_price ord" and "L = live b"
  define sd where "sd = for_side b s"
  have s: "s = Buy \<or> s = Sell" using ord by (auto simp: order_ok_def s_def)
  have store: "store_ok (bk_orders b)" using inv by (simp add: book_inv_def)
  have side: "side_inv L s sd" unfolding L_def sd_def by (rule book_inv_side [OF inv s])
  have lok: "list_ok (L @ [ord])"
    using new ord fresh_not_live [OF store] list_ok_live [OF store]
    by (intro list_ok_snoc) (auto simp: L_def newest_def)
  define sd' where "sd' = sd\<lparr>sd_levels := fmupd p (level_of (L @ [ord]) s p) (sd_levels sd),
    sd_prices := if p \<in> prices_of L s then sd_prices sd else insort p (sd_prices sd)\<rparr>"
  have *: "fits (qty_at (L @ [ord]) s p) \<and>
      b' = (put_side s sd' b)\<lparr>bk_orders := fmupd (bo_id ord) ord (bk_orders b)\<rparr>"
  proof (cases "p \<in> prices_of L s")
    case True
    then have l: "fmlookup (sd_levels sd) p = Some (level_of L s p)"
      using side by (simp add: side_inv_def)
    have f: "fits (qty_at L s p)" using side by (simp add: side_inv_def)
    from r l obtain q where q: "add_qty (i64_of (qty_at L s p)) (bo_rem ord) = Inr q"
      and b': "b' = (put_side s (sd\<lparr>sd_levels := fmupd p \<lparr>lv_price = p,
        lv_queue = map bo_id (at L s p) @ [bo_id ord], lv_qty = q\<rparr> (sd_levels sd),
        sd_prices := sd_prices sd\<rparr>) b)\<lparr>bk_orders := fmupd (bo_id ord) ord (bk_orders b)\<rparr>"
      by (auto simp: rest_def Let_def s_def p_def sd_def level_of_def)
    have "fits (qty_at L s p + ival (bo_rem ord)) \<and> q = i64_of (qty_at L s p + ival (bo_rem ord))"
      using q f by (simp add: exactly_iff [OF add_qty_exact] ival_i64_of)
    then show ?thesis
      using True b' by (simp add: sd'_def level_of_def qty_at_def at_snoc s_def p_def)
  next
    case False
    then have l: "fmlookup (sd_levels sd) p = None" and e: "at L s p = []"
      using side by (simp_all add: side_inv_def in_prices_of_iff)
    have srt: "sorted (sd_prices sd)" using side by (simp add: side_inv_def strict_sorted_iff)
    from r l have "b' = (put_side s (sd\<lparr>sd_levels := fmupd p \<lparr>lv_price = p,
        lv_queue = [bo_id ord], lv_qty = bo_rem ord\<rparr> (sd_levels sd),
        sd_prices := insort p (sd_prices sd)\<rparr>) b)\<lparr>bk_orders := fmupd (bo_id ord) ord (bk_orders b)\<rparr>"
      by (auto simp: rest_def Let_def s_def p_def sd_def
          insert_price_eq_insort [OF srt [unfolded sd_def s_def]])
    then show ?thesis
      using False e by (simp add: sd'_def level_of_def qty_at_def at_snoc s_def p_def)
  qed
  have "bo_seq x < bo_seq ord" if "fmlookup (bk_orders b) i = Some x" for i x
    using new fmran'I [OF that] by (simp add: newest_def)
  then have "store_ok (fmupd (bo_id ord) ord (bk_orders b))"
    by (intro store_ok_upd [OF store ord]) fastforce
  then have store': "store_ok (bk_orders b')" using * by simp
  show live': "live b' = live b @ [ord]"
    using store' lok * new by (intro live_unique) (auto simp: L_def newest_def ran_fmupd_fresh)
  show "book_inv b'"
  proof (rule book_inv_update [OF inv, where s = s and sd = sd' and L' = "L @ [ord]"])
    show "store_ok (fmupd (bo_id ord) ord (bk_orders b))" using store' * by simp
    show "live b' = L @ [ord]" using live' L_def by simp
    show "b' = (put_side s sd' b)\<lparr>bk_orders := fmupd (bo_id ord) ord (bk_orders b)\<rparr>"
      using * by simp
    show "side_inv (L @ [ord]) s sd'"
      unfolding sd'_def using side * by (intro side_inv_snoc) (auto simp: s_def p_def)
  qed (use s in \<open>auto simp: L_def s_def\<close>)
qed

lemma rest_fits:
  assumes inv: "book_inv b" and ord: "order_ok ord"
    and fits: "fits (qty_at (live b @ [ord]) (bo_side ord) (bo_price ord))"
  shows "\<exists>b'. rest b ord = Inr b'"
proof -
  have s: "bo_side ord = Buy \<or> bo_side ord = Sell" using ord by (auto simp: order_ok_def)
  note side = book_inv_side [OF inv s]
  show ?thesis
  proof (cases "bo_price ord \<in> prices_of (live b) (bo_side ord)")
    case True
    have f: "fits (qty_at (live b) (bo_side ord) (bo_price ord))"
      using side by (simp add: side_inv_def)
    have "\<exists>q. add_qty (i64_of (qty_at (live b) (bo_side ord) (bo_price ord))) (bo_rem ord) = Inr q"
      using fits f
      by (simp add: exactly_iff [OF add_qty_exact] ival_i64_of qty_at_def at_snoc)
    then show ?thesis using True side by (auto simp: rest_def Let_def side_inv_def level_of_def)
  next
    case False
    then show ?thesis using side by (simp add: rest_def Let_def side_inv_def)
  qed
qed


text \<open>Unlinking a node is \<open>drop_id\<close>, a partial execution is \<open>fill_id\<close>.\<close>

lemma ran_drop:
  assumes "store_ok m"
  shows "fmran' (fmdrop i m) = {ord \<in> fmran' m. bo_id ord \<noteq> i}"
  using store_okD(1) [OF assms] by (fastforce simp: fmlookup_ran'_iff split: if_splits)

lemma remove_order_inv:
  assumes inv: "book_inv b"
  shows "book_inv (remove_order b i)" and "live (remove_order b i) = drop_id i (live b)"
proof -
  have store: "store_ok (bk_orders b)" using inv by (simp add: book_inv_def)
  note lok = list_ok_live [OF store]
  show lv: "live (remove_order b i) = drop_id i (live b)"
    using ran_drop [OF store, of i] list_ok_drop_id [OF lok]
    by (intro live_unique) (auto simp: store_ok_drop store drop_id_def)
  show "book_inv (remove_order b i)"
  proof (cases "fmlookup (bk_orders b) i")
    case None
    then show ?thesis using inv by (simp add: remove_order_def)
  next
    case (Some ord)
    define s p L where "s = bo_side ord" and "p = bo_price ord" and "L = live b"
    define sd where "sd = for_side b s"
    let ?L' = "drop_id i L"
    have i: "i = bo_id ord" using store_okD(1) [OF store Some] by simp
    have mem: "ord \<in> set L" using live_lookup [OF store] Some by (simp add: L_def)
    have s: "s = Buy \<or> s = Sell" using store_okD(2) [OF store Some] by (simp add: order_ok_def s_def)
    have side: "side_inv L s sd" unfolding L_def sd_def by (rule book_inv_side [OF inv s])
    have l: "fmlookup (sd_levels sd) p = Some (level_of L s p)"
      using side mem by (auto simp: side_inv_def prices_of_def s_def p_def)
    have q: "remove1 i (map bo_id (at L s p)) = map bo_id (at ?L' s p)"
      using ids_drop_id [OF list_okD(1) [OF lok]] list_ok_at [OF lok]
      by (simp add: at_drop_id ids_drop_id L_def)
    have amount: "i64_of (qty_at L s p) - bo_rem ord = i64_of (qty_at ?L' s p)"
      using qty_at_drop_id [OF lok [folded L_def] mem, of s p] i
      by (simp add: s_def p_def i64_of_diff)
    define sd' where "sd' = (if at ?L' s p = []
      then sd\<lparr>sd_levels := fmdrop p (sd_levels sd), sd_prices := filter (\<lambda>x. x \<noteq> p) (sd_prices sd)\<rparr>
      else sd\<lparr>sd_levels := fmupd p (level_of ?L' s p) (sd_levels sd)\<rparr>)"
    have srt: "sorted_wrt (<) (sd_prices sd)" using side by (simp add: side_inv_def)
    have b': "remove_order b i = (put_side s sd' b)\<lparr>bk_orders := fmdrop i (bk_orders b)\<rparr>"
      using l q amount remove_price_eq_filter [OF srt] Some
      by (auto simp: remove_order_def Let_def sd'_def level_of_def put_side_def
          simp flip: s_def p_def sd_def)
    show ?thesis
    proof (rule book_inv_update [OF inv store_ok_drop [OF store] _ s b'])
      show "live (remove_order b i) = ?L'" using lv by (simp add: L_def)
      show "side_inv ?L' s sd'"
        unfolding sd'_def i
        by (rule side_inv_drop [OF side lok [folded L_def] mem s_def [symmetric] p_def [symmetric]])
      show "filter (\<lambda>ord. bo_side ord = s') ?L' = filter (\<lambda>ord. bo_side ord = s') (live b)"
        if "s' \<noteq> s" for s'
      proof -
        have "x \<in> set L \<Longrightarrow> bo_id x = i \<Longrightarrow> x = ord" for x
          using i mem list_ok_unique_id [OF lok [folded L_def]] by blast
        then show ?thesis using that by (auto simp: drop_id_def L_def s_def intro!: filter_cong)
      qed
    qed
  qed
qed

lemma list_ok_fill_id:
  assumes "list_ok L" and "ord \<in> set L" and "0 < ival q" and "ival q < ival (bo_rem ord)"
  shows "list_ok (fill_id (bo_id ord) q L)"
proof -
  have "ival (bo_rem ord - q) = ival (bo_rem ord) - ival q"
    using assms(3,4) ival_range [of "bo_rem ord"] by (simp add: ival_arith fits_def)
  then have rem: "positive (bo_rem ord - q)" using assms(4) by (simp add: positive_def i64_order)
  have seqs: "map bo_seq (fill_id (bo_id ord) q L) = map bo_seq L" by (simp add: fill_id_def)
  have "order_ok x" if x: "x \<in> set (fill_id (bo_id ord) q L)" for x
  proof -
    from x obtain y where y: "y \<in> set L"
      and xy: "x = (if bo_id y = bo_id ord then y\<lparr>bo_rem := bo_rem y - q\<rparr> else y)"
      by (auto simp: fill_id_def)
    show ?thesis
    proof (cases "bo_id y = bo_id ord")
      case True
      then have "y = ord" using list_ok_unique_id [OF assms(1) y assms(2)] by simp
      then show ?thesis using xy rem list_okD(5) [OF assms(1,2)] by (simp add: order_ok_def)
    next
      case False
      then show ?thesis using xy list_okD(5) [OF assms(1) y] by simp
    qed
  qed
  then show ?thesis
    using assms(1) unfolding list_ok_def seqs ids_fill_id by blast
qed

lemma prices_of_fill_id [simp]: "prices_of (fill_id i q L) s = prices_of L s"
  by (rule set_eqI) (simp add: in_prices_of_iff at_fill_id, simp add: fill_id_def)

lemma filter_side_fill_id:
  assumes "\<And>x. x \<in> set L \<Longrightarrow> bo_id x = i \<Longrightarrow> bo_side x \<noteq> s'"
  shows "filter (\<lambda>ord. bo_side ord = s') (fill_id i q L) = filter (\<lambda>ord. bo_side ord = s') L"
  using assms by (induction L) (auto simp: fill_id_def)

lemma at_fill_id_other:
  assumes "list_ok L" and "ord \<in> set L" and "\<not> (bo_side ord = s \<and> bo_price ord = p)"
  shows "at (fill_id (bo_id ord) q L) s p = at L s p"
proof -
  have "bo_id ord \<notin> bo_id ` set (at L s p)"
    using assms list_ok_unique_id [OF assms(1)] by (fastforce simp: at_def)
  then show ?thesis by (simp add: at_fill_id fill_id_absent)
qed

lemma side_inv_fill:
  assumes inv: "side_inv L s sd" and ok: "list_ok L" and ord: "ord \<in> set L"
    and s: "bo_side ord = s" and p: "bo_price ord = p"
    and q: "0 < ival q" "ival q < ival (bo_rem ord)"
  defines "L' \<equiv> fill_id (bo_id ord) q L"
  shows "side_inv L' s (sd\<lparr>sd_levels := fmupd p (level_of L' s p) (sd_levels sd)\<rparr>)"
    and "qty_at L' s p = qty_at L s p - ival q"
proof -
  have mem: "ord \<in> set (at L s p)" using ord s p by (simp add: at_def)
  have "ival (bo_rem ord - q) = ival (bo_rem ord) - ival q"
    using q ival_range [of "bo_rem ord"] by (simp add: ival_arith fits_def)
  then show qty: "qty_at L' s p = qty_at L s p - ival q"
    using sum_fill_id [OF list_ok_at [OF ok] mem] by (simp add: qty_at_def at_fill_id L'_def)
  have other: "at L' s p' = at L s p'" if "p' \<noteq> p" for p'
    using at_fill_id_other [OF ok ord] that p by (simp add: L'_def)
  then have lev: "level_of L' s p' = level_of L s p'" if "p' \<noteq> p" for p'
    using that by (simp add: level_of_def qty_at_def)
  have "fits (qty_at L' s p')" for p'
  proof (cases "p' = p")
    case True
    have "fits (qty_at L s p)" using inv by (simp add: side_inv_def)
    then show ?thesis using True qty q rem_le_qty_at [OF ok mem] by (simp add: fits_def)
  next
    case False
    then show ?thesis using inv other by (simp add: side_inv_def qty_at_def)
  qed
  moreover have "prices_of L' s = prices_of L s" by (simp add: L'_def)
  moreover have "p \<in> prices_of L s" using ord s p by (auto simp: prices_of_def)
  ultimately show "side_inv L' s (sd\<lparr>sd_levels := fmupd p (level_of L' s p) (sd_levels sd)\<rparr>)"
    using inv lev by (simp add: side_inv_def)
qed

lemma ran_upd:
  assumes "store_ok m" and "fmlookup m (bo_id ord) = Some ord" and "bo_id ord' = bo_id ord"
  shows "fmran' (fmupd (bo_id ord) ord' m) =
    (\<lambda>x. if bo_id x = bo_id ord then ord' else x) ` fmran' m"
proof (intro set_eqI iffI)
  fix x
  assume "x \<in> fmran' (fmupd (bo_id ord) ord' m)"
  then obtain j where j: "fmlookup (fmupd (bo_id ord) ord' m) j = Some x" by (rule fmran'E)
  show "x \<in> (\<lambda>x. if bo_id x = bo_id ord then ord' else x) ` fmran' m"
  proof (cases "j = bo_id ord")
    case True
    then show ?thesis using j assms(2) by (auto intro!: image_eqI [of _ _ ord] intro: fmran'I)
  next
    case False
    then have "fmlookup m j = Some x" using j by simp
    then show ?thesis
      using False store_okD(1) [OF assms(1)] by (auto intro!: image_eqI [of _ _ x] intro: fmran'I)
  qed
next
  fix x
  assume "x \<in> (\<lambda>x. if bo_id x = bo_id ord then ord' else x) ` fmran' m"
  then obtain y where y: "y \<in> fmran' m" and x: "x = (if bo_id y = bo_id ord then ord' else y)"
    by auto
  from y obtain j where j: "fmlookup m j = Some y" by (rule fmran'E)
  then have "j = bo_id y" using store_okD(1) [OF assms(1) j] by simp
  then have "fmlookup (fmupd (bo_id ord) ord' m) j = Some x" using x j by auto
  then show "x \<in> fmran' (fmupd (bo_id ord) ord' m)" by (rule fmran'I)
qed

lemma reduce_order_inv:
  assumes inv: "book_inv b" and i: "fmlookup (bk_orders b) i = Some ord"
    and q: "0 < ival q" "ival q < ival (bo_rem ord)"
  shows "book_inv (reduce_order b i q)" and "live (reduce_order b i q) = fill_id i q (live b)"
proof -
  define s p L where "s = bo_side ord" and "p = bo_price ord" and "L = live b"
  define sd where "sd = for_side b s"
  define ord' where "ord' = ord\<lparr>bo_rem := bo_rem ord - q\<rparr>"
  let ?L' = "fill_id i q L"
  have store: "store_ok (bk_orders b)" using inv by (simp add: book_inv_def)
  have id: "bo_id ord = i" using store_okD(1) [OF store i] .
  have lok: "list_ok L" unfolding L_def by (rule list_ok_live [OF store])
  have mem: "ord \<in> set L" using i by (auto simp: L_def intro: fmran'I)
  have lok': "list_ok ?L'" using list_ok_fill_id [OF lok mem q] by (simp add: id)
  have sides: "s = Buy \<or> s = Sell" using list_okD(5) [OF lok mem] by (simp add: order_ok_def s_def)
  have side: "side_inv L s sd" unfolding L_def sd_def by (rule book_inv_side [OF inv sides])
  have l: "fmlookup (sd_levels sd) p = Some (level_of L s p)"
    using side mem by (auto simp: side_inv_def prices_of_def s_def p_def)
  note fill = side_inv_fill [OF side lok mem s_def [symmetric] p_def [symmetric] q, unfolded id]
  have m': "bk_orders (reduce_order b i q) = fmupd i ord' (bk_orders b)"
    by (simp add: bk_orders_reduce i ord'_def)
  have ok': "order_ok ord'"
    using list_okD(5) [OF lok' , of ord'] mem id by (auto simp: fill_id_def ord'_def image_iff)
  have "store_ok (fmupd (bo_id ord') ord' (bk_orders b))"
  proof (rule store_ok_upd [OF store ok'])
    show "bo_seq x \<noteq> bo_seq ord'" if "fmlookup (bk_orders b) j = Some x" "j \<noteq> bo_id ord'" for j x
      using store_ok_seq [OF store that(1) i] that(2) id by (auto simp: ord'_def)
  qed
  then have store': "store_ok (fmupd i ord' (bk_orders b))" by (simp add: ord'_def id)
  have "set ?L' = fmran' (fmupd i ord' (bk_orders b))"
    using ran_upd [OF store, of ord ord'] i id list_ok_unique_id [OF lok _ mem]
    by (force simp: fill_id_def ord'_def L_def intro!: image_cong)
  then show lv: "live (reduce_order b i q) = fill_id i q (live b)"
    using lok' store' m' by (intro live_unique) (simp_all add: L_def)
  define sd' where "sd' = sd\<lparr>sd_levels := fmupd p (level_of ?L' s p) (sd_levels sd)\<rparr>"
  have b': "reduce_order b i q = (put_side s sd' b)\<lparr>bk_orders := fmupd i ord' (bk_orders b)\<rparr>"
    using l i fill(2)
    by (simp add: reduce_order_def Let_def sd'_def level_of_def put_side_def ord'_def i64_of_diff
        at_fill_id flip: s_def p_def sd_def)
  show "book_inv (reduce_order b i q)"
  proof (rule book_inv_update [OF inv store' _ sides b'])
    show "live (reduce_order b i q) = ?L'" using lv by (simp add: L_def)
    show "side_inv ?L' s sd'" unfolding sd'_def by (rule fill(1))
    show "filter (\<lambda>ord. bo_side ord = s') ?L' = filter (\<lambda>ord. bo_side ord = s') (live b)"
      if "s' \<noteq> s" for s'
      unfolding L_def [symmetric]
      using that list_ok_unique_id [OF lok _ mem] id by (intro filter_side_fill_id) (auto simp: s_def)
  qed
qed

lemma remove_after_reduce:
  assumes inv: "book_inv b" and i: "fmlookup (bk_orders b) i = Some ord"
  shows "remove_order (reduce_order b i q) i = remove_order b i"
proof -
  have store: "store_ok (bk_orders b)" using inv by (simp add: book_inv_def)
  have lok: "list_ok (live b)" by (rule list_ok_live [OF store])
  have mem: "ord \<in> set (live b)" using i by (auto intro: fmran'I)
  have sides: "bo_side ord = Buy \<or> bo_side ord = Sell"
    using list_okD(5) [OF lok mem] by (simp add: order_ok_def)
  have "side_inv (live b) (bo_side ord) (for_side b (bo_side ord))"
    by (rule book_inv_side [OF inv sides])
  then have l: "fmlookup (sd_levels (for_side b (bo_side ord))) (bo_price ord) =
      Some (level_of (live b) (bo_side ord) (bo_price ord))"
    using mem by (auto simp: side_inv_def prices_of_def)
  have drop: "fmdrop i (fmupd i x m) = fmdrop i m" for x :: book_order and m
    by (rule fmap_ext) simp
  have drop': "fmdrop k (fmupd k x m) = fmdrop k m" for k and x :: level and m
    by (rule fmap_ext) simp
  have upd: "fmupd k x (fmupd k y m) = fmupd k x m" for k and x y :: level and m
    by (rule fmap_ext) simp
  show ?thesis
    using l sides
    by (auto simp: remove_order_def reduce_order_def i Let_def put_side_def drop drop' upd
        for_side_def level_of_def)
qed

end
