(* ===== verification/Book_Match.thy ===== *)
theory Book_Match
  imports Book_Inv
begin

text \<open>
  The contract of the matching engine. \<open>sweep\<close> is the textbook price-time priority auction
  over a plain list: the crossing makers, best price first and oldest first within a price,
  are filled one after another until the taker is exhausted. \<open>match_loop\<close>, which works on
  levels, queues and price indices, is shown to compute exactly that, so what holds of
  \<open>sweep\<close> holds of the code: fills conserve quantity, no maker is skipped, nobody trades
  with himself and the book that is left is not crossed.
\<close>

subsection \<open>The specification\<close>

definition rank :: "side \<Rightarrow> book_order \<Rightarrow> int" where
  "rank taker_side m = (if taker_side = Buy then ival (bo_price m) else - ival (bo_price m))"

definition crosses :: "book_order \<Rightarrow> book_order \<Rightarrow> bool" where
  "crosses t m \<longleftrightarrow>
     (bo_side t = Buy \<and> bo_side m = Sell \<and> bo_price m \<le> bo_price t) \<or>
     (bo_side t = Sell \<and> bo_side m = Buy \<and> bo_price m \<ge> bo_price t)"

definition prio :: "book_order list \<Rightarrow> book_order \<Rightarrow> book_order list" where
  "prio L t = sort_key (rank (bo_side t)) (filter (crosses t) L)"

definition fill_of :: "book_order \<Rightarrow> book_order \<Rightarrow> fill" where
  "fill_of m t = \<lparr>fl_maker = m, fl_taker = t, fl_price = bo_price m,
     fl_qty = min (bo_rem m) (bo_rem t)\<rparr>"

definition after :: "book_order \<Rightarrow> qty \<Rightarrow> book_order" where
  "after ord q = ord\<lparr>bo_rem := bo_rem ord - q\<rparr>"

fun sweep :: "book_order list \<Rightarrow> book_order \<Rightarrow> fill list \<times> book_order" where
  "sweep [] t = ([], t)"
| "sweep (m # ms) t =
     (if bo_rem t > 0
      then let f = fill_of m t; (fs, t') = sweep ms (after t (fl_qty f)) in (f # fs, t')
      else ([], t))"

definition exhausts :: "fill \<Rightarrow> bool" where
  "exhausts f \<longleftrightarrow> fl_qty f = bo_rem (fl_maker f)"

definition apply_fill :: "book_order list \<Rightarrow> fill \<Rightarrow> book_order list" where
  "apply_fill L f = (if exhausts f then drop_id (bo_id (fl_maker f)) L
     else fill_id (bo_id (fl_maker f)) (fl_qty f) L)"

definition apply_fills :: "fill list \<Rightarrow> book_order list \<Rightarrow> book_order list" where
  "apply_fills fs L = foldl apply_fill L fs"

definition completed_of :: "fill list \<Rightarrow> book_order list" where
  "completed_of fs = map (\<lambda>f. after (fl_maker f) (fl_qty f)) (filter exhausts fs)"

definition submit_spec :: "book_order list \<Rightarrow> book_order \<Rightarrow> book_order list \<times> report" where
  "submit_spec L ord =
     (let t = ord\<lparr>bo_rem := bo_qty ord\<rparr>;
          (fs, t') = sweep (prio L t) t;
          L' = apply_fills fs L;
          rp = \<lparr>rp_accepted = t, rp_fills = fs, rp_resting = None, rp_expired = None,
                rp_completed = completed_of fs\<rparr>
      in if bo_rem t' = 0 then (L', rp\<lparr>rp_completed := completed_of fs @ [t']\<rparr>)
         else if bo_tif t' = IOC then (L', rp\<lparr>rp_expired := Some t'\<rparr>)
         else (L' @ [t'], rp\<lparr>rp_resting := Some t'\<rparr>))"

subsection \<open>The best crossing order is the head of the priority list\<close>

lemma sort_key_head:
  assumes "sort_key f xs = y # ys"
  shows "y \<in> set xs" and "x \<in> set xs \<Longrightarrow> f y \<le> f x" and "\<exists>zs. filter (\<lambda>x. f x = f y) xs = y # zs"
proof -
  have set: "set xs = insert y (set ys)" using assms by (metis list.simps(15) set_sort)
  then show "y \<in> set xs" by simp
  have "sorted (map f (y # ys))" using assms by (metis sorted_sort_key)
  then show "f y \<le> f x" if "x \<in> set xs" using set that by auto
  have "filter (\<lambda>x. f x = f y) (sort_key f xs) = filter (\<lambda>x. f x = f y) xs"
    by (rule sort_key_stable)
  then have "filter (\<lambda>x. f x = f y) xs = y # filter (\<lambda>x. f x = f y) ys"
    unfolding assms by simp
  then show "\<exists>zs. filter (\<lambda>x. f x = f y) xs = y # zs" by blast
qed

lemma sorted_last: "sorted xs \<Longrightarrow> x \<in> set xs \<Longrightarrow> x \<le> last xs"
  by (induction xs) auto

lemma best_is_least:
  assumes "side_inv L s sd" and "p \<in> prices_of L s"
    and "\<And>p'. p' \<in> prices_of L s \<Longrightarrow> if s = Buy then p' \<le> p else p \<le> p'"
  shows "best sd = p"
proof -
  have srt: "sorted (sd_prices sd)" and set: "set (sd_prices sd) = prices_of L s"
    and buy: "sd_buy sd = (s = Buy)"
    using assms(1) by (simp_all add: side_inv_def strict_sorted_iff)
  have ne: "sd_prices sd \<noteq> []" using set assms(2) by auto
  show ?thesis
  proof (cases "s = Buy")
    case True
    have "last (sd_prices sd) \<le> p" using assms(3) True ne set by (metis last_in_set)
    moreover have "p \<le> last (sd_prices sd)" using srt assms(2) set by (simp add: sorted_last)
    ultimately show ?thesis using True buy ne by (simp add: best_def)
  next
    case False
    have "p \<le> hd (sd_prices sd)" using assms(3) False ne set by (metis hd_in_set)
    moreover have "hd (sd_prices sd) \<le> p"
      using srt ne assms(2) unfolding set [symmetric] by (cases "sd_prices sd") auto
    ultimately show ?thesis using False buy ne by (simp add: best_def)
  qed
qed

lemma best_is_live:
  assumes "side_inv L s sd" and "sd_prices sd \<noteq> []"
  shows "best sd \<in> prices_of L s"
  using assms by (auto simp: best_def side_inv_def)

definition opposite :: "side \<Rightarrow> side" where
  "opposite s = (if s = Sell then Buy else Sell)"

lemma crosses_opposite:
  assumes "bo_side t = Buy \<or> bo_side t = Sell"
  shows "crosses t m \<longleftrightarrow> bo_side m = opposite (bo_side t) \<and>
    (if bo_side t = Buy then bo_price m \<le> bo_price t else bo_price t \<le> bo_price m)"
  using assms by (auto simp: crosses_def opposite_def)

lemma prio_Cons:
  assumes "prio L t = m # ms" and t: "bo_side t = Buy \<or> bo_side t = Sell"
  shows "m \<in> set L" and "crosses t m" and "x \<in> set L \<Longrightarrow> crosses t x \<Longrightarrow> rank (bo_side t) m \<le> rank (bo_side t) x"
    and "\<exists>zs. at L (opposite (bo_side t)) (bo_price m) = m # zs"
proof -
  note h = sort_key_head [OF assms(1) [unfolded prio_def]]
  show "m \<in> set L" and cm: "crosses t m" using h(1) by auto
  show "rank (bo_side t) m \<le> rank (bo_side t) x" if "x \<in> set L" "crosses t x"
    using h(2) [of x] that by simp
  have "rank (bo_side t) x = rank (bo_side t) m \<longleftrightarrow> bo_price x = bo_price m" for x
    by (auto simp: rank_def ival_inject)
  then have "filter (\<lambda>x. rank (bo_side t) x = rank (bo_side t) m) (filter (crosses t) L) =
      at L (opposite (bo_side t)) (bo_price m)"
    using cm by (auto simp: at_def crosses_opposite [OF t] intro!: filter_cong)
  then show "\<exists>zs. at L (opposite (bo_side t)) (bo_price m) = m # zs" using h(3) by simp
qed

lemma best_crossing_prio:
  assumes inv: "book_inv b" and t: "bo_side t = Buy \<or> bo_side t = Sell"
  shows "best_crossing b (bo_side t) (bo_price t) =
    Inr (case prio (live b) t of [] \<Rightarrow> None | m # _ \<Rightarrow> Some (bo_id m))"
proof -
  define s L where "s = opposite (bo_side t)" and "L = live b"
  define sd where "sd = for_side b s"
  have sd: "(if bo_side t = Sell then bk_bids b else bk_asks b) = sd"
    by (simp add: sd_def s_def opposite_def for_side_def)
  have side: "side_inv L s sd"
    unfolding L_def sd_def by (rule book_inv_side [OF inv]) (simp add: s_def opposite_def)
  have lok: "list_ok L" unfolding L_def by (rule book_inv_list_ok [OF inv])
  have pos: "0 < p" if "p \<in> prices_of L s" for p
    using that list_okD(5) [OF lok] by (auto simp: prices_of_def order_ok_def positive_def)
  show ?thesis
  proof (cases "prio (live b) t")
    case Nil
    have none: "\<not> crosses t x" if "x \<in> set L" for x
    proof -
      have "set (prio L t) = {}" using Nil by (simp add: L_def)
      then show ?thesis using that by (auto simp: prio_def simp del: set_empty)
    qed
    show ?thesis
    proof (cases "sd_prices sd = []")
      case True
      then show ?thesis using Nil by (simp add: best_crossing_def sd best_def)
    next
      case False
      obtain x where "x \<in> set L" "bo_side x = s" "best sd = bo_price x"
        using best_is_live [OF side False] by (auto simp: prices_of_def)
      then have "(bo_side t = Buy \<and> best sd > bo_price t) \<or> (bo_side t = Sell \<and> best sd < bo_price t)"
        using none t by (auto simp: crosses_opposite s_def not_le)
      then show ?thesis using Nil by (simp add: best_crossing_def sd Let_def)
    qed
  next
    case (Cons m ms)
    note m = prio_Cons [OF Cons [folded L_def] t]
    have in_s: "bo_side m = s" using m(2) by (simp add: crosses_opposite [OF t] s_def)
    have p: "bo_price m \<in> prices_of L s" using m(1) in_s by (auto simp: prices_of_def)
    have bst: "best sd = bo_price m"
    proof (rule best_is_least [OF side p])
      fix p' assume "p' \<in> prices_of L s"
      then obtain x where x: "x \<in> set L" "bo_side x = s" "p' = bo_price x"
        by (auto simp: prices_of_def)
      show "if s = Buy then p' \<le> bo_price m else bo_price m \<le> p'"
      proof (cases "crosses t x")
        case True
        then show ?thesis
          using m(3) [OF x(1)] t x by (auto simp: rank_def s_def opposite_def i64_order)
      next
        case False
        then show ?thesis
          using m(2) t x by (auto simp: crosses_opposite [OF t] s_def opposite_def)
      qed
    qed
    have "fmlookup (sd_levels sd) (bo_price m) = Some (level_of L s (bo_price m))"
      using side p by (simp add: side_inv_def)
    moreover obtain zs where "at L s (bo_price m) = m # zs" using m(4) by (auto simp: s_def)
    moreover have "bo_price m \<noteq> 0" using pos [OF p] by auto
    moreover have "\<not> (bo_side t = Buy \<and> bo_price m > bo_price t)"
      "\<not> (bo_side t = Sell \<and> bo_price m < bo_price t)"
      using m(2) by (auto simp: crosses_def)
    ultimately show ?thesis
      using Cons by (auto simp: best_crossing_def sd Let_def bst level_of_def)
  qed
qed

subsection \<open>The loop computes the sweep\<close>

lemma after_sel [simp]:
  "bo_id (after ord q) = bo_id ord" "bo_side (after ord q) = bo_side ord"
  "bo_price (after ord q) = bo_price ord" "bo_owner (after ord q) = bo_owner ord"
  "bo_seq (after ord q) = bo_seq ord" "bo_tif (after ord q) = bo_tif ord"
  "bo_qty (after ord q) = bo_qty ord" "bo_rem (after ord q) = bo_rem ord - q"
  by (simp_all add: after_def)

lemma prio_after [simp]: "prio L (after t q) = prio L t"
  by (simp add: prio_def crosses_def [abs_def])

lemma fill_of_sel [simp]:
  "fl_maker (fill_of m t) = m" "fl_taker (fill_of m t) = t"
  "fl_price (fill_of m t) = bo_price m" "fl_qty (fill_of m t) = min (bo_rem m) (bo_rem t)"
  by (simp_all add: fill_of_def)

lemma set_prio: "set (prio L t) = {m \<in> set L. crosses t m}"
  by (simp add: prio_def)

lemma distinct_prio: "list_ok L \<Longrightarrow> distinct (map bo_id (prio L t))"
proof -
  assume "list_ok L"
  then have "distinct (map bo_id (filter (crosses t) L))"
    by (simp add: list_ok_def distinct_map_filter)
  moreover have "mset (map bo_id (prio L t)) = mset (map bo_id (filter (crosses t) L))"
    by (simp add: prio_def)
  ultimately show ?thesis using mset_eq_imp_distinct_iff by blast
qed

lemma prio_drop:
  assumes "list_ok L" and "prio L t = m # ms"
  shows "prio (drop_id (bo_id m) L) t = ms"
proof -
  have "prio (drop_id (bo_id m) L) t = drop_id (bo_id m) (prio L t)"
    by (simp add: prio_def drop_id_def filter_sort conj_commute)
  also have "\<dots> = drop_id (bo_id m) ms" using assms(2) by (simp add: drop_id_def)
  also have "\<dots> = ms"
    using distinct_prio [OF assms(1), of t] assms(2) by (intro drop_id_absent) auto
  finally show ?thesis .
qed

lemma ival_sub_le: "0 \<le> ival q \<Longrightarrow> ival q \<le> ival r \<Longrightarrow> ival (r - q) = ival r - ival q"
  using ival_range [of r] by (simp add: ival_arith fits_def)

lemma ival_of_min: "ival (min a b) = min (ival a) (ival b)"
  by (simp add: min_def i64_order)

lemma match_loop_sweep:
  assumes "book_inv b" and "bo_side t = Buy \<or> bo_side t = Sell" and "0 \<le> ival (bo_rem t)"
    and "sweep (prio (live b) t) t = (fs, t')"
  shows "\<exists>b'. match_loop b t rp = Inr (b', t', rp\<lparr>rp_fills := rp_fills rp @ fs,
      rp_completed := rp_completed rp @ completed_of fs\<rparr>) \<and>
    book_inv b' \<and> live b' = apply_fills fs (live b)"
  using assms
proof (induction "prio (live b) t" arbitrary: b t rp fs)
  case Nil
  note crossing = best_crossing_prio [OF Nil.prems(1,2)]
  from Nil have fs: "fs = []" "t' = t" by auto
  have "match_loop b t rp = Inr (b, t, rp)"
    using crossing Nil.hyps by (subst match_loop.simps) simp
  then show ?case using fs Nil.prems by (simp add: apply_fills_def completed_of_def)
next
  case (Cons m ms)
  note crossing = best_crossing_prio [OF Cons.prems(1,2)]
  note prio = Cons.hyps(2) [symmetric]
  have lok: "list_ok (live b)" by (rule book_inv_list_ok [OF Cons.prems(1)])
  have store: "store_ok (bk_orders b)" using Cons.prems(1) by (simp add: book_inv_def)
  have mem: "m \<in> set (live b)" using prio_Cons(1) [OF prio Cons.prems(2)] .
  have look: "fmlookup (bk_orders b) (bo_id m) = Some m" using live_lookup [OF store] mem by simp
  have mpos: "0 < ival (bo_rem m)" by (rule order_ok_rem [OF list_okD(5) [OF lok mem]])
  show ?case
  proof (cases "bo_rem t > 0")
    case False
    then have "fs = []" "t' = t" using Cons.prems(4) prio by auto
    moreover have "match_loop b t rp = Inr (b, t, rp)" using False by (subst match_loop.simps) simp
    ultimately show ?thesis using Cons.prems by (simp add: apply_fills_def completed_of_def)
  next
    case True
    define q where "q = min (bo_rem m) (bo_rem t)"
    define f where "f = fill_of m t"
    have tpos: "0 < ival (bo_rem t)" using True by (simp add: i64_order)
    have qv: "ival q = min (ival (bo_rem m)) (ival (bo_rem t))" by (simp add: q_def ival_of_min)
    have q': "(if bo_rem m < bo_rem t then bo_rem m else bo_rem t) = q"
      by (auto simp: q_def min_def)
    have trem: "ival (bo_rem t - q) = ival (bo_rem t) - ival q"
      using qv mpos tpos by (intro ival_sub_le) auto
    have mrem: "ival (bo_rem m - q) = ival (bo_rem m) - ival q"
      using qv mpos tpos by (intro ival_sub_le) auto
    have zero: "bo_rem m - q = 0 \<longleftrightarrow> q = bo_rem m" by (auto simp: algebra_simps)
    obtain fs' where sw: "sweep ms (after t q) = (fs', t')" and fs: "fs = f # fs'"
      using Cons.prems(4) prio True by (auto simp: Let_def f_def q_def split: prod.splits)
    show ?thesis
    proof (cases "q = bo_rem m")
      case True': True
      let ?b = "remove_order b (bo_id m)"
      let ?rp = "rp\<lparr>rp_fills := rp_fills rp @ [f], rp_completed := rp_completed rp @ [after m q]\<rparr>"
      have step: "match_loop b t rp = match_loop ?b (after t q) ?rp"
        using crossing True look prio zero True' remove_after_reduce [OF Cons.prems(1) look, of q]
        by (subst match_loop.simps)
          (simp add: q' Let_def f_def fill_of_def after_def flip: q_def)
      have inv': "book_inv ?b" and live': "live ?b = drop_id (bo_id m) (live b)"
        using remove_order_inv [OF Cons.prems(1)] by simp_all
      have ms: "ms = prio (live ?b) (after t q)"
        using prio_drop [OF lok prio] live' by simp
      have ex: "exhausts f" using True' by (simp add: exhausts_def f_def flip: q_def)
      have "0 \<le> ival (bo_rem (after t q))" using trem qv by simp
      from Cons.hyps(1) [OF ms inv' _ this, of fs' ?rp] ms sw Cons.prems(2)
      show ?thesis
        using ex live' unfolding step fs
        by (auto simp: apply_fills_def apply_fill_def completed_of_def f_def q_def)
    next
      case False
      let ?b = "reduce_order b (bo_id m) q"
      have qt: "q = bo_rem t" and lt: "ival q < ival (bo_rem m)"
        using False qv by (auto simp: q_def min_def i64_order ival_inject)
      then have zero': "bo_rem (after t q) = 0" by simp
      have step: "match_loop b t rp = match_loop ?b (after t q) (rp\<lparr>rp_fills := rp_fills rp @ [f]\<rparr>)"
        using crossing True look prio zero False
        by (subst match_loop.simps)
          (simp add: q' Let_def f_def fill_of_def after_def flip: q_def)
      have stop: "match_loop ?b (after t q) r = Inr (?b, after t q, r)" for r
        using zero' by (subst match_loop.simps) simp
      have "sweep ms (after t q) = ([], after t q)" using zero' by (cases ms) auto
      then have e: "fs' = []" "t' = after t q" using sw by auto
      have ex: "\<not> exhausts f" using False by (simp add: exhausts_def f_def flip: q_def)
      have "book_inv ?b" "live ?b = fill_id (bo_id m) q (live b)"
        using reduce_order_inv [OF Cons.prems(1) look, of q] lt qv mpos tpos by auto
      then show ?thesis
        using ex stop step e fs
        by (simp add: apply_fills_def apply_fill_def completed_of_def f_def q_def)
    qed
  qed
qed


subsection \<open>What holds of a sweep\<close>

lemma sweep_prefix:
  assumes "sweep ms t = (fs, t')"
  shows "map fl_maker fs = take (length fs) ms"
  using assms by (induction ms t arbitrary: fs t' rule: sweep.induct)
    (auto simp: Let_def split: if_splits prod.splits)

lemma sweep_fill:
  assumes "sweep ms t = (fs, t')" and "f \<in> set fs" and "\<forall>m \<in> set ms. 0 < ival (bo_rem m)"
    and "0 \<le> ival (bo_rem t)"
  shows "fl_maker f \<in> set ms" "fl_price f = bo_price (fl_maker f)"
    "0 < ival (fl_qty f)" "ival (fl_qty f) \<le> ival (bo_rem (fl_maker f))"
    "ival (fl_qty f) \<le> ival (bo_rem (fl_taker f))"
    "bo_owner (fl_taker f) = bo_owner t" "bo_side (fl_taker f) = bo_side t"
    "bo_price (fl_taker f) = bo_price t" "bo_id (fl_taker f) = bo_id t"
proof -
  have "fl_maker f \<in> set ms \<and> fl_price f = bo_price (fl_maker f) \<and> 0 < ival (fl_qty f) \<and>
      ival (fl_qty f) \<le> ival (bo_rem (fl_maker f)) \<and> ival (fl_qty f) \<le> ival (bo_rem (fl_taker f)) \<and>
      bo_owner (fl_taker f) = bo_owner t \<and> bo_side (fl_taker f) = bo_side t \<and>
      bo_price (fl_taker f) = bo_price t \<and> bo_id (fl_taker f) = bo_id t"
    using assms
  proof (induction ms t arbitrary: fs t' rule: sweep.induct)
    case (2 m ms t)
    show ?case
    proof (cases "bo_rem t > 0")
      case True
      let ?q = "min (bo_rem m) (bo_rem t)"
      have q: "0 < ival ?q" "ival ?q \<le> ival (bo_rem t)" "ival ?q \<le> ival (bo_rem m)"
        using True "2.prems"(3) by (auto simp: ival_of_min i64_order)
      have rem: "ival (bo_rem t - ?q) = ival (bo_rem t) - ival ?q"
        using q by (intro ival_sub_le) auto
      obtain fs' where sw: "sweep ms (after t ?q) = (fs', t')" and fs: "fs = fill_of m t # fs'"
        using "2.prems"(1) True by (auto simp: Let_def split: prod.splits)
      show ?thesis
      proof (cases "f = fill_of m t")
        case True
        then show ?thesis using q by simp
      next
        case False
        then have "f \<in> set fs'" using "2.prems"(2) fs by simp
        then show ?thesis
          using "2.IH" [OF True refl, of fs' t'] sw "2.prems"(3) rem q by simp
      qed
    next
      case False
      then show ?thesis using "2.prems" by simp
    qed
  qed simp
  then show "fl_maker f \<in> set ms" "fl_price f = bo_price (fl_maker f)"
    "0 < ival (fl_qty f)" "ival (fl_qty f) \<le> ival (bo_rem (fl_maker f))"
    "ival (fl_qty f) \<le> ival (bo_rem (fl_taker f))"
    "bo_owner (fl_taker f) = bo_owner t" "bo_side (fl_taker f) = bo_side t"
    "bo_price (fl_taker f) = bo_price t" "bo_id (fl_taker f) = bo_id t"
    by blast+
qed

lemma sweep_taker:
  assumes "sweep ms t = (fs, t')" and "\<forall>m \<in> set ms. 0 < ival (bo_rem m)" and "0 \<le> ival (bo_rem t)"
  shows "\<exists>r. t' = t\<lparr>bo_rem := r\<rparr> \<and> 0 \<le> ival r \<and>
      sum_list (map (\<lambda>f. ival (fl_qty f)) fs) = ival (bo_rem t) - ival r"
    and "0 < ival (bo_rem t') \<Longrightarrow> map fl_maker fs = ms \<and> (\<forall>f \<in> set fs. exhausts f)"
proof -
  have "(\<exists>r. t' = t\<lparr>bo_rem := r\<rparr> \<and> 0 \<le> ival r \<and>
      sum_list (map (\<lambda>f. ival (fl_qty f)) fs) = ival (bo_rem t) - ival r) \<and>
    (0 < ival (bo_rem t') \<longrightarrow> map fl_maker fs = ms \<and> (\<forall>f \<in> set fs. exhausts f))"
    using assms
  proof (induction ms t arbitrary: fs t' rule: sweep.induct)
    case (1 t)
    then show ?case by (auto intro!: exI [of _ "bo_rem t"])
  next
    case (2 m ms t)
    show ?case
    proof (cases "bo_rem t > 0")
      case True
      let ?q = "min (bo_rem m) (bo_rem t)"
      have q: "0 < ival ?q" "ival ?q \<le> ival (bo_rem t)"
        using True "2.prems"(2) by (auto simp: ival_of_min i64_order)
      have rem: "ival (bo_rem t - ?q) = ival (bo_rem t) - ival ?q"
        using q by (intro ival_sub_le) auto
      obtain fs' where sw: "sweep ms (after t ?q) = (fs', t')" and fs: "fs = fill_of m t # fs'"
        using "2.prems"(1) True by (auto simp: Let_def split: prod.splits)
      have nonneg: "0 \<le> ival (bo_rem (after t ?q))" using rem q by simp
      have IH: "(\<exists>r. t' = (after t ?q)\<lparr>bo_rem := r\<rparr> \<and> 0 \<le> ival r \<and>
          sum_list (map (\<lambda>f. ival (fl_qty f)) fs') = ival (bo_rem (after t ?q)) - ival r) \<and>
        (0 < ival (bo_rem t') \<longrightarrow> map fl_maker fs' = ms \<and> (\<forall>f \<in> set fs'. exhausts f))"
        using "2.IH" [OF True refl, of fs' t'] sw "2.prems"(2) nonneg by simp
      then obtain r where r: "t' = t\<lparr>bo_rem := r\<rparr>" "0 \<le> ival r"
        "sum_list (map (\<lambda>f. ival (fl_qty f)) fs') = ival (bo_rem t - ?q) - ival r"
        by (auto simp: after_def)
      have "?q = bo_rem m" if "0 < ival (bo_rem t')"
      proof (rule ccontr)
        assume "?q \<noteq> bo_rem m"
        then have "?q = bo_rem t" by (auto simp: min_def)
        then have z: "bo_rem (after t ?q) = 0" by simp
        then have "sweep ms (after t ?q) = ([], after t ?q)" by (cases ms) auto
        then show False using sw that z by simp
      qed
      then have "0 < ival (bo_rem t') \<longrightarrow> map fl_maker fs = m # ms \<and> (\<forall>f \<in> set fs. exhausts f)"
        using IH fs by (auto simp: exhausts_def)
      then show ?thesis using r rem fs by (intro conjI exI [of _ r]) simp_all
    next
      case False
      then have "ival (bo_rem t) = 0" using "2.prems"(3) by (simp add: i64_order)
      then show ?thesis using False "2.prems"(1) by (auto intro!: exI [of _ "bo_rem t"])
    qed
  qed
  then show "\<exists>r. t' = t\<lparr>bo_rem := r\<rparr> \<and> 0 \<le> ival r \<and>
      sum_list (map (\<lambda>f. ival (fl_qty f)) fs) = ival (bo_rem t) - ival r"
    and "0 < ival (bo_rem t') \<Longrightarrow> map fl_maker fs = ms \<and> (\<forall>f \<in> set fs. exhausts f)"
    by blast+
qed

text \<open>Filling only ever removes orders or lowers what remains of one.\<close>

lemma apply_fills_Cons: "apply_fills (f # fs) L = apply_fills fs (apply_fill L f)"
  by (simp add: apply_fills_def)

lemma apply_fills_shrinks:
  assumes "x \<in> set (apply_fills fs L)"
  shows "\<exists>y \<in> set L. bo_id x = bo_id y \<and> bo_side x = bo_side y \<and> bo_price x = bo_price y \<and>
    bo_owner x = bo_owner y"
  using assms
proof (induction fs arbitrary: L)
  case (Cons f fs)
  then obtain y where y: "y \<in> set (apply_fill L f)" "bo_id x = bo_id y" "bo_side x = bo_side y"
    "bo_price x = bo_price y" "bo_owner x = bo_owner y"
    by (auto simp: apply_fills_Cons)
  from y(1) have "y \<in> set L \<or> (\<exists>z \<in> set L. y = z\<lparr>bo_rem := bo_rem z - fl_qty f\<rparr>)"
    by (auto simp: apply_fill_def drop_id_def fill_id_def split: if_splits)
  then show ?case using y(2-5) by fastforce
qed (auto simp: apply_fills_def)

lemma apply_fills_removed:
  assumes "\<forall>f \<in> set fs. exhausts f"
  shows "apply_fills fs L = filter (\<lambda>x. bo_id x \<notin> bo_id ` fl_maker ` set fs) L"
  using assms
proof (induction fs arbitrary: L)
  case (Cons f fs)
  then have "apply_fills (f # fs) L =
      filter (\<lambda>x. bo_id x \<notin> bo_id ` fl_maker ` set fs) (drop_id (bo_id (fl_maker f)) L)"
    by (simp add: apply_fills_Cons apply_fill_def)
  also have "\<dots> = filter (\<lambda>x. bo_id x \<notin> bo_id ` fl_maker ` set (f # fs)) L"
    by (auto simp: drop_id_def intro!: filter_cong)
  finally show ?case .
qed (simp add: apply_fills_def)

definition uncrossed :: "book_order list \<Rightarrow> bool" where
  "uncrossed L \<longleftrightarrow> (\<forall>x \<in> set L. \<forall>y \<in> set L. bo_side x = Buy \<longrightarrow> bo_side y = Sell \<longrightarrow>
     bo_price x < bo_price y)"

lemma uncrossed_apply_fills: "uncrossed L \<Longrightarrow> uncrossed (apply_fills fs L)"
  unfolding uncrossed_def by (metis apply_fills_shrinks)

lemma no_crossing_left:
  assumes "list_ok L" and sw: "sweep (prio L t) t = (fs, t')" and "0 \<le> ival (bo_rem t)"
    and rem: "0 < ival (bo_rem t')"
  shows "\<forall>x \<in> set (apply_fills fs L). \<not> crosses t x"
proof -
  have pos: "\<forall>m \<in> set (prio L t). 0 < ival (bo_rem m)"
    using list_okD(5) [OF assms(1)] by (auto simp: set_prio intro: order_ok_rem)
  have all: "map fl_maker fs = prio L t" and ex: "\<forall>f \<in> set fs. exhausts f"
    using sweep_taker(2) [OF sw pos assms(3) rem] by auto
  have "fl_maker ` set fs = set (prio L t)" using all by (metis list.set_map)
  then show ?thesis by (auto simp: apply_fills_removed [OF ex] set_prio)
qed

end
