(* ===== verification/Book_Contract.thy ===== *)
theory Book_Contract
  imports Book_Match
begin

text \<open>
  The public operations of the book against their contract: \<open>submit\<close> implements
  \<open>submit_spec\<close> and fails only for a stated reason, \<^verbatim>\<open>Clone\<close> is the identity, \<open>replace_order\<close> is
  a removal followed by a submission, and the depth snapshot is the aggregation of the live
  orders. The locale \<open>matching_book\<close> is the interface the exchange uses.
\<close>

subsection \<open>The guards\<close>

definition acceptable :: "book_order list \<Rightarrow> book_order \<Rightarrow> bool" where
  "acceptable L ord \<longleftrightarrow> \<not> invalid_order ord \<and> (\<forall>x \<in> set L. bo_id x \<noteq> bo_id ord \<and> bo_seq x < bo_seq ord) \<and>
     (\<forall>x \<in> set L. bo_owner x = bo_owner ord \<longrightarrow> \<not> crosses ord x)"

lemma foldl_max_less:
  fixes f :: "'a \<Rightarrow> 'b::linorder"
  shows "foldl (\<lambda>m x. if f x > m then f x else m) a xs < s \<longleftrightarrow> a < s \<and> (\<forall>x \<in> set xs. f x < s)"
  by (induction xs arbitrary: a) auto

lemma max_sequence_less:
  "0 < s \<Longrightarrow> max_sequence b < s \<longleftrightarrow> (\<forall>x \<in> set (live b). bo_seq x < s)"
  by (simp add: max_sequence_def foldl_max_less)

lemma would_self_trade_iff:
  assumes "book_inv b" and "bo_side ord = Buy \<or> bo_side ord = Sell" and "bo_owner ord \<noteq> ''''"
  shows "would_self_trade b ord \<longleftrightarrow> (\<exists>x \<in> set (live b). bo_owner x = bo_owner ord \<and> crosses ord x)"
proof -
  have "bo_side x = Buy \<or> bo_side x = Sell" if "x \<in> set (live b)" for x
    using list_okD(5) [OF book_inv_list_ok [OF assms(1)] that] by (simp add: order_ok_def)
  then show ?thesis
    using assms(2,3)
    by (fastforce simp: would_self_trade_def orders_def list_ex_iff crosses_def)
qed

lemma invalid_orderD:
  assumes "\<not> invalid_order ord"
  shows "bo_side ord = Buy \<or> bo_side ord = Sell" "bo_owner ord \<noteq> ''''" "0 < bo_seq ord"
    "0 < ival (bo_qty ord)" "positive (bo_price ord)" "bo_tif ord = GTC \<or> bo_tif ord = IOC"
  using assms by (auto simp: invalid_order_def positive_def i64_order word_greater_zero_iff)

lemma live_missing:
  assumes "store_ok (bk_orders b)"
  shows "fmlookup (bk_orders b) i = None \<longleftrightarrow> (\<forall>x \<in> set (live b). bo_id x \<noteq> i)"
  using live_lookup [OF assms, of i] by (metis not_None_eq)

lemma acceptable_iff:
  assumes inv: "book_inv b"
  shows "acceptable (live b) ord \<longleftrightarrow> \<not> invalid_order ord \<and> lookup_order b (bo_id ord) = None \<and>
    \<not> bo_seq ord \<le> max_sequence b \<and> \<not> would_self_trade b ord"
proof (cases "invalid_order ord")
  case False
  note v = invalid_orderD [OF False]
  have store: "store_ok (bk_orders b)" using inv by (simp add: book_inv_def)
  have "lookup_order b (bo_id ord) = None \<longleftrightarrow> (\<forall>x \<in> set (live b). bo_id x \<noteq> bo_id ord)"
    by (simp only: lookup_order_def live_missing [OF store])
  then show ?thesis
    using False would_self_trade_iff [OF inv v(1,2)] max_sequence_less [OF v(3), of b]
    by (auto simp: acceptable_def not_le)
qed (simp add: acceptable_def)

subsection \<open>Submitting an order\<close>

definition taker_of :: "book_order \<Rightarrow> book_order" where
  "taker_of ord = ord\<lparr>bo_rem := bo_qty ord\<rparr>"

lemma submit_unfold:
  assumes inv: "book_inv b" and acc: "acceptable (live b) ord"
    and sw: "sweep (prio (live b) (taker_of ord)) (taker_of ord) = (fs, t')"
  obtains b' where "book_inv b'" and "live b' = apply_fills fs (live b)"
    and "submit b ord RejectTaker =
      (let rp = \<lparr>rp_accepted = taker_of ord, rp_fills = fs, rp_resting = None, rp_expired = None,
            rp_completed = completed_of fs\<rparr>
       in if bo_rem t' = 0 then Inr (b', rp\<lparr>rp_completed := completed_of fs @ [t']\<rparr>)
          else if bo_tif t' = IOC then Inr (b', rp\<lparr>rp_expired := Some t'\<rparr>)
          else bindE (rest b' t') (\<lambda>b''. Inr (b'', rp\<lparr>rp_resting := Some t'\<rparr>)))"
proof -
  have v: "\<not> invalid_order ord" using acc by (simp add: acceptable_def)
  note side = invalid_orderD(1) [OF v] and qty = invalid_orderD(4) [OF v]
  let ?rp = "\<lparr>rp_accepted = taker_of ord, rp_fills = [], rp_resting = None, rp_expired = None,
    rp_completed = []\<rparr>"
  have "\<exists>b'. match_loop b (taker_of ord) ?rp = Inr (b', t', ?rp\<lparr>rp_fills := rp_fills ?rp @ fs,
      rp_completed := rp_completed ?rp @ completed_of fs\<rparr>) \<and>
    book_inv b' \<and> live b' = apply_fills fs (live b)"
    using side qty by (intro match_loop_sweep [OF inv _ _ sw]) (auto simp: taker_of_def)
  then obtain b' where m: "match_loop b (taker_of ord) ?rp = Inr (b', t',
      \<lparr>rp_accepted = taker_of ord, rp_fills = fs, rp_resting = None, rp_expired = None,
       rp_completed = completed_of fs\<rparr>)"
    and b': "book_inv b'" "live b' = apply_fills fs (live b)" by auto
  show ?thesis
  proof (rule that [OF b'])
    show "submit b ord RejectTaker =
      (let rp = \<lparr>rp_accepted = taker_of ord, rp_fills = fs, rp_resting = None, rp_expired = None,
            rp_completed = completed_of fs\<rparr>
       in if bo_rem t' = 0 then Inr (b', rp\<lparr>rp_completed := completed_of fs @ [t']\<rparr>)
          else if bo_tif t' = IOC then Inr (b', rp\<lparr>rp_expired := Some t'\<rparr>)
          else bindE (rest b' t') (\<lambda>b''. Inr (b'', rp\<lparr>rp_resting := Some t'\<rparr>)))"
      using acc m [unfolded taker_of_def] unfolding acceptable_iff [OF inv]
      by (simp add: submit_def Let_def taker_of_def)
  qed
qed

text \<open>What rests after a sweep may be appended to the list of live orders.\<close>

lemma newest_after_sweep:
  assumes inv: "book_inv b" and acc: "acceptable (live b) ord"
    and sw: "sweep (prio (live b) (taker_of ord)) (taker_of ord) = (fs, t')"
    and b': "book_inv b'" "live b' = apply_fills fs (live b)"
    and rem: "bo_rem t' \<noteq> 0" and gtc: "bo_tif t' \<noteq> IOC"
  shows "order_ok t'" and "newest b' t'" and "0 < ival (bo_rem t')"
proof -
  have v: "\<not> invalid_order ord" using acc by (simp add: acceptable_def)
  note ord = invalid_orderD [OF v]
  have pos: "\<forall>m \<in> set (prio (live b) (taker_of ord)). 0 < ival (bo_rem m)"
    using list_okD(5) [OF book_inv_list_ok [OF inv]] by (auto simp: set_prio intro: order_ok_rem)
  obtain r where r: "t' = (taker_of ord)\<lparr>bo_rem := r\<rparr>" "0 \<le> ival r"
    using sweep_taker(1) [OF sw pos] ord(4) by (auto simp: taker_of_def)
  have "ival r \<noteq> 0" using rem r by (auto simp: ival_inject [symmetric])
  then show "0 < ival (bo_rem t')" using r by simp
  then show ok: "order_ok t'"
    using r ord gtc by (auto simp: order_ok_def taker_of_def positive_def i64_order)
  have fresh: "\<forall>x \<in> set (live b). bo_id x \<noteq> bo_id ord \<and> bo_seq x < bo_seq ord"
    using acc by (simp add: acceptable_def)
  have store': "store_ok (bk_orders b')" using b' by (simp add: book_inv_def)
  have "\<forall>x \<in> set (live b'). bo_id x \<noteq> bo_id t' \<and> bo_seq x < bo_seq t'"
  proof
    fix x assume "x \<in> set (live b')"
    then have "\<exists>y \<in> set (live b). bo_id x = bo_id y \<and> bo_seq x = bo_seq y"
      unfolding b'(2)
    proof (induction fs arbitrary: x rule: rev_induct)
      case (snoc f fs)
      then obtain y where "y \<in> set (apply_fills fs (live b))" "bo_id x = bo_id y" "bo_seq x = bo_seq y"
        by (force simp: apply_fills_def apply_fill_def drop_id_def fill_id_def split: if_splits)
      then show ?case using snoc.IH [of y] by simp
    qed (auto simp: apply_fills_def)
    then show "bo_id x \<noteq> bo_id t' \<and> bo_seq x < bo_seq t'"
      using fresh r by (auto simp: taker_of_def)
  qed
  then show "newest b' t'"
    by (simp only: newest_def live_missing [OF store']) blast
qed

lemma submit_sound:
  assumes inv: "book_inv b" and r: "submit b ord policy = Inr (b', rp)"
  shows "book_inv b'" and "submit_spec (live b) ord = (live b', rp)" and "acceptable (live b) ord"
proof -
  have pol: "policy = RejectTaker" using r by (auto simp: submit_def)
  show acc: "acceptable (live b) ord"
    using r unfolding acceptable_iff [OF inv] by (auto simp: submit_def)
  obtain fs t' where sw: "sweep (prio (live b) (taker_of ord)) (taker_of ord) = (fs, t')"
    by fastforce
  obtain c where c: "book_inv c" "live c = apply_fills fs (live b)"
    and s: "submit b ord RejectTaker =
      (let rp = \<lparr>rp_accepted = taker_of ord, rp_fills = fs, rp_resting = None, rp_expired = None,
            rp_completed = completed_of fs\<rparr>
       in if bo_rem t' = 0 then Inr (c, rp\<lparr>rp_completed := completed_of fs @ [t']\<rparr>)
          else if bo_tif t' = IOC then Inr (c, rp\<lparr>rp_expired := Some t'\<rparr>)
          else bindE (rest c t') (\<lambda>b''. Inr (b'', rp\<lparr>rp_resting := Some t'\<rparr>)))"
    by (rule submit_unfold [OF inv acc sw])
  have "book_inv b' \<and> submit_spec (live b) ord = (live b', rp)"
  proof (cases "bo_rem t' = 0 \<or> bo_tif t' = IOC")
    case True
    then show ?thesis
      using r s c sw [unfolded taker_of_def]
      by (auto simp: pol submit_spec_def taker_of_def Let_def split: if_splits)
  next
    case False
    then have n: "order_ok t'" "newest c t'"
      using newest_after_sweep [OF inv acc sw c] by auto
    from r s False have rst: "rest c t' = Inr b'"
      and rp: "rp = \<lparr>rp_accepted = taker_of ord, rp_fills = fs, rp_resting = Some t', rp_expired = None,
            rp_completed = completed_of fs\<rparr>"
      by (auto simp: pol Let_def)
    show ?thesis
      using rest_Inr [OF c(1) n rst] c(2) False sw [unfolded taker_of_def] rp
      by (simp add: submit_spec_def taker_of_def Let_def)
  qed
  then show "book_inv b'" and "submit_spec (live b) ord = (live b', rp)" by simp_all
qed

lemma add_qty_no_panic: "add_qty a b = Inl e \<Longrightarrow> \<not> is_panic e"
  by (auto simp: add_qty_def fails_def split: if_splits)

lemma rest_no_panic: "rest b ord = Inl e \<Longrightarrow> \<not> is_panic e"
  by (auto simp: rest_def Let_def bindE_Inl_iff dest: add_qty_no_panic split: option.splits)

lemma submit_no_panic:
  assumes inv: "book_inv b" and r: "submit b ord policy = Inl e"
  shows "\<not> is_panic e"
proof (cases "policy = RejectTaker \<and> acceptable (live b) ord")
  case True
  then have pol: "policy = RejectTaker" and acc: "acceptable (live b) ord" by auto
  obtain fs t' where sw: "sweep (prio (live b) (taker_of ord)) (taker_of ord) = (fs, t')"
    by fastforce
  show ?thesis
    by (rule submit_unfold [OF inv acc sw])
      (use r pol in \<open>auto simp: Let_def bindE_Inl_iff dest: rest_no_panic split: if_splits\<close>)
next
  case False
  then show ?thesis
    using r acceptable_iff [OF inv, of ord]
    by (auto simp: submit_def guardE_def fails_def split: if_splits)
qed

text \<open>An acceptable order is refused only if the level it would rest in overflows.\<close>

lemma submit_complete:
  assumes inv: "book_inv b" and acc: "acceptable (live b) ord"
    and spec: "submit_spec (live b) ord = (L', rp)"
    and fits: "\<forall>s p. fits (qty_at L' s p)"
  shows "\<exists>b'. submit b ord RejectTaker = Inr (b', rp)"
proof -
  obtain fs t' where sw: "sweep (prio (live b) (taker_of ord)) (taker_of ord) = (fs, t')"
    by fastforce
  obtain c where c: "book_inv c" "live c = apply_fills fs (live b)"
    and s: "submit b ord RejectTaker =
      (let rp = \<lparr>rp_accepted = taker_of ord, rp_fills = fs, rp_resting = None, rp_expired = None,
            rp_completed = completed_of fs\<rparr>
       in if bo_rem t' = 0 then Inr (c, rp\<lparr>rp_completed := completed_of fs @ [t']\<rparr>)
          else if bo_tif t' = IOC then Inr (c, rp\<lparr>rp_expired := Some t'\<rparr>)
          else bindE (rest c t') (\<lambda>b''. Inr (b'', rp\<lparr>rp_resting := Some t'\<rparr>)))"
    by (rule submit_unfold [OF inv acc sw])
  have sp: "(L', rp) =
     (let rp = \<lparr>rp_accepted = taker_of ord, rp_fills = fs, rp_resting = None, rp_expired = None,
            rp_completed = completed_of fs\<rparr>
      in if bo_rem t' = 0 then (live c, rp\<lparr>rp_completed := completed_of fs @ [t']\<rparr>)
         else if bo_tif t' = IOC then (live c, rp\<lparr>rp_expired := Some t'\<rparr>)
         else (live c @ [t'], rp\<lparr>rp_resting := Some t'\<rparr>))"
    using spec sw unfolding taker_of_def by (auto simp: submit_spec_def Let_def c(2) split: if_splits)
  show ?thesis
  proof (cases "bo_rem t' = 0 \<or> bo_tif t' = IOC")
    case True
    then show ?thesis using s sp by (auto simp: Let_def split: if_splits)
  next
    case False
    then have n: "order_ok t'" and L': "L' = live c @ [t']"
      using newest_after_sweep [OF inv acc sw c] sp by (auto simp: Let_def)
    then obtain c' where "rest c t' = Inr c'"
      using rest_fits [OF c(1) n] fits by blast
    then show ?thesis using s sp False by (simp add: Let_def)
  qed
qed

subsection \<open>Clone, removal and replacement\<close>

lemma live_new_book [simp]: "live new_book = []"
proof -
  have "set (live new_book) = {}" by (auto simp: new_book_def fmlookup_ran'_iff simp del: set_empty)
  then show ?thesis by (simp only: set_empty)
qed

lemma book_inv_new: "book_inv new_book"
  unfolding book_inv_def live_new_book
  by (simp add: new_book_def store_ok_def side_inv_def prices_of_def qty_at_def at_def fits_def)

lemma list_ok_take: "list_ok (L @ K) \<Longrightarrow> list_ok L"
  by (auto simp: list_ok_def sorted_wrt_append)

lemma rebuild:
  assumes "list_ok L" and "\<And>s p. fits (qty_at L s p)"
  shows "\<exists>c. foldE rest new_book L = Inr c \<and> book_inv c \<and> live c = L"
  using assms
proof (induction L rule: rev_induct)
  case (snoc ord L)
  have lok: "list_ok L" by (rule list_ok_take [OF snoc.prems(1)])
  have ok: "order_ok ord" using list_okD(5) [OF snoc.prems(1), of ord] by simp
  have "fits (qty_at L s p)" for s p
  proof -
    have "qty_at L s p \<le> qty_at (L @ [ord]) s p"
      using order_ok_rem [OF ok] by (simp add: qty_at_def at_snoc)
    then show ?thesis
      using qty_at_nonneg [OF lok, of s p] snoc.prems(2) [of s p] by (simp add: fits_def)
  qed
  then obtain c where c: "foldE rest new_book L = Inr c" "book_inv c" "live c = L"
    using snoc.IH [OF lok] by blast
  obtain c' where c': "rest c ord = Inr c'"
    using rest_fits [OF c(2) ok] snoc.prems(2) c(3) by blast
  have store: "store_ok (bk_orders c)" using c(2) by (simp add: book_inv_def)
  have "newest c ord"
    using snoc.prems(1) unfolding newest_def live_missing [OF store] c(3)
    by (simp add: list_ok_def sorted_wrt_append) (metis image_eqI)
  then have "book_inv c'" "live c' = L @ [ord]"
    using rest_Inr [OF c(2) ok _ c'] c(3) by auto
  then show ?case using c(1) c' by (simp add: foldE_append)
qed (simp add: book_inv_new)

lemma book_of_live:
  assumes "book_inv b" and "book_inv c" and "live b = live c"
  shows "b = c"
proof (rule book_inv_unique [OF assms(1,2)], rule fmap_ext)
  fix i
  have "store_ok (bk_orders b)" "store_ok (bk_orders c)" using assms by (simp_all add: book_inv_def)
  then show "fmlookup (bk_orders b) i = fmlookup (bk_orders c) i"
    using live_lookup [of b i] live_lookup [of c i] assms(3) by (metis option.exhaust)
qed

lemma fits_qty_at:
  assumes "book_inv b"
  shows "fits (qty_at (live b) s p)"
proof -
  have "at (live b) s p = []" if "s \<noteq> Buy" "s \<noteq> Sell"
    using that list_okD(5) [OF book_inv_list_ok [OF assms]]
    by (fastforce simp: at_def filter_empty_conv order_ok_def)
  then show ?thesis
    using assms by (cases "s = Buy \<or> s = Sell")
      (auto simp: book_inv_def side_inv_def qty_at_def fits_def)
qed

lemma clone_book_id:
  assumes "book_inv b"
  shows "clone_book b = Inr b"
proof -
  obtain c where c: "foldE rest new_book (live b) = Inr c" "book_inv c" "live c = live b"
    using rebuild [OF book_inv_list_ok [OF assms] fits_qty_at [OF assms]] by blast
  then have "c = b" using book_of_live [OF c(2) assms] by simp
  then show ?thesis using c(1) by (simp add: clone_book_def live_def)
qed

lemma submit_public_eq: "book_inv b \<Longrightarrow> submit_public b ord policy = submit b ord policy"
  by (simp add: submit_public_def clone_book_id)

lemma without_eq:
  assumes inv: "book_inv b"
  shows "without b i = (if lookup_order b i = None then fails ''order not found''
    else Inr (remove_order b i))"
proof (cases "lookup_order b i")
  case (Some ord)
  note rem = remove_order_inv [OF inv, of i]
  have "drop_id i (live b) = filter (\<lambda>ord. bo_id ord \<noteq> i) (orders b '''')"
    by (simp add: drop_id_def live_def)
  moreover obtain c where c: "foldE rest new_book (drop_id i (live b)) = Inr c" "book_inv c"
    "live c = drop_id i (live b)"
    using rebuild [OF book_inv_list_ok [OF rem(1)] fits_qty_at [OF rem(1)]] rem(2) by auto
  moreover have "c = remove_order b i" using book_of_live [OF c(2) rem(1)] c(3) rem(2) by simp
  ultimately show ?thesis using Some by (simp add: without_def)
qed (simp add: without_def)

lemma replace_order_eq:
  assumes inv: "book_inv b"
  shows "replace_order b old r policy =
     guardE (lookup_order b old = None) ''order not found''
     (guardE (bo_id r = old \<or> bo_seq r \<le> max_sequence b \<or> sequence_used b (bo_seq r) old)
        ''replacement must have a unique newer sequence''
     (submit (remove_order b old) r policy))"
proof -
  note rem = remove_order_inv(1) [OF inv, of old]
  show ?thesis
    by (cases "lookup_order b old";
        cases "bo_id r = old \<or> bo_seq r \<le> max_sequence b \<or> sequence_used b (bo_seq r) old";
        cases "submit (remove_order b old) r policy")
      (auto simp: replace_order_def preview_replace_def without_eq [OF inv] submit_public_eq [OF rem]
        split: prod.splits)
qed

lemma cancel_order_eq:
  assumes inv: "book_inv b"
  shows "cancel_order b i = None \<longleftrightarrow> i \<notin> bo_id ` set (live b)"
    and "cancel_order b i = Some (b', ord) \<Longrightarrow>
      book_inv b' \<and> live b' = drop_id i (live b) \<and> ord \<in> set (live b) \<and> bo_id ord = i"
proof -
  have store: "store_ok (bk_orders b)" using inv by (simp add: book_inv_def)
  show "cancel_order b i = None \<longleftrightarrow> i \<notin> bo_id ` set (live b)"
    using live_missing [OF store, of i]
    by (auto simp: cancel_order_def lookup_order_def split: option.splits)
  show "book_inv b' \<and> live b' = drop_id i (live b) \<and> ord \<in> set (live b) \<and> bo_id ord = i"
    if "cancel_order b i = Some (b', ord)"
    using that live_lookup [OF store, of i] remove_order_inv [OF inv, of i]
    by (auto simp: cancel_order_def lookup_order_def split: option.splits)
qed

subsection \<open>The depth snapshot\<close>

definition depth_spec :: "book_order list \<Rightarrow> side \<Rightarrow> price \<Rightarrow> depth" where
  "depth_spec L s p =
     \<lparr>dp_price = p, dp_qty = i64_of (qty_at L s p), dp_count = length (at L s p)\<rparr>"

lemma snapshot_eq:
  assumes "side_inv L s sd"
  shows "snapshot sd best_first =
    Inr (map (depth_spec L s) (if best_first then rev (sd_prices sd) else sd_prices sd))"
  unfolding snapshot_def
proof (rule mapE_Inr)
  fix p assume "p \<in> set (if best_first then rev (sd_prices sd) else sd_prices sd)"
  then have "p \<in> prices_of L s" using assms by (auto simp: side_inv_def split: if_splits)
  then show "level_depth sd p = Inr (depth_spec L s p)"
    using assms by (simp add: level_depth_def side_inv_def level_of_def depth_spec_def)
qed

subsection \<open>The interface of the book\<close>

text \<open>What the exchange relies on. A client sees a book only through \<open>view\<close>; the laws say that
  submission is \<open>submit_spec\<close> and cancellation is \<open>drop_id\<close> on that view.\<close>

locale matching_book =
  fixes good :: "'b \<Rightarrow> bool"
    and view :: "'b \<Rightarrow> book_order list"
    and submit_op :: "'b \<Rightarrow> book_order \<Rightarrow> self_trade_policy \<Rightarrow> ('b \<times> report) res"
    and cancel_op :: "'b \<Rightarrow> u64 \<Rightarrow> ('b \<times> book_order) option"
  assumes view_ok: "good b \<Longrightarrow> list_ok (view b)"
    and submit_good: "good b \<Longrightarrow> submit_op b ord policy = Inr (b', rp) \<Longrightarrow> good b'"
    and submit_view: "good b \<Longrightarrow> submit_op b ord policy = Inr (b', rp) \<Longrightarrow>
      submit_spec (view b) ord = (view b', rp) \<and> acceptable (view b) ord"
    and cancel_view: "good b \<Longrightarrow> cancel_op b i = Some (b', ord) \<Longrightarrow>
      good b' \<and> view b' = drop_id i (view b) \<and> ord \<in> set (view b) \<and> bo_id ord = i"
begin

text \<open>A submission taken apart: the sweep behind a report.\<close>

lemma submit_sweep:
  assumes g: "good b" and r: "submit_op b ord policy = Inr (b', rp)"
  obtains fs t' where "sweep (prio (view b) (taker_of ord)) (taker_of ord) = (fs, t')"
    and "\<forall>m \<in> set (prio (view b) (taker_of ord)). 0 < ival (bo_rem m)"
    and "0 < ival (bo_rem (taker_of ord))"
    and "rp_fills rp = fs" and "rp_accepted rp = taker_of ord"
    and "view b' = (if rp_resting rp = None then apply_fills fs (view b)
      else apply_fills fs (view b) @ [t'])"
    and "rp_resting rp = (if bo_rem t' \<noteq> 0 \<and> bo_tif ord \<noteq> IOC then Some t' else None)"
    and "rp_expired rp = (if bo_rem t' \<noteq> 0 \<and> bo_tif ord = IOC then Some t' else None)"
    and "rp_completed rp = completed_of fs @ (if bo_rem t' = 0 then [t'] else [])"
proof -
  note s = submit_view [OF g r]
  obtain fs t' where sw: "sweep (prio (view b) (taker_of ord)) (taker_of ord) = (fs, t')"
    by fastforce
  have pos: "\<forall>m \<in> set (prio (view b) (taker_of ord)). 0 < ival (bo_rem m)"
    using list_okD(5) [OF view_ok [OF g]] by (auto simp: set_prio intro: order_ok_rem)
  have v: "\<not> invalid_order ord" using s by (simp add: acceptable_def)
  have q0: "0 < ival (bo_rem (taker_of ord))"
    using invalid_orderD(4) [OF v] by (simp add: taker_of_def)
  have "bo_tif t' = bo_tif ord"
    using sweep_taker(1) [OF sw pos] q0 by (auto simp: taker_of_def)
  moreover have "submit_spec (view b) ord = (view b', rp)" using s by simp
  moreover note sw [unfolded taker_of_def]
  ultimately show ?thesis
    by (intro that [OF sw pos q0])
      (auto simp: submit_spec_def Let_def taker_of_def split: if_splits)
qed

lemma keeps_uncrossed:
  assumes g: "good b" and unc: "uncrossed (view b)" and r: "submit_op b ord policy = Inr (b', rp)"
  shows "uncrossed (view b')"
proof -
  obtain fs t' where sw: "sweep (prio (view b) (taker_of ord)) (taker_of ord) = (fs, t')"
    and pos: "\<forall>m \<in> set (prio (view b) (taker_of ord)). 0 < ival (bo_rem m)"
    and q0: "0 < ival (bo_rem (taker_of ord))"
    and v: "view b' = (if rp_resting rp = None then apply_fills fs (view b)
      else apply_fills fs (view b) @ [t'])"
    and rest: "rp_resting rp = (if bo_rem t' \<noteq> 0 \<and> bo_tif ord \<noteq> IOC then Some t' else None)"
    by (rule submit_sweep [OF g r])
  let ?L = "apply_fills fs (view b)"
  have base: "uncrossed ?L" by (rule uncrossed_apply_fills [OF unc])
  show ?thesis
  proof (cases "rp_resting rp")
    case None
    then show ?thesis using base v by simp
  next
    case (Some x)
    then have nz: "bo_rem t' \<noteq> 0" using rest by (auto split: if_splits)
    obtain r where t': "t' = (taker_of ord)\<lparr>bo_rem := r\<rparr>" "0 \<le> ival r"
      using sweep_taker(1) [OF sw pos] q0 by auto
    have "ival r \<noteq> 0" using nz t' by (auto simp: ival_inject [symmetric])
    then have "0 < ival (bo_rem t')" using t' by simp
    then have "\<forall>x \<in> set ?L. \<not> crosses (taker_of ord) x"
      using q0 by (intro no_crossing_left [OF view_ok [OF g] sw]) auto
    then show ?thesis
      using base v Some t' by (auto simp: uncrossed_def crosses_def taker_of_def)
  qed
qed

lemma fills_between_owners:
  assumes g: "good b" and r: "submit_op b ord policy = Inr (b', rp)" and f: "f \<in> set (rp_fills rp)"
  shows "fl_maker f \<in> set (view b)" and "bo_owner (fl_maker f) \<noteq> bo_owner (fl_taker f)"
    and "bo_owner (fl_taker f) = bo_owner ord" and "fl_price f = bo_price (fl_maker f)"
    and "crosses ord (fl_maker f)" and "0 < ival (fl_qty f)"
    and "ival (fl_qty f) \<le> ival (bo_rem (fl_maker f))"
proof -
  obtain fs t' where sw: "sweep (prio (view b) (taker_of ord)) (taker_of ord) = (fs, t')"
    and pos: "\<forall>m \<in> set (prio (view b) (taker_of ord)). 0 < ival (bo_rem m)"
    and q0: "0 < ival (bo_rem (taker_of ord))" and fs: "rp_fills rp = fs"
    by (rule submit_sweep [OF g r])
  note s = sweep_fill [OF sw _ pos, of f]
  have c: "crosses (taker_of ord) = crosses ord" by (simp add: crosses_def taker_of_def fun_eq_iff)
  have mem: "fl_maker f \<in> set (view b) \<and> crosses ord (fl_maker f)"
    using s(1) f fs q0 by (simp add: set_prio c)
  then show "fl_maker f \<in> set (view b)" "crosses ord (fl_maker f)" by auto
  show owner: "bo_owner (fl_taker f) = bo_owner ord" using s(6) f fs q0 by (simp add: taker_of_def)
  show "bo_owner (fl_maker f) \<noteq> bo_owner (fl_taker f)"
    using submit_view [OF g r] mem owner by (auto simp: acceptable_def)
  show "fl_price f = bo_price (fl_maker f)" "0 < ival (fl_qty f)"
    "ival (fl_qty f) \<le> ival (bo_rem (fl_maker f))"
    using s(2,3,4) f fs q0 by auto
qed

lemma fills_conserve:
  assumes g: "good b" and r: "submit_op b ord policy = Inr (b', rp)"
  shows "sum_list (map (\<lambda>f. ival (fl_qty f)) (rp_fills rp)) +
      (case rp_resting rp of None \<Rightarrow> 0 | Some x \<Rightarrow> ival (bo_rem x)) +
      (case rp_expired rp of None \<Rightarrow> 0 | Some x \<Rightarrow> ival (bo_rem x)) = ival (bo_qty ord)"
proof -
  obtain fs t' where sw: "sweep (prio (view b) (taker_of ord)) (taker_of ord) = (fs, t')"
    and pos: "\<forall>m \<in> set (prio (view b) (taker_of ord)). 0 < ival (bo_rem m)"
    and q0: "0 < ival (bo_rem (taker_of ord))" and fs: "rp_fills rp = fs"
    and rest: "rp_resting rp = (if bo_rem t' \<noteq> 0 \<and> bo_tif ord \<noteq> IOC then Some t' else None)"
    and exp: "rp_expired rp = (if bo_rem t' \<noteq> 0 \<and> bo_tif ord = IOC then Some t' else None)"
    by (rule submit_sweep [OF g r])
  obtain q where "t' = (taker_of ord)\<lparr>bo_rem := q\<rparr>"
    "sum_list (map (\<lambda>f. ival (fl_qty f)) fs) = ival (bo_rem (taker_of ord)) - ival q"
    using sweep_taker(1) [OF sw pos] q0 by auto
  then show ?thesis using fs rest exp by (auto simp: taker_of_def)
qed

lemma step_good:
  assumes "good b \<and> uncrossed (view b)"
  shows "submit_op b ord policy = Inr (b', rp) \<Longrightarrow> good b' \<and> uncrossed (view b')"
    and "cancel_op b i = Some (b', ord) \<Longrightarrow> good b' \<and> uncrossed (view b')"
  using assms submit_good [of b ord policy b' rp] keeps_uncrossed [of b ord policy b' rp]
    cancel_view [of b i b' ord]
  by (auto simp: uncrossed_def drop_id_def)

end

interpretation ob: matching_book book_inv live submit_public cancel_order
proof
  show "list_ok (live b)" if "book_inv b" for b using that by (rule book_inv_list_ok)
  show "book_inv b'" if "book_inv b" "submit_public b ord policy = Inr (b', rp)"
    for b ord policy b' rp
    using that submit_sound(1) by (simp add: submit_public_eq)
  show "submit_spec (live b) ord = (live b', rp) \<and> acceptable (live b) ord"
    if "book_inv b" "submit_public b ord policy = Inr (b', rp)" for b ord policy b' rp
    using that submit_sound(2,3) by (simp add: submit_public_eq)
  show "book_inv b' \<and> live b' = drop_id i (live b) \<and> ord \<in> set (live b) \<and> bo_id ord = i"
    if "book_inv b" "cancel_order b i = Some (b', ord)" for b i b' ord
    using that by (rule cancel_order_eq(2))
qed

end
