(* ===== verification/Book_Properties.thy ===== *)
theory Book_Properties
  imports Book_Contract
begin

text \<open>
  The properties of the order book, stated of every book a program can reach from \<open>new_book\<close>
  by submissions, cancellations and replacements. A command the book refuses leaves it as it
  was, as in the code, where the working copy is dropped.
\<close>

datatype book_cmd =
    Submit book_order self_trade_policy
  | Cancel u64
  | Replace u64 book_order self_trade_policy

fun run_book :: "book \<Rightarrow> book_cmd list \<Rightarrow> book" where
  "run_book b [] = b"
| "run_book b (Submit ord policy # cs) =
     run_book (case submit_public b ord policy of Inl _ \<Rightarrow> b | Inr (b', _) \<Rightarrow> b') cs"
| "run_book b (Cancel i # cs) =
     run_book (case cancel_order b i of None \<Rightarrow> b | Some (b', _) \<Rightarrow> b') cs"
| "run_book b (Replace i ord policy # cs) =
     run_book (case replace_order b i ord policy of Inl _ \<Rightarrow> b | Inr (b', _) \<Rightarrow> b') cs"

lemma replace_good:
  assumes "book_inv b" and "uncrossed (live b)" and "replace_order b i ord policy = Inr (b', rp)"
  shows "book_inv b' \<and> uncrossed (live b')"
proof -
  have rem: "book_inv (remove_order b i)" "live (remove_order b i) = drop_id i (live b)"
    using remove_order_inv [OF assms(1)] by auto
  have "submit_public (remove_order b i) ord policy = Inr (b', rp)"
    using assms(3) unfolding replace_order_eq [OF assms(1)] submit_public_eq [OF rem(1)]
    by (elim guardE_InrE)
  moreover have "book_inv (remove_order b i) \<and> uncrossed (live (remove_order b i))"
    using rem assms(2) by (simp add: uncrossed_def drop_id_def)
  ultimately show ?thesis using ob.step_good(1) by blast
qed

lemma run_book_good:
  assumes "book_inv b" and "uncrossed (live b)"
  shows "book_inv (run_book b cs) \<and> uncrossed (live (run_book b cs))"
  using assms
proof (induction b cs rule: run_book.induct)
  case (2 b ord policy cs)
  then show ?case
    using ob.step_good(1) [of b ord policy] by (cases "submit_public b ord policy") auto
next
  case (3 b i cs)
  then show ?case using ob.step_good(2) [of b i] by (cases "cancel_order b i") auto
next
  case (4 b i ord policy cs)
  then show ?case
    using replace_good [of b i ord policy] by (cases "replace_order b i ord policy") auto
qed simp

lemma run_book_sound: "book_inv (run_book new_book cs)" "uncrossed (live (run_book new_book cs))"
  using run_book_good [OF book_inv_new] by (simp_all add: uncrossed_def)

text \<open>C26. However it was reached, the book's levels, queues, level quantities and sorted price
  lists are exactly those its live orders determine, live orders are valid and have distinct ids
  and sequence numbers, and no bid is at or above an ask.\<close>

theorem book_reachable:
  "book_inv (run_book new_book cs) \<and> uncrossed (live (run_book new_book cs))"
  by (simp add: run_book_sound)

text \<open>C1. Submitting to a reachable book either fails with an ordinary error or returns exactly the
  book and the report of the price-time priority specification on the list of live orders.\<close>

theorem submit_refines_sweep:
  "case submit_public (run_book new_book cs) ord policy of
     Inl e \<Rightarrow> \<not> is_panic e
   | Inr (b', rp) \<Rightarrow> submit_spec (live (run_book new_book cs)) ord = (live b', rp)"
proof (cases "submit_public (run_book new_book cs) ord policy")
  case (Inl e)
  then show ?thesis
    using submit_no_panic [OF run_book_sound(1)] by (simp add: submit_public_eq [OF run_book_sound(1)])
next
  case (Inr r)
  then show ?thesis using ob.submit_view [OF run_book_sound(1)] by (cases r) simp
qed

text \<open>C30. A submission is refused only for a reason: an order that passes the guards, under the
  supported policy, is executed unless the level it would rest in overflows 64 bits.\<close>

theorem submit_accepts:
  assumes "acceptable (live (run_book new_book cs)) ord"
    and "\<forall>s p. fits (qty_at (fst (submit_spec (live (run_book new_book cs)) ord)) s p)"
  shows "\<not> isl (submit_public (run_book new_book cs) ord RejectTaker)"
  using submit_complete [OF run_book_sound(1) assms(1), of "fst (submit_spec (live (run_book new_book cs)) ord)"
      "snd (submit_spec (live (run_book new_book cs)) ord)"] assms(2)
  by (auto simp: submit_public_eq [OF run_book_sound(1)])

text \<open>C27. Price-time priority: the makers that trade are an initial segment of the crossing orders
  sorted by price and, within a price, by age.\<close>

theorem fills_follow_priority:
  "case submit_public (run_book new_book cs) ord policy of
     Inl _ \<Rightarrow> True
   | Inr (_, rp) \<Rightarrow> map fl_maker (rp_fills rp) =
       take (length (rp_fills rp)) (prio (live (run_book new_book cs)) ord)"
proof (cases "submit_public (run_book new_book cs) ord policy")
  case (Inr r)
  obtain b' rp where r: "r = (b', rp)" by (cases r)
  obtain fs t' where sw: "sweep (prio (live (run_book new_book cs)) (taker_of ord)) (taker_of ord) = (fs, t')"
    and "rp_fills rp = fs"
    by (rule ob.submit_sweep [OF run_book_sound(1) Inr [unfolded r]])
  moreover have "prio (live (run_book new_book cs)) (taker_of ord) = prio (live (run_book new_book cs)) ord"
    by (simp add: prio_def crosses_def [abs_def] taker_of_def)
  ultimately show ?thesis using sweep_prefix [OF sw] Inr r by simp
qed simp

text \<open>C28. Every fill is at the resting order's own price, within the taker's limit, for a positive
  quantity the maker still had, and never between two orders of the same owner.\<close>

theorem fills_are_fair:
  "case submit_public (run_book new_book cs) ord policy of
     Inl _ \<Rightarrow> True
   | Inr (_, rp) \<Rightarrow> list_all (\<lambda>f.
       fl_price f = bo_price (fl_maker f) \<and> crosses ord (fl_maker f) \<and> 0 < ival (fl_qty f) \<and>
       ival (fl_qty f) \<le> ival (bo_rem (fl_maker f)) \<and>
       bo_owner (fl_taker f) = bo_owner ord \<and> bo_owner (fl_maker f) \<noteq> bo_owner (fl_taker f))
       (rp_fills rp)"
proof (cases "submit_public (run_book new_book cs) ord policy")
  case (Inr r)
  obtain b' rp where r: "r = (b', rp)" by (cases r)
  show ?thesis
    using ob.fills_between_owners [OF run_book_sound(1) Inr [unfolded r]] Inr r
    by (simp add: list_all_iff)
qed simp

text \<open>C29. Quantity is conserved: what was filled, what rests and what expires add up to the order.\<close>

theorem submit_conserves_quantity:
  "case submit_public (run_book new_book cs) ord policy of
     Inl _ \<Rightarrow> True
   | Inr (_, rp) \<Rightarrow> sum_list (map (\<lambda>f. ival (fl_qty f)) (rp_fills rp)) +
       (case rp_resting rp of None \<Rightarrow> 0 | Some x \<Rightarrow> ival (bo_rem x)) +
       (case rp_expired rp of None \<Rightarrow> 0 | Some x \<Rightarrow> ival (bo_rem x)) = ival (bo_qty ord)"
  by (auto intro: ob.fills_conserve [OF run_book_sound(1)] split: sum.splits)

text \<open>C31. Replacement is atomic: it fails as a whole, or removes the old order and submits the new
  one to what is left.\<close>

theorem replace_is_remove_then_submit:
  "replace_order (run_book new_book cs) old r policy =
     (let b = run_book new_book cs in
      if lookup_order b old = None then fails ''order not found''
      else if bo_id r = old \<or> bo_seq r \<le> max_sequence b \<or> sequence_used b (bo_seq r) old
      then fails ''replacement must have a unique newer sequence''
      else submit_public (remove_order b old) r policy)"
  using remove_order_inv(1) [OF run_book_sound(1), of cs old]
  by (simp add: replace_order_eq [OF run_book_sound(1)] Let_def submit_public_eq guardE_def)

text \<open>The depth snapshots are the live orders aggregated by price, best price first.\<close>

theorem depth_is_exact:
  "\<exists>ps qs. bids (run_book new_book cs) = Inr (map (depth_spec (live (run_book new_book cs)) Buy) ps) \<and>
     asks (run_book new_book cs) = Inr (map (depth_spec (live (run_book new_book cs)) Sell) qs) \<and>
     sorted_wrt (>) ps \<and> set ps = prices_of (live (run_book new_book cs)) Buy \<and>
     sorted_wrt (<) qs \<and> set qs = prices_of (live (run_book new_book cs)) Sell"
proof -
  let ?b = "run_book new_book cs"
  have side: "side_inv (live ?b) Buy (bk_bids ?b)" "side_inv (live ?b) Sell (bk_asks ?b)"
    using run_book_sound(1) by (auto simp: book_inv_def)
  then have "sorted_wrt (>) (rev (sd_prices (bk_bids ?b)))"
    "set (rev (sd_prices (bk_bids ?b))) = prices_of (live ?b) Buy"
    "sorted_wrt (<) (sd_prices (bk_asks ?b))" "set (sd_prices (bk_asks ?b)) = prices_of (live ?b) Sell"
    by (simp_all add: side_inv_def sorted_wrt_rev)
  then show ?thesis
    using snapshot_eq [OF side(1), of True] snapshot_eq [OF side(2), of False]
    by (auto simp: bids_def asks_def intro!: exI)
qed

text \<open>C32. Cancelling removes exactly the named order and fails only if it is not live.\<close>

theorem cancel_removes_exactly:
  "case cancel_order (run_book new_book cs) i of
     None \<Rightarrow> i \<notin> bo_id ` set (live (run_book new_book cs))
   | Some (b', ord) \<Rightarrow> live b' = drop_id i (live (run_book new_book cs)) \<and> bo_id ord = i \<and>
       ord \<in> set (live (run_book new_book cs))"
  using cancel_order_eq [OF run_book_sound(1), of cs i] by (auto split: option.splits)

text \<open>The hypotheses of \<open>submit_accepts\<close> hold of a first sell order on an empty book.\<close>

definition sample_order :: "u64 \<Rightarrow> string \<Rightarrow> side \<Rightarrow> price \<Rightarrow> qty \<Rightarrow> tif \<Rightarrow> book_order" where
  "sample_order i owner s p q f = \<lparr>bo_id = i, bo_seq = i, bo_owner = owner, bo_side = s,
     bo_price = p, bo_qty = q, bo_rem = 0, bo_tif = f\<rparr>"

theorem submit_accepts_witness:
  "\<not> isl (submit_public (run_book new_book []) (sample_order 1 ''a'' Sell 100 5 GTC) RejectTaker)"
proof (rule submit_accepts)
  show "acceptable (live (run_book new_book [])) (sample_order 1 ''a'' Sell 100 5 GTC)"
    by code_simp
  have "fst (submit_spec (live (run_book new_book [])) (sample_order 1 ''a'' Sell 100 5 GTC)) =
      [(sample_order 1 ''a'' Sell 100 5 GTC)\<lparr>bo_rem := 5\<rparr>]"
    by code_simp
  then show "\<forall>s p. fits (qty_at (fst (submit_spec (live (run_book new_book []))
      (sample_order 1 ''a'' Sell 100 5 GTC))) s p)"
    by (simp add: qty_at_def at_def fits_def)
qed

end
