(* ===== verification/Exchange_Types.thy ===== *)
theory Exchange_Types
  imports Ledger Rng Decimal Book_Properties
begin

text \<open>
  The data of the exchange kernel (\<^verbatim>\<open>internal/exchange/exchange.go\<close>): configuration and its
  validation, accounts, orders, trades, events, results and the engine's state. The JSON field
  names are not modelled. A pointer to an account is the account's key in \<open>e_accounts\<close>.
\<close>

subsection \<open>Configuration\<close>

record config =
  cf_instrument :: string
  cf_cash :: money
  cf_position :: qty
  cf_mark :: price
  cf_storage :: price
  cf_turns :: i64
  cf_initial_bps :: i64
  cf_maint_bps :: i64
  cf_max_position :: qty
  cf_max_orders :: i64
  cf_max_qty :: qty
  cf_max_slip :: i64
  cf_min_move :: i64
  cf_max_move :: i64
  cf_seed :: u64
  cf_version :: i64
  cf_informed :: i64

definition version_legacy :: i64 where "version_legacy = 1"
definition version_adverse :: i64 where "version_adverse = 2"

text \<open>\<open>orFail r msg k\<close> is \<^verbatim>\<open>x, err := r; if err != nil { return errors.New(msg) }\<close>: the error is
  replaced, not passed on.\<close>

definition orFail :: "'a res \<Rightarrow> string \<Rightarrow> ('a \<Rightarrow> 'b res) \<Rightarrow> 'b res" where
  "orFail r msg k = (case r of Inl _ \<Rightarrow> fails msg | Inr x \<Rightarrow> k x)"

definition validate_config :: "config \<Rightarrow> unit res" where
  "validate_config c =
     guardE (cf_instrument c = '''') ''instrument is required''
     (guardE (cf_cash c < 0) ''starting cash must be non-negative''
     (guardE (\<not> positive (cf_mark c)) ''starting mark must be positive''
     (guardE (cf_storage c < 0) ''storage per unit must be non-negative''
     (guardE (cf_turns c < 0) ''number of turns must be non-negative''
     (guardE (cf_initial_bps c < 0 \<or> cf_initial_bps c > 10000 \<or> cf_maint_bps c < 0 \<or>
              cf_maint_bps c > cf_initial_bps c) ''invalid margin scenario''
     (guardE (cf_max_position c \<le> 0) ''max position must be positive''
     (orFail (abs_qty_checked (cf_position c)) ''starting position exceeds supported range'' (\<lambda>pos_abs.
      guardE (pos_abs > cf_max_position c) ''starting position exceeds maximum position''
     (guardE (cf_max_orders c < 0 \<or> cf_max_orders c > 1000 \<or> \<not> positive (cf_max_qty c) \<or>
              cf_max_slip c < 0 \<or> cf_max_slip c > 10000) ''invalid flow scenario''
     (guardE (cf_min_move c > cf_max_move c \<or> cf_min_move c \<le> - 10000 \<or> cf_max_move c > 10000)
        ''invalid mark movement range''
     (orFail (notional (cf_mark c) (cf_max_position c)) ''position and mark exceed supported range'' (\<lambda>_.
      orFail (notional (cf_storage c) (cf_max_position c)) ''storage and position exceed supported range'' (\<lambda>_.
      orFail (notional (cf_mark c) (cf_position c)) ''starting equity exceeds supported range'' (\<lambda>worth.
      orFail (add_money (cf_cash c) worth) ''starting account has non-positive equity'' (\<lambda>eq.
      guardE (eq \<le> 0) ''starting account has non-positive equity''
     (orFail (notional (cf_mark c) pos_abs) ''starting exposure exceeds supported range'' (\<lambda>gross.
      orFail (scale_money gross (cf_initial_bps c) 10000) ''starting account violates initial margin'' (\<lambda>margin.
      guardE (eq < margin) ''starting account violates initial margin''
     (guardE (cf_seed c = 0) ''resolved seed must be non-zero''
     (if cf_version c = 0 \<or> cf_version c = version_legacy
      then guardE (cf_informed c \<noteq> 0) ''legacy simulation requires zero informed flow'' (Inr ())
      else if cf_version c = version_adverse
      then guardE (cf_informed c < 0 \<or> cf_informed c > 10000)
             ''informed flow must be between 0 and 10000 bps'' (Inr ())
      else fails ''unsupported simulation version''))))))))))))))))))))"

subsection \<open>Accounts, orders, trades\<close>

datatype end_reason =
    NotOver | TurnsComplete | TimeExpired | MarginBreach | Insolvent | PlayerQuit

record account =
  ac_id :: string
  ac_cash :: money
  ac_reserved :: money
  ac_position :: qty
  ac_open_buy :: qty
  ac_open_sell :: qty
  ac_external :: bool

record account_state =
  as_id :: string
  as_cash :: money
  as_reserved :: money
  as_available :: money
  as_position :: qty
  as_open_buy :: qty
  as_open_sell :: qty
  as_equity :: money

record order =
  or_id :: u64
  or_seq :: u64
  or_account :: string
  or_side :: side
  or_price :: price
  or_qty :: qty
  or_rem :: qty
  or_tif :: tif
  or_informed :: bool

record trade =
  tr_id :: u64
  tr_maker :: u64
  tr_taker :: u64
  tr_price :: price
  tr_qty :: qty
  tr_buyer :: string
  tr_seller :: string
  tr_informed :: bool

record event =
  ev_seq :: u64
  ev_command :: string
  ev_type :: string
  ev_order :: "order option"
  ev_previous :: "order option"
  ev_trade :: "trade option"
  ev_account :: "account_state option"
  ev_amount :: money
  ev_mark :: price
  ev_reason :: end_reason
  ev_message :: string
  ev_prev_mark :: price

record attribution =
  at_edge :: money
  at_inventory :: money
  at_storage :: money

record summary =
  sm_orders :: i64
  sm_units :: qty
  sm_fill_cash :: money
  sm_storage :: money
  sm_turn_pnl :: money
  sm_action_pnl :: money
  sm_buy_volume :: qty
  sm_sell_volume :: qty
  sm_attribution :: "attribution option"
  sm_informed_orders :: i64
  sm_informed_filled :: i64
  sm_informed_units :: qty
  sm_informed_pnl :: money

record state =
  st_version :: u64
  st_turn :: i64
  st_cash :: money
  st_position :: qty
  st_mark :: price
  st_equity :: money
  st_over :: bool
  st_reason :: end_reason
  st_best_bid :: price
  st_best_ask :: price

record depth_level =
  dl_price :: price
  dl_qty :: qty
  dl_count :: nat
  dl_owned :: qty

record depth_view =
  dv_bids :: "depth_level list"
  dv_asks :: "depth_level list"

record result =
  rs_state :: state
  rs_summary :: summary
  rs_events :: "event list"
  rs_ledger :: "ledger_entry list"

record command =
  cm_id :: string
  cm_type :: string
  cm_version :: u64
  cm_account :: string
  cm_bid :: price
  cm_ask :: price
  cm_side :: side
  cm_price :: price
  cm_qty :: qty
  cm_tif :: tif
  cm_order :: u64
  cm_cash :: money
  cm_position :: qty

subsection \<open>The engine\<close>

record engine =
  e_cfg :: config
  e_pcg :: pcg
  e_flow_rng :: split_mix
  e_mark_rng :: split_mix
  e_informed_rng :: split_mix
  e_accounts :: "(string, account) fmap"
  e_book :: book
  e_ledger :: ledger
  e_next_order :: u64
  e_next_trade :: u64
  e_next_event :: u64
  e_version :: u64
  e_turn :: i64
  e_mark :: price
  e_over :: bool
  e_reason :: end_reason

definition player_account :: string where "player_account = ''player''"
definition flow_account :: string where "flow_account = ''simulated-flow''"

definition flow_seed_domain :: u64 where "flow_seed_domain = 0x666c6f772d737472"
definition mark_seed_domain :: u64 where "mark_seed_domain = 0x6d61726b2d737472"
definition informed_seed_domain :: u64 where "informed_seed_domain = 0x696e666f726d6564"

definition zero_summary :: summary where
  "zero_summary = \<lparr>sm_orders = 0, sm_units = 0, sm_fill_cash = 0, sm_storage = 0, sm_turn_pnl = 0,
     sm_action_pnl = 0, sm_buy_volume = 0, sm_sell_volume = 0, sm_attribution = None,
     sm_informed_orders = 0, sm_informed_filled = 0, sm_informed_units = 0, sm_informed_pnl = 0\<rparr>"

definition zero_attribution :: attribution where
  "zero_attribution = \<lparr>at_edge = 0, at_inventory = 0, at_storage = 0\<rparr>"

definition event_of :: "string \<Rightarrow> event" where
  "event_of ty = \<lparr>ev_seq = 0, ev_command = '''', ev_type = ty, ev_order = None, ev_previous = None,
     ev_trade = None, ev_account = None, ev_amount = 0, ev_mark = 0, ev_reason = NotOver,
     ev_message = '''', ev_prev_mark = 0\<rparr>"

definition new_account :: "string \<Rightarrow> money \<Rightarrow> qty \<Rightarrow> account" where
  "new_account i cash position = \<lparr>ac_id = i, ac_cash = cash, ac_reserved = 0, ac_position = position,
     ac_open_buy = 0, ac_open_sell = 0, ac_external = False\<rparr>"

definition to_book_order :: "order \<Rightarrow> book_order" where
  "to_book_order ord = \<lparr>bo_id = or_id ord, bo_seq = or_seq ord, bo_owner = or_account ord,
     bo_side = or_side ord, bo_price = or_price ord, bo_qty = or_qty ord, bo_rem = or_rem ord,
     bo_tif = or_tif ord\<rparr>"

definition from_book_order :: "book_order \<Rightarrow> order" where
  "from_book_order ord = \<lparr>or_id = bo_id ord, or_seq = bo_seq ord, or_account = bo_owner ord,
     or_side = bo_side ord, or_price = bo_price ord, or_qty = bo_qty ord, or_rem = bo_rem ord,
     or_tif = bo_tif ord, or_informed = False\<rparr>"

lemma to_from_book_order [simp]: "to_book_order (from_book_order ord) = ord"
  by (simp add: to_book_order_def from_book_order_def)

lemma orFail_InrE [elim!, bind_elims]:
  assumes "orFail r msg k = Inr y"
  obtains x where "r = Inr x" and "k x = Inr y"
  using assms by (auto simp: orFail_def split: sum.splits)

lemma orFail_Inr [simp]: "orFail (Inr x) msg k = k x"
  by (simp add: orFail_def)

text \<open>What a validated configuration guarantees.\<close>

lemma validate_configD:
  assumes "validate_config c = Inr ()"
  shows "0 \<le> ival (cf_cash c)" "0 < ival (cf_mark c)" "0 \<le> ival (cf_storage c)"
    "0 \<le> ival (cf_turns c)"
    "0 \<le> ival (cf_initial_bps c)" "ival (cf_initial_bps c) \<le> 10000"
    "0 \<le> ival (cf_maint_bps c)" "ival (cf_maint_bps c) \<le> ival (cf_initial_bps c)"
    "0 < ival (cf_max_position c)" "0 \<le> ival (cf_max_orders c)" "ival (cf_max_orders c) \<le> 1000"
    "0 < ival (cf_max_qty c)" "0 \<le> ival (cf_max_slip c)" "ival (cf_max_slip c) \<le> 10000"
    "ival (cf_min_move c) \<le> ival (cf_max_move c)" "- 10000 < ival (cf_min_move c)"
    "ival (cf_max_move c) \<le> 10000"
    "\<bar>ival (cf_position c)\<bar> \<le> ival (cf_max_position c)"
  using assms unfolding validate_config_def
  by (auto simp: positive_def i64_order not_le not_less dest: exactly_InrD [OF abs_qty_exact])

end
