(* ===== verification/Exchange_Risk.thy ===== *)
theory Exchange_Risk
  imports Exchange_Types
begin

text \<open>
  The read side of the engine: equity, the state and account views, the depth view and the risk
  checks (\<^verbatim>\<open>canPlaceOrders\<close>, \<^verbatim>\<open>fillStateWithinInitialMargin\<close>, \<^verbatim>\<open>accountWithinLimits\<close>). A check that
  answers false on any arithmetic error is written with \<open>orFalse\<close>.
\<close>

definition orFalse :: "'a res \<Rightarrow> ('a \<Rightarrow> bool) \<Rightarrow> bool" where
  "orFalse r k = (case r of Inl _ \<Rightarrow> False | Inr x \<Rightarrow> k x)"

lemma orFalse_iff: "orFalse r k \<longleftrightarrow> (\<exists>x. r = Inr x \<and> k x)"
  by (cases r) (simp_all add: orFalse_def)

text \<open>\<^verbatim>\<open>x, _ := r\<close>: the functions called so return zero with their error.\<close>

definition or_zero :: "money res \<Rightarrow> money" where
  "or_zero r = (case r of Inl _ \<Rightarrow> 0 | Inr x \<Rightarrow> x)"

definition get_account :: "engine \<Rightarrow> string \<Rightarrow> account res" where
  "get_account e i = (case fmlookup (e_accounts e) i of None \<Rightarrow> panics ''nil account'' | Some a \<Rightarrow> Inr a)"

definition equity :: "price \<Rightarrow> account \<Rightarrow> money res" where
  "equity mark a = bindE (notional mark (ac_position a)) (\<lambda>n. add_money (ac_cash a) n)"

definition state_of :: "engine \<Rightarrow> state res" where
  "state_of e = bindE (get_account e player_account) (\<lambda>a.
     Inr \<lparr>st_version = e_version e, st_turn = e_turn e, st_cash = ac_cash a,
          st_position = ac_position a, st_mark = e_mark e, st_equity = or_zero (equity (e_mark e) a),
          st_over = e_over e, st_reason = e_reason e, st_best_bid = best_bid (e_book e),
          st_best_ask = best_ask (e_book e)\<rparr>)"

definition open_orders :: "engine \<Rightarrow> string \<Rightarrow> order list" where
  "open_orders e i = map from_book_order (orders (e_book e) i)"

text \<open>\<^verbatim>\<open>Account\<close>: the view, or not found when the account is missing or a sum overflows.\<close>

definition account_view :: "engine \<Rightarrow> string \<Rightarrow> account_state option" where
  "account_view e i =
     (case fmlookup (e_accounts e) i of
        None \<Rightarrow> None
      | Some a \<Rightarrow>
        (case add_money (ac_cash a) (- ac_reserved a) of
           Inl _ \<Rightarrow> None
         | Inr available \<Rightarrow>
           (case equity (e_mark e) a of
              Inl _ \<Rightarrow> None
            | Inr eq \<Rightarrow> Some
                \<lparr>as_id = ac_id a, as_cash = ac_cash a, as_reserved = ac_reserved a,
                 as_available = available, as_position = ac_position a,
                 as_open_buy = ac_open_buy a, as_open_sell = ac_open_sell a, as_equity = eq\<rparr>)))"

definition zero_account_state :: account_state where
  "zero_account_state = \<lparr>as_id = '''', as_cash = 0, as_reserved = 0, as_available = 0,
     as_position = 0, as_open_buy = 0, as_open_sell = 0, as_equity = 0\<rparr>"

text \<open>\<^verbatim>\<open>Depth\<close>: the owner's remaining quantity at each price is accumulated in a map per side with
  wrapping addition; a missing key reads as zero.\<close>

definition add_owned :: "(price, qty) fmap \<Rightarrow> order \<Rightarrow> (price, qty) fmap" where
  "add_owned m ord =
     fmupd (or_price ord)
       ((case fmlookup m (or_price ord) of None \<Rightarrow> 0 | Some q \<Rightarrow> q) + or_rem ord) m"

definition owned_at :: "order list \<Rightarrow> side \<Rightarrow> price \<Rightarrow> qty" where
  "owned_at os s p =
     (case fmlookup (foldl add_owned fmempty (filter (\<lambda>ord. or_side ord = s) os)) p of
        None \<Rightarrow> 0 | Some q \<Rightarrow> q)"

definition project_depth :: "nat \<Rightarrow> order list \<Rightarrow> side \<Rightarrow> depth list \<Rightarrow> depth_level list" where
  "project_depth levels os s source =
     map (\<lambda>l. \<lparr>dl_price = dp_price l, dl_qty = dp_qty l, dl_count = dp_count l,
               dl_owned = owned_at os s (dp_price l)\<rparr>)
       (take levels source)"

definition depth_view_of :: "engine \<Rightarrow> int \<Rightarrow> string \<Rightarrow> depth_view res" where
  "depth_view_of e levels owner =
     (let n = nat levels; os = open_orders e owner in
      bindE (bids (e_book e)) (\<lambda>bs. bindE (asks (e_book e)) (\<lambda>as.
      Inr \<lparr>dv_bids = project_depth n os Buy bs, dv_asks = project_depth n os Sell as\<rparr>)))"

subsection \<open>Risk\<close>

record risk_order =
  ro_side :: side
  ro_price :: price
  ro_qty :: qty

record risk_sums =
  rk_gross :: money
  rk_long :: qty
  rk_short :: qty
  rk_buy :: money
  rk_sell :: money

definition risk_step :: "risk_sums \<Rightarrow> risk_order \<Rightarrow> risk_sums res" where
  "risk_step s ro =
     bindE (notional (ro_price ro) (ro_qty ro)) (\<lambda>n.
     bindE (add_money (rk_gross s) n) (\<lambda>g.
     if ro_side ro = Buy
     then bindE (add_qty (rk_long s) (ro_qty ro)) (\<lambda>l.
          bindE (add_money (rk_buy s) n) (\<lambda>b.
          Inr (s\<lparr>rk_gross := g, rk_long := l, rk_buy := b\<rparr>)))
     else bindE (sub_qty (rk_short s) (ro_qty ro)) (\<lambda>l.
          bindE (add_money (rk_sell s) n) (\<lambda>b.
          Inr (s\<lparr>rk_gross := g, rk_short := l, rk_sell := b\<rparr>)))))"

definition fill_state_ok :: "config \<Rightarrow> price \<Rightarrow> money \<Rightarrow> qty \<Rightarrow> bool" where
  "fill_state_ok c mark cash position =
     orFalse (notional mark position) (\<lambda>marked.
     orFalse (add_money cash marked) (\<lambda>eq.
     orFalse (abs_qty_checked position) (\<lambda>pos_abs. pos_abs \<le> cf_max_position c \<and>
     orFalse (notional mark pos_abs) (\<lambda>gross.
     orFalse (scale_money gross (cf_initial_bps c) 10000) (\<lambda>required. eq \<ge> required)))))"

definition risk_of_book_order :: "book_order \<Rightarrow> risk_order" where
  "risk_of_book_order ord = \<lparr>ro_side = bo_side ord, ro_price = bo_price ord, ro_qty = bo_rem ord\<rparr>"

definition risk_orders :: "engine \<Rightarrow> string \<Rightarrow> risk_order list \<Rightarrow> u64 \<Rightarrow> bool \<Rightarrow> risk_order list" where
  "risk_orders e i proposed excluded include_existing =
     (if include_existing
      then map risk_of_book_order (filter (\<lambda>ord. bo_id ord \<noteq> excluded) (orders (e_book e) i))
      else []) @ proposed"

definition can_place_account :: "config \<Rightarrow> price \<Rightarrow> account \<Rightarrow> risk_order list \<Rightarrow> bool" where
  "can_place_account c mark a os =
     (ac_external a \<or>
      orFalse (abs_qty_checked (ac_position a)) (\<lambda>pos_abs.
      orFalse (notional mark pos_abs) (\<lambda>gross.
      orFalse (foldE risk_step
          \<lparr>rk_gross = gross, rk_long = ac_position a, rk_short = ac_position a, rk_buy = 0, rk_sell = 0\<rparr> os)
        (\<lambda>s.
      orFalse (abs_qty_checked (rk_long s)) (\<lambda>long_abs. long_abs \<le> cf_max_position c \<and>
      orFalse (abs_qty_checked (rk_short s)) (\<lambda>short_abs. short_abs \<le> cf_max_position c \<and>
      orFalse (equity mark a) (\<lambda>eq. \<not> ac_cash a < rk_buy s \<and>
      orFalse (scale_money (rk_gross s) (cf_initial_bps c) 10000) (\<lambda>required. \<not> eq < required \<and>
      orFalse (sub_money (ac_cash a) (rk_buy s)) (\<lambda>long_cash.
      orFalse (add_money (ac_cash a) (rk_sell s)) (\<lambda>short_cash.
        fill_state_ok c mark long_cash (rk_long s) \<and>
        fill_state_ok c mark short_cash (rk_short s)))))))))))"

definition can_place_orders ::
  "engine \<Rightarrow> string \<Rightarrow> risk_order list \<Rightarrow> u64 \<Rightarrow> bool \<Rightarrow> bool res" where
  "can_place_orders e i proposed excluded include_existing =
     bindE (get_account e i) (\<lambda>a.
       Inr (can_place_account (e_cfg e) (e_mark e) a (risk_orders e i proposed excluded include_existing)))"

definition can_place_excluding :: "engine \<Rightarrow> string \<Rightarrow> side \<Rightarrow> price \<Rightarrow> qty \<Rightarrow> u64 \<Rightarrow> bool res" where
  "can_place_excluding e i s p q excluded =
     can_place_orders e i [\<lparr>ro_side = s, ro_price = p, ro_qty = q\<rparr>] excluded True"

definition can_place :: "engine \<Rightarrow> string \<Rightarrow> side \<Rightarrow> price \<Rightarrow> qty \<Rightarrow> bool res" where
  "can_place e i s p q = can_place_excluding e i s p q 0"

definition can_place_quote_pair :: "engine \<Rightarrow> price \<Rightarrow> price \<Rightarrow> qty \<Rightarrow> bool res" where
  "can_place_quote_pair e bid ask q =
     can_place_orders e player_account
       [\<lparr>ro_side = Buy, ro_price = bid, ro_qty = q\<rparr>, \<lparr>ro_side = Sell, ro_price = ask, ro_qty = q\<rparr>] 0 False"

definition within_limits :: "config \<Rightarrow> price \<Rightarrow> account \<Rightarrow> bool \<Rightarrow> bool" where
  "within_limits c mark a maintenance =
     (ac_external a \<or>
      orFalse (abs_qty_checked (ac_position a)) (\<lambda>pos_abs. pos_abs \<le> cf_max_position c \<and>
      orFalse (equity mark a) (\<lambda>eq. eq > 0 \<and>
      orFalse (notional mark pos_abs) (\<lambda>gross.
      orFalse (scale_money gross (if maintenance then cf_maint_bps c else cf_initial_bps c) 10000)
        (\<lambda>required. eq \<ge> required)))))"

definition account_within_limits :: "engine \<Rightarrow> string \<Rightarrow> bool \<Rightarrow> bool res" where
  "account_within_limits e i maintenance =
     bindE (get_account e i) (\<lambda>a. Inr (within_limits (e_cfg e) (e_mark e) a maintenance))"

definition validate_player_quote :: "engine \<Rightarrow> price \<Rightarrow> price \<Rightarrow> qty \<Rightarrow> unit res" where
  "validate_player_quote e bid ask q =
     guardE (e_over e) ''game is over''
     (guardE (\<not> positive bid \<or> \<not> positive ask \<or> bid \<ge> ask)
        ''bid must be positive and strictly less than ask''
     (bindE (can_place_quote_pair e bid ask q) (\<lambda>ok.
      guardE (\<not> ok) ''quote would violate cash, position, or initial-margin limits'' (Inr ()))))"

definition validate_real_time_quote :: "engine \<Rightarrow> price \<Rightarrow> price \<Rightarrow> qty \<Rightarrow> unit res" where
  "validate_real_time_quote e bid ask q =
     guardE (\<not> positive q \<or> q > cf_max_qty (e_cfg e)) ''quote quantity exceeds configured limits''
       (validate_player_quote e bid ask q)"

subsection \<open>What the checks mean in exact arithmetic\<close>

definition equity_int :: "price \<Rightarrow> money \<Rightarrow> qty \<Rightarrow> int" where
  "equity_int mark cash position = ival cash + ival mark * ival position"

lemma equity_exact: "equity mark a = Inr v \<Longrightarrow> ival v = equity_int mark (ac_cash a) (ac_position a)"
  by (auto simp: equity_def equity_int_def
      dest!: exactly_InrD [OF notional_exact] exactly_InrD [OF add_money_exact])

text \<open>\<open>margin_met bps eq gross\<close>: equity \<open>eq\<close> covers \<open>bps\<close> ten-thousandths of \<open>gross\<close>, rounded down.\<close>

definition margin_met :: "i64 \<Rightarrow> int \<Rightarrow> int \<Rightarrow> bool" where
  "margin_met bps eq gross \<longleftrightarrow> eq \<ge> gross * ival bps div 10000"

lemma margin_met_iff: "margin_met bps eq gross \<longleftrightarrow> gross * ival bps - 10000 * eq \<le> 9999"
proof -
  have "x div 10000 \<le> eq \<longleftrightarrow> x - 10000 * eq \<le> 9999" for x :: int
    by linarith
  then show ?thesis by (simp only: margin_met_def)
qed

lemma scale_margin:
  assumes "scale_money g bps 10000 = Inr r" and "0 \<le> ival g"
  shows "0 \<le> ival bps" and "ival r = ival g * ival bps div 10000"
proof -
  show bps: "0 \<le> ival bps"
    using assms(1) by (auto simp: scale_money_eq i64_order split: if_splits)
  have "ival (10000 :: i64) = 10000" by simp
  then show "ival r = ival g * ival bps div 10000"
    using assms bps
    by (auto simp: scale_money_eq signed_divide_int_def ival_i64_of sgn_if zero_less_mult_iff
        split: if_splits)
qed

lemma fill_state_okD:
  assumes "fill_state_ok c mark cash position" and "0 \<le> ival mark"
  shows "\<bar>ival position\<bar> \<le> ival (cf_max_position c)"
    and "margin_met (cf_initial_bps c) (equity_int mark cash position) (ival mark * \<bar>ival position\<bar>)"
proof -
  from assms(1) obtain n v pa g r where
    n: "notional mark position = Inr n" and v: "add_money cash n = Inr v"
    and pa: "abs_qty_checked position = Inr pa" "pa \<le> cf_max_position c"
    and g: "notional mark pa = Inr g" and r: "scale_money g (cf_initial_bps c) 10000 = Inr r" "v \<ge> r"
    by (auto simp: fill_state_ok_def orFalse_iff)
  have "ival pa = \<bar>ival position\<bar>" by (rule exactly_InrD [OF abs_qty_exact pa(1)])
  moreover have "ival g = ival mark * ival pa" by (rule exactly_InrD [OF notional_exact g])
  moreover have "ival v = equity_int mark cash position"
    using exactly_InrD [OF notional_exact n] exactly_InrD [OF add_money_exact v]
    by (simp add: equity_int_def)
  moreover have "ival r = ival g * ival (cf_initial_bps c) div 10000"
    using calculation assms(2) by (intro scale_margin(2) [OF r(1)]) simp
  ultimately show "\<bar>ival position\<bar> \<le> ival (cf_max_position c)"
    and "margin_met (cf_initial_bps c) (equity_int mark cash position) (ival mark * \<bar>ival position\<bar>)"
    using pa(2) r(2) by (simp_all add: margin_met_def i64_order)
qed

text \<open>The sums of the risk loop.\<close>

definition notional_sum :: "side \<Rightarrow> risk_order list \<Rightarrow> int" where
  "notional_sum s os = sum_list (map (\<lambda>ro. ival (ro_price ro) * ival (ro_qty ro))
     (filter (\<lambda>ro. (ro_side ro = Buy) = (s = Buy)) os))"

definition qty_sum :: "side \<Rightarrow> risk_order list \<Rightarrow> int" where
  "qty_sum s os = sum_list (map (\<lambda>ro. ival (ro_qty ro)) (filter (\<lambda>ro. (ro_side ro = Buy) = (s = Buy)) os))"

lemma risk_step_Inr:
  assumes "risk_step s ro = Inr s'"
  shows "ival (rk_gross s') = ival (rk_gross s) + ival (ro_price ro) * ival (ro_qty ro)"
    "ival (rk_long s') = ival (rk_long s) + qty_sum Buy [ro]"
    "ival (rk_short s') = ival (rk_short s) - qty_sum Sell [ro]"
    "ival (rk_buy s') = ival (rk_buy s) + notional_sum Buy [ro]"
    "ival (rk_sell s') = ival (rk_sell s) + notional_sum Sell [ro]"
  using assms
  by (auto simp: risk_step_def qty_sum_def notional_sum_def
      dest!: exactly_InrD [OF notional_exact] exactly_InrD [OF add_money_exact]
        exactly_InrD [OF add_qty_exact] exactly_InrD [OF sub_qty_exact] split: if_splits)

lemma risk_fold_Inr:
  assumes "foldE risk_step s os = Inr s'"
  shows "ival (rk_gross s') = ival (rk_gross s) + notional_sum Buy os + notional_sum Sell os \<and>
    ival (rk_long s') = ival (rk_long s) + qty_sum Buy os \<and>
    ival (rk_short s') = ival (rk_short s) - qty_sum Sell os \<and>
    ival (rk_buy s') = ival (rk_buy s) + notional_sum Buy os \<and>
    ival (rk_sell s') = ival (rk_sell s) + notional_sum Sell os"
  using assms
proof (induction os arbitrary: s)
  case Nil
  then show ?case by (simp add: notional_sum_def qty_sum_def)
next
  case (Cons ro os)
  then obtain s1 where one: "risk_step s ro = Inr s1" and rest: "foldE risk_step s1 os = Inr s'"
    by auto
  show ?case
    using Cons.IH [OF rest] risk_step_Inr [OF one] by (auto simp: notional_sum_def qty_sum_def)
qed

text \<open>What it means for an order set to pass the check: after filling nothing, every buy or every
  sell, the account is within its position limit and its initial margin, and it could pay for
  every buy.\<close>

lemma can_place_sound:
  assumes ok: "can_place_account c mark a os" and ext: "\<not> ac_external a" and mark: "0 \<le> ival mark"
    and pos: "\<forall>ro \<in> set os. 0 \<le> ival (ro_price ro) \<and> 0 \<le> ival (ro_qty ro)"
  defines "p \<equiv> ival (ac_position a)" and "k \<equiv> ival (ac_cash a)" and "m \<equiv> ival mark"
    and "bps \<equiv> cf_initial_bps c" and "mx \<equiv> ival (cf_max_position c)"
  shows "notional_sum Buy os \<le> k" and "0 \<le> ival bps"
    and "margin_met bps (k + m * p) (m * \<bar>p\<bar>)"
    and "\<bar>p + qty_sum Buy os\<bar> \<le> mx" and "\<bar>p - qty_sum Sell os\<bar> \<le> mx"
    and "margin_met bps (k - notional_sum Buy os + m * (p + qty_sum Buy os)) (m * \<bar>p + qty_sum Buy os\<bar>)"
    and "margin_met bps (k + notional_sum Sell os + m * (p - qty_sum Sell os)) (m * \<bar>p - qty_sum Sell os\<bar>)"
proof -
  from ok ext obtain pa g s eq r lc sc where
    pa: "abs_qty_checked (ac_position a) = Inr pa" and g: "notional mark pa = Inr g"
    and s: "foldE risk_step \<lparr>rk_gross = g, rk_long = ac_position a, rk_short = ac_position a,
        rk_buy = 0, rk_sell = 0\<rparr> os = Inr s"
    and eq: "equity mark a = Inr eq" and cash: "\<not> ac_cash a < rk_buy s"
    and r: "scale_money (rk_gross s) bps 10000 = Inr r" "\<not> eq < r"
    and lc: "sub_money (ac_cash a) (rk_buy s) = Inr lc"
    and sc: "add_money (ac_cash a) (rk_sell s) = Inr sc"
    and long: "fill_state_ok c mark lc (rk_long s)" and short: "fill_state_ok c mark sc (rk_short s)"
    by (auto simp: can_place_account_def orFalse_iff bps_def)
  have ipa: "ival pa = \<bar>p\<bar>" unfolding p_def by (rule exactly_InrD [OF abs_qty_exact pa])
  have ig: "ival g = m * \<bar>p\<bar>" using exactly_InrD [OF notional_exact g] ipa by (simp add: m_def)
  note sums = risk_fold_Inr [OF s]
  have nonneg: "0 \<le> notional_sum side os" for side
    using pos unfolding notional_sum_def by (intro sum_list_nonneg) auto
  have gross: "ival (rk_gross s) = m * \<bar>p\<bar> + notional_sum Buy os + notional_sum Sell os"
    using sums ig by simp
  have m0: "0 \<le> m" using mark by (simp add: m_def)
  then have g0: "0 \<le> ival (rk_gross s)" using gross nonneg by simp
  show bps: "0 \<le> ival bps" by (rule scale_margin(1) [OF r(1) g0])
  have ieq: "ival eq = k + m * p" using equity_exact [OF eq] by (simp add: equity_int_def k_def m_def p_def)
  have "ival (rk_gross s) * ival bps div 10000 \<le> k + m * p"
    using r(2) scale_margin(2) [OF r(1) g0] ieq by (simp add: i64_order)
  then have "ival (rk_gross s) * ival bps - 10000 * (k + m * p) \<le> 9999"
    using margin_met_iff [of bps "k + m * p"] by (simp add: margin_met_def)
  moreover have "m * \<bar>p\<bar> * ival bps \<le> ival (rk_gross s) * ival bps"
    using gross nonneg bps by (intro mult_right_mono) simp_all
  ultimately show "margin_met bps (k + m * p) (m * \<bar>p\<bar>)" by (simp add: margin_met_iff)
  show "notional_sum Buy os \<le> k" using cash sums by (simp add: i64_order k_def)
  have ilc: "ival lc = k - notional_sum Buy os"
    using exactly_InrD [OF sub_money_exact lc] sums by (simp add: k_def)
  have isc: "ival sc = k + notional_sum Sell os"
    using exactly_InrD [OF add_money_exact sc] sums by (simp add: k_def)
  show "\<bar>p + qty_sum Buy os\<bar> \<le> mx" "\<bar>p - qty_sum Sell os\<bar> \<le> mx"
    "margin_met bps (k - notional_sum Buy os + m * (p + qty_sum Buy os)) (m * \<bar>p + qty_sum Buy os\<bar>)"
    "margin_met bps (k + notional_sum Sell os + m * (p - qty_sum Sell os)) (m * \<bar>p - qty_sum Sell os\<bar>)"
    using fill_state_okD [OF long mark] fill_state_okD [OF short mark] sums ilc isc
    by (simp_all add: p_def mx_def m_def equity_int_def bps_def)
qed

lemma abs_convex:
  fixes x b q :: int
  assumes "0 \<le> b" and "b \<le> q"
  shows "q * \<bar>x + b\<bar> \<le> (q - b) * \<bar>x\<bar> + b * \<bar>x + q\<bar>"
proof -
  have "q * \<bar>x + b\<bar> = \<bar>q * (x + b)\<bar>" using assms by (simp add: abs_mult)
  also have "q * (x + b) = (q - b) * x + b * (x + q)" by (simp add: algebra_simps)
  also have "\<bar>\<dots>\<bar> \<le> \<bar>(q - b) * x\<bar> + \<bar>b * (x + q)\<bar>" by (rule abs_triangle_ineq)
  also have "\<dots> = (q - b) * \<bar>x\<bar> + b * \<bar>x + q\<bar>" using assms by (simp add: abs_mult)
  finally show ?thesis .
qed

text \<open>Margin is convex in the fills: if it is met at both ends of a range of fills at one price, it
  is met in between.\<close>

definition margin_gap :: "int \<Rightarrow> int \<Rightarrow> int \<Rightarrow> int \<Rightarrow> int" where
  "margin_gap m bps k p = m * \<bar>p\<bar> * bps - 10000 * (k + m * p)"

lemma margin_gap_convex:
  assumes b: "0 \<le> b" "b \<le> q" and q: "0 < q" and m: "0 \<le> m" "0 \<le> bps"
    and lo: "margin_gap m bps k p \<le> 9999" and hi: "margin_gap m bps (k - r * q) (p + q) \<le> 9999"
  shows "margin_gap m bps (k - r * b) (p + b) \<le> 9999"
proof -
  have "q * \<bar>p + b\<bar> * (m * bps) \<le> ((q - b) * \<bar>p\<bar> + b * \<bar>p + q\<bar>) * (m * bps)"
    using abs_convex [OF b, of p] m by (intro mult_right_mono) auto
  then have "q * margin_gap m bps (k - r * b) (p + b) \<le>
      (q - b) * margin_gap m bps k p + b * margin_gap m bps (k - r * q) (p + q)"
    by (simp add: margin_gap_def algebra_simps)
  also have "\<dots> \<le> (q - b) * 9999 + b * 9999"
    using b lo hi by (intro add_mono mult_left_mono) auto
  also have "\<dots> = q * 9999" by (simp add: algebra_simps)
  finally show ?thesis using q by simp
qed

lemma abs_between:
  fixes x b q mx :: int
  assumes "0 \<le> b" and "b \<le> q" and "\<bar>x\<bar> \<le> mx" and "\<bar>x + q\<bar> \<le> mx"
  shows "\<bar>x + b\<bar> \<le> mx"
  using assms by linarith

text \<open>A quote that passes the check is safe under every combination of partial fills.\<close>

lemma quote_pair_safe:
  assumes ok: "can_place_account c mark a
      [\<lparr>ro_side = Buy, ro_price = bid, ro_qty = q\<rparr>, \<lparr>ro_side = Sell, ro_price = ask, ro_qty = q\<rparr>]"
    and ext: "\<not> ac_external a" and mark: "0 \<le> ival mark"
    and quote: "0 < ival bid" "ival bid < ival ask" "0 < ival q"
    and b: "0 \<le> b" "b \<le> ival q" and s: "0 \<le> s" "s \<le> ival q"
  shows "\<bar>ival (ac_position a) + b - s\<bar> \<le> ival (cf_max_position c)"
    and "margin_met (cf_initial_bps c)
      (ival (ac_cash a) - ival bid * b + ival ask * s + ival mark * (ival (ac_position a) + b - s))
      (ival mark * \<bar>ival (ac_position a) + b - s\<bar>)"
    and "0 \<le> ival (ac_cash a) - ival bid * b + ival ask * s"
proof -
  let ?p = "ival (ac_position a)" and ?k = "ival (ac_cash a)" and ?m = "ival mark"
  let ?bps = "ival (cf_initial_bps c)" and ?q = "ival q" and ?mx = "ival (cf_max_position c)"
  have pos: "\<forall>ro \<in> set [\<lparr>ro_side = Buy, ro_price = bid, ro_qty = q\<rparr>,
      \<lparr>ro_side = Sell, ro_price = ask, ro_qty = q\<rparr>]. 0 \<le> ival (ro_price ro) \<and> 0 \<le> ival (ro_qty ro)"
    using quote by simp
  note sound = can_place_sound [OF ok ext mark pos, unfolded notional_sum_def qty_sum_def, simplified]
  have bps: "0 \<le> ?bps" using sound(2) .
  have gap: "margin_met (cf_initial_bps c) (k' + ?m * p') (?m * \<bar>p'\<bar>) \<longleftrightarrow> margin_gap ?m ?bps k' p' \<le> 9999"
    for k' p' by (simp add: margin_met_iff margin_gap_def)
  have v00: "margin_gap ?m ?bps ?k ?p \<le> 9999" using sound(3) by (simp add: gap)
  have vq0: "margin_gap ?m ?bps (?k - ival bid * ?q) (?p + ?q) \<le> 9999" using sound(6) by (simp add: gap)
  have v0q: "margin_gap ?m ?bps (?k + ival ask * ?q) (?p - ?q) \<le> 9999" using sound(7) by (simp add: gap)
  have "0 \<le> (ival ask - ival bid) * ?q" using quote by (intro mult_nonneg_nonneg) simp_all
  then have vqq: "margin_gap ?m ?bps (?k - ival bid * ?q + ival ask * ?q) (?p + ?q - ?q) \<le> 9999"
    using v00 by (simp add: margin_gap_def algebra_simps)
  have e0: "margin_gap ?m ?bps (?k - ival bid * b) (?p + b) \<le> 9999"
    by (rule margin_gap_convex [OF b quote(3) mark bps v00 vq0])
  have eq: "margin_gap ?m ?bps ((?k + ival ask * ?q) - ival bid * b) ((?p - ?q) + b) \<le> 9999"
    by (rule margin_gap_convex [OF b quote(3) mark bps v0q])
      (use vqq in \<open>simp add: algebra_simps\<close>)
  have "margin_gap ?m ?bps ((?k - ival bid * b + ival ask * ?q) - ival ask * (?q - s)) ((?p + b - ?q) + (?q - s)) \<le> 9999"
  proof (rule margin_gap_convex [OF _ _ quote(3) mark bps])
    show "0 \<le> ?q - s" "?q - s \<le> ?q" using s by simp_all
    show "margin_gap ?m ?bps (?k - ival bid * b + ival ask * ?q) (?p + b - ?q) \<le> 9999"
      using eq by (simp add: algebra_simps)
    show "margin_gap ?m ?bps ((?k - ival bid * b + ival ask * ?q) - ival ask * ?q) ((?p + b - ?q) + ?q) \<le> 9999"
      using e0 by simp
  qed
  then show "margin_met (cf_initial_bps c)
      (?k - ival bid * b + ival ask * s + ?m * (?p + b - s)) (?m * \<bar>?p + b - s\<bar>)"
    unfolding gap by (simp add: algebra_simps)
  show "\<bar>?p + b - s\<bar> \<le> ?mx" using sound(4,5) b s by linarith
  have "ival bid * b \<le> ival bid * ?q" using b quote by (intro mult_left_mono) simp_all
  moreover have "0 \<le> ival ask * s" using s quote by simp
  ultimately show "0 \<le> ?k - ival bid * b + ival ask * s" using sound(1) by linarith
qed

end
