(* ===== verification/Exchange_Settle.thy ===== *)
theory Exchange_Settle
  imports Exchange_Risk
begin

text \<open>
  Settlement: turning a report of the book into trades, journal entries and account balances
  (\<^verbatim>\<open>settleReport\<close>, \<^verbatim>\<open>validateSettlement\<close>, \<^verbatim>\<open>applyTrade\<close>), deriving reservations from the book
  (\<^verbatim>\<open>reconcileReservations\<close>), emitting events and attributing profit and loss. The functions thread
  the engine and return it updated; on an error the caller drops the copy it worked on.
\<close>

subsection \<open>Events\<close>

definition emit :: "engine \<Rightarrow> event \<Rightarrow> engine \<times> event" where
  "emit e ev = (let n = e_next_event e + 1 in (e\<lparr>e_next_event := n\<rparr>, ev\<lparr>ev_seq := n\<rparr>))"

fun emit_all :: "engine \<Rightarrow> event list \<Rightarrow> engine \<times> event list" where
  "emit_all e [] = (e, [])"
| "emit_all e (ev # evs) =
     (let (e', ev') = emit e ev; (e'', evs') = emit_all e' evs in (e'', ev' # evs'))"

definition order_event :: "string \<Rightarrow> order \<Rightarrow> event" where
  "order_event ty ord = (event_of ty)\<lparr>ev_order := Some ord\<rparr>"

definition trade_event :: "trade \<Rightarrow> event" where
  "trade_event t = (event_of ''trade'')\<lparr>ev_trade := Some t\<rparr>"

definition emit_lifecycle :: "engine \<Rightarrow> report \<Rightarrow> engine \<times> event list" where
  "emit_lifecycle e rp =
     emit_all e
       ((case rp_resting rp of None \<Rightarrow> []
         | Some ord \<Rightarrow> [order_event ''order_resting'' (from_book_order ord)]) @
        (case rp_expired rp of None \<Rightarrow> []
         | Some ord \<Rightarrow> [(order_event ''order_canceled'' (from_book_order ord))
                          \<lparr>ev_message := ''ioc remainder''\<rparr>]) @
        map (\<lambda>ord. order_event ''order_filled'' (from_book_order ord)) (rp_completed rp))"

definition new_order ::
  "engine \<Rightarrow> string \<Rightarrow> side \<Rightarrow> price \<Rightarrow> qty \<Rightarrow> tif \<Rightarrow> engine \<times> order" where
  "new_order e i s p q f =
     (let n = e_next_order e + 1 in
      (e\<lparr>e_next_order := n\<rparr>,
       \<lparr>or_id = n, or_seq = n, or_account = i, or_side = s, or_price = p, or_qty = q, or_rem = q,
        or_tif = f, or_informed = False\<rparr>))"

definition zero_book_order :: book_order where
  "zero_book_order = \<lparr>bo_id = 0, bo_seq = 0, bo_owner = '''', bo_side = OtherSide '''',
     bo_price = 0, bo_qty = 0, bo_rem = 0, bo_tif = OtherTif ''''\<rparr>"

definition cancel_one :: "engine \<times> event list \<Rightarrow> book_order \<Rightarrow> engine \<times> event list" where
  "cancel_one s ord = (case s of (e, evs) \<Rightarrow>
     let (b, canceled) = (case cancel_order (e_book e) (bo_id ord) of
                            None \<Rightarrow> (e_book e, zero_book_order) | Some r \<Rightarrow> r);
         (e', ev) = emit (e\<lparr>e_book := b\<rparr>) (order_event ''order_canceled'' (from_book_order canceled))
     in (e', evs @ [ev]))"

definition cancel_account_orders :: "engine \<Rightarrow> string \<Rightarrow> engine \<times> event list" where
  "cancel_account_orders e i = foldl cancel_one (e, []) (orders (e_book e) i)"

subsection \<open>Profit and loss\<close>

definition is_player_trade :: "trade \<Rightarrow> bool" where
  "is_player_trade t \<longleftrightarrow> tr_buyer t = player_account \<or> tr_seller t = player_account"

definition player_fill_pnl :: "trade \<Rightarrow> price \<Rightarrow> money res" where
  "player_fill_pnl t mark =
     bindE (if tr_buyer t = player_account then Inr (tr_qty t)
            else if tr_seller t = player_account then neg_qty (tr_qty t) else Inr 0) (\<lambda>signed.
     bindE (notional mark signed) (\<lambda>mark_value.
     bindE (notional (tr_price t) signed) (\<lambda>fill_value.
     sub_money mark_value fill_value)))"

definition add_execution_edge :: "attribution \<Rightarrow> trade \<Rightarrow> price \<Rightarrow> attribution res" where
  "add_execution_edge attr t mark =
     bindE (player_fill_pnl t mark) (\<lambda>pnl.
     bindE (add_money (at_edge attr) pnl) (\<lambda>edge. Inr (attr\<lparr>at_edge := edge\<rparr>)))"

definition mark_pnl :: "qty \<Rightarrow> price \<Rightarrow> price \<Rightarrow> money res" where
  "mark_pnl position previous current =
     bindE (notional current position) (\<lambda>c.
     bindE (notional previous position) (\<lambda>p. sub_money c p))"

definition add_flow_trade :: "summary \<Rightarrow> trade \<Rightarrow> summary res" where
  "add_flow_trade s t =
     (if \<not> is_player_trade t then Inr s
      else bindE (add_qty (sm_units s) (tr_qty t)) (\<lambda>u.
           bindE (notional (tr_price t) (tr_qty t)) (\<lambda>n.
           let s1 = s\<lparr>sm_units := u\<rparr> in
           bindE (if tr_buyer t = player_account
                  then bindE (add_qty (sm_sell_volume s1) (tr_qty t)) (\<lambda>v.
                       bindE (sub_money (sm_fill_cash s1) n) (\<lambda>c.
                       Inr (s1\<lparr>sm_sell_volume := v, sm_fill_cash := c\<rparr>)))
                  else Inr s1) (\<lambda>s2.
           if tr_seller t = player_account
           then bindE (add_qty (sm_buy_volume s2) (tr_qty t)) (\<lambda>v.
                bindE (add_money (sm_fill_cash s2) n) (\<lambda>c.
                Inr (s2\<lparr>sm_buy_volume := v, sm_fill_cash := c\<rparr>)))
           else Inr s2))))"

definition add_player_trade :: "summary \<Rightarrow> trade \<Rightarrow> summary res" where
  "add_player_trade s t =
     (if \<not> is_player_trade t then Inr s
      else bindE (add_qty (sm_units s) (tr_qty t)) (\<lambda>u.
           bindE (notional (tr_price t) (tr_qty t)) (\<lambda>n.
           bindE (if tr_buyer t = player_account then sub_money (sm_fill_cash s) n
                  else add_money (sm_fill_cash s) n) (\<lambda>c.
           Inr (s\<lparr>sm_units := u, sm_fill_cash := c\<rparr>)))))"

definition add_legacy_flow_trade :: "summary \<Rightarrow> trade \<Rightarrow> summary res" where
  "add_legacy_flow_trade s t =
     bindE (add_qty (sm_units s) (tr_qty t)) (\<lambda>u.
     let s1 = s\<lparr>sm_units := u\<rparr> in
     bindE (if tr_buyer t = player_account
            then bindE (add_qty (sm_sell_volume s1) (tr_qty t)) (\<lambda>v.
                 bindE (notional (tr_price t) (tr_qty t)) (\<lambda>n.
                 bindE (sub_money (sm_fill_cash s1) n) (\<lambda>c.
                 Inr (s1\<lparr>sm_sell_volume := v, sm_fill_cash := c\<rparr>))))
            else Inr s1) (\<lambda>s2.
     if tr_seller t = player_account
     then bindE (add_qty (sm_buy_volume s2) (tr_qty t)) (\<lambda>v.
          bindE (notional (tr_price t) (tr_qty t)) (\<lambda>n.
          bindE (add_money (sm_fill_cash s2) n) (\<lambda>c.
          Inr (s2\<lparr>sm_buy_volume := v, sm_fill_cash := c\<rparr>))))
     else Inr s2))"

subsection \<open>Settlement\<close>

type_synonym net = "money \<times> qty"

definition fill_buyer :: "fill \<Rightarrow> string" where
  "fill_buyer f = (if bo_side (fl_taker f) = Sell then bo_owner (fl_maker f) else bo_owner (fl_taker f))"

definition fill_seller :: "fill \<Rightarrow> string" where
  "fill_seller f = (if bo_side (fl_taker f) = Sell then bo_owner (fl_taker f) else bo_owner (fl_maker f))"

definition settle_change ::
  "engine \<Rightarrow> money \<Rightarrow> qty \<Rightarrow> (string, net) fmap \<Rightarrow> string \<times> bool \<Rightarrow> (string, net) fmap res" where
  "settle_change e n q balances ch = (case ch of (i, buy) \<Rightarrow>
     bindE (case fmlookup balances i of
              Some c \<Rightarrow> Inr c
            | None \<Rightarrow> bindE (get_account e i) (\<lambda>a. Inr (ac_cash a, ac_position a))) (\<lambda>(cash, position).
     bindE (if buy
            then bindE (sub_money cash n) (\<lambda>c. bindE (add_qty position q) (\<lambda>p. Inr (c, p)))
            else bindE (add_money cash n) (\<lambda>c. bindE (sub_qty position q) (\<lambda>p. Inr (c, p)))) (\<lambda>(c, p).
     bindE (get_account e i) (\<lambda>a.
     bindE (if ac_external a then Inr ()
            else bindE (notional (e_mark e) p) (\<lambda>marked.
                 bindE (add_money c marked) (\<lambda>_. Inr ()))) (\<lambda>_.
     Inr (fmupd i (c, p) balances))))))"

definition validate_fill :: "engine \<Rightarrow> (string, net) fmap \<Rightarrow> fill \<Rightarrow> (string, net) fmap res" where
  "validate_fill e balances f =
     bindE (notional (fl_price f) (fl_qty f)) (\<lambda>n.
     foldE (settle_change e n (fl_qty f)) balances [(fill_buyer f, True), (fill_seller f, False)])"

definition validate_settlement :: "engine \<Rightarrow> report \<Rightarrow> unit res" where
  "validate_settlement e rp = bindE (foldE (validate_fill e) fmempty (rp_fills rp)) (\<lambda>_. Inr ())"

definition upd_account :: "string \<Rightarrow> (account \<Rightarrow> account) \<Rightarrow> engine \<Rightarrow> engine" where
  "upd_account i f e =
     e\<lparr>e_accounts := (case fmlookup (e_accounts e) i of
                         None \<Rightarrow> e_accounts e | Some a \<Rightarrow> fmupd i (f a) (e_accounts e))\<rparr>"

definition cash_posting :: "ledger_account \<Rightarrow> money \<Rightarrow> posting" where
  "cash_posting a m = \<lparr>ps_account = a, ps_money = m, ps_instrument = 0\<rparr>"

definition inst_posting :: "ledger_account \<Rightarrow> qty \<Rightarrow> posting" where
  "inst_posting a q = \<lparr>ps_account = a, ps_money = 0, ps_instrument = q\<rparr>"

definition apply_trade :: "engine \<Rightarrow> trade \<Rightarrow> book_order \<Rightarrow> book_order \<Rightarrow> engine res" where
  "apply_trade e t buyer_order seller_order =
     bindE (notional (tr_price t) (tr_qty t)) (\<lambda>n.
     bindE (get_account e (tr_buyer t)) (\<lambda>buyer.
     bindE (add_money (ac_cash buyer) (- n)) (\<lambda>buyer_cash.
     bindE (get_account e (tr_seller t)) (\<lambda>seller.
     bindE (add_money (ac_cash seller) n) (\<lambda>seller_cash.
     bindE (add_qty (ac_position buyer) (tr_qty t)) (\<lambda>buyer_position.
     bindE (sub_qty (ac_position seller) (tr_qty t)) (\<lambda>seller_position.
     let buyer_reserved = (bo_id buyer_order = tr_maker t \<and> \<not> ac_external buyer);
         seller_reserved = (bo_id seller_order = tr_maker t \<and> \<not> ac_external seller)
     in
     bindE (if buyer_reserved
            then bindE (notional (bo_price buyer_order) (tr_qty t)) (\<lambda>limit.
                 bindE (add_money limit (- n)) (\<lambda>refund.
                 Inr (limit, [cash_posting (cash_reserved (tr_buyer t)) (- limit),
                              cash_posting (cash_available (tr_buyer t)) refund])))
            else Inr (0, [cash_posting (cash_available (tr_buyer t)) (- n)])) (\<lambda>(reserved_cash, buyer_ps).
     let seller_ps = (if seller_reserved
                      then [inst_posting (instrument_reserved (tr_seller t)) (- tr_qty t)]
                      else [inst_posting (instrument_available (tr_seller t)) (- tr_qty t)]);
         entry = \<lparr>le_id = 0, le_type = ''trade_settled'',
           le_ref = \<lparr>lr_order = 0, lr_trade = tr_id t, lr_maker = tr_maker t, lr_taker = tr_taker t\<rparr>,
           le_postings = [cash_posting (cash_available (tr_seller t)) n,
                          inst_posting (instrument_available (tr_buyer t)) (tr_qty t)] @ buyer_ps @ seller_ps\<rparr>
     in
     bindE (ledger_append (e_ledger e) [entry]) (\<lambda>l.
     bindE (if buyer_reserved
            then bindE (add_money (ac_reserved buyer) (- reserved_cash)) (\<lambda>r.
                 bindE (sub_qty (ac_open_buy buyer) (tr_qty t)) (\<lambda>ob. Inr (r, ob)))
            else Inr (ac_reserved buyer, ac_open_buy buyer)) (\<lambda>(r, ob).
     bindE (if seller_reserved then sub_qty (ac_open_sell seller) (tr_qty t)
            else Inr (ac_open_sell seller)) (\<lambda>os.
     Inr (upd_account (tr_seller t)
            (\<lambda>a. a\<lparr>ac_open_sell := os, ac_cash := seller_cash, ac_position := seller_position\<rparr>)
          (upd_account (tr_buyer t)
            (\<lambda>a. a\<lparr>ac_reserved := r, ac_open_buy := ob, ac_cash := buyer_cash, ac_position := buyer_position\<rparr>)
          (e\<lparr>e_ledger := l\<rparr>))))))))))))))"

definition trade_of_fill :: "u64 \<Rightarrow> fill \<Rightarrow> trade" where
  "trade_of_fill n f =
     \<lparr>tr_id = n, tr_maker = bo_id (fl_maker f), tr_taker = bo_id (fl_taker f), tr_price = fl_price f,
      tr_qty = fl_qty f,
      tr_buyer = (if bo_side (fl_taker f) = Buy then bo_owner (fl_taker f) else bo_owner (fl_maker f)),
      tr_seller = (if bo_side (fl_taker f) = Buy then bo_owner (fl_maker f) else bo_owner (fl_taker f)),
      tr_informed = False\<rparr>"

definition settle_fill :: "engine \<times> trade list \<Rightarrow> fill \<Rightarrow> (engine \<times> trade list) res" where
  "settle_fill s f = (case s of (e, trades) \<Rightarrow>
     let e1 = e\<lparr>e_next_trade := e_next_trade e + 1\<rparr>;
         t = trade_of_fill (e_next_trade e1) f;
         (buyer_order, seller_order) =
           (if bo_side (fl_taker f) = Sell then (fl_maker f, fl_taker f) else (fl_taker f, fl_maker f))
     in bindE (apply_trade e1 t buyer_order seller_order) (\<lambda>e2. Inr (e2, trades @ [t])))"

definition settle_report :: "engine \<Rightarrow> report \<Rightarrow> (engine \<times> trade list) res" where
  "settle_report e rp =
     bindE (validate_settlement e rp) (\<lambda>_. foldE settle_fill (e, []) (rp_fills rp))"

definition submit_book_order :: "engine \<Rightarrow> order \<Rightarrow> (engine \<times> trade list \<times> report) res" where
  "submit_book_order e ord =
     bindE (submit_public (e_book e) (to_book_order ord) RejectTaker) (\<lambda>(b, rp).
     bindE (settle_report (e\<lparr>e_book := b\<rparr>) rp) (\<lambda>(e', trades).
     Inr (e', if or_informed ord then map (\<lambda>t. t\<lparr>tr_informed := True\<rparr>) trades else trades, rp)))"

subsection \<open>Reservations\<close>

record reservation =
  rv_cash :: money
  rv_buy :: qty
  rv_sell :: qty

definition no_reservation :: reservation where
  "no_reservation = \<lparr>rv_cash = 0, rv_buy = 0, rv_sell = 0\<rparr>"

definition desired_for :: "(string, reservation) fmap \<Rightarrow> string \<Rightarrow> reservation" where
  "desired_for d i = (case fmlookup d i of None \<Rightarrow> no_reservation | Some r \<Rightarrow> r)"

definition reserve_order ::
  "engine \<Rightarrow> (string, reservation) fmap \<Rightarrow> book_order \<Rightarrow> (string, reservation) fmap res" where
  "reserve_order e d ord =
     (case fmlookup (e_accounts e) (bo_owner ord) of
        None \<Rightarrow> fails ''book references unknown account''
      | Some a \<Rightarrow>
        if ac_external a then Inr d
        else let cur = desired_for d (bo_owner ord) in
          bindE (if bo_side ord = Buy
                 then bindE (notional (bo_price ord) (bo_rem ord)) (\<lambda>n.
                      bindE (add_money (rv_cash cur) n) (\<lambda>c.
                      bindE (add_qty (rv_buy cur) (bo_rem ord)) (\<lambda>b.
                      Inr (cur\<lparr>rv_cash := c, rv_buy := b\<rparr>))))
                 else bindE (add_qty (rv_sell cur) (bo_rem ord)) (\<lambda>s. Inr (cur\<lparr>rv_sell := s\<rparr>)))
            (\<lambda>next_r. Inr (fmupd (bo_owner ord) next_r d)))"

definition reserve_postings ::
  "engine \<Rightarrow> (string, reservation) fmap \<Rightarrow> posting list \<Rightarrow> string \<Rightarrow> posting list res" where
  "reserve_postings e d ps i =
     (case fmlookup (e_accounts e) i of
        None \<Rightarrow> panics ''nil account''
      | Some a \<Rightarrow>
        if ac_external a then Inr ps
        else let r = desired_for d i in
          bindE (add_money (rv_cash r) (- ac_reserved a)) (\<lambda>cash_delta.
          bindE (sub_qty (rv_sell r) (ac_open_sell a)) (\<lambda>sell_delta.
          Inr (ps @
            (if cash_delta \<noteq> 0
             then [cash_posting (cash_available i) (- cash_delta), cash_posting (cash_reserved i) cash_delta]
             else []) @
            (if sell_delta \<noteq> 0
             then [inst_posting (instrument_available i) (- sell_delta),
                   inst_posting (instrument_reserved i) sell_delta]
             else [])))))"

definition set_reservations :: "(string, reservation) fmap \<Rightarrow> string \<Rightarrow> account \<Rightarrow> account" where
  "set_reservations d i a =
     (if ac_external a then a
      else a\<lparr>ac_reserved := rv_cash (desired_for d i), ac_open_buy := rv_buy (desired_for d i),
             ac_open_sell := rv_sell (desired_for d i)\<rparr>)"

definition reconcile_reservations :: "engine \<Rightarrow> engine res" where
  "reconcile_reservations e =
     bindE (foldE (reserve_order e) fmempty (orders (e_book e) '''')) (\<lambda>d.
     bindE (foldE (reserve_postings e d) [] (sorted_list_of_fset (fmdom (e_accounts e)))) (\<lambda>ps.
     bindE (if ps \<noteq> []
            then ledger_append (e_ledger e)
              [\<lparr>le_id = 0, le_type = ''order_reservation_updated'', le_ref = no_ref, le_postings = ps\<rparr>]
            else Inr (e_ledger e)) (\<lambda>l.
     Inr (e\<lparr>e_ledger := l, e_accounts := fmmap_keys (set_reservations d) (e_accounts e)\<rparr>))))"

end
