(* ===== verification/Exchange_Engine.thy ===== *)
theory Exchange_Engine
  imports Exchange_Settle
begin

text \<open>
  The engine's operations. Each lower-case method of the code is a function from the candidate
  engine to the changed candidate and its result; the public methods run it through
  \<open>transact\<close>, which commits the candidate or leaves the engine as it was. An outcome is the
  engine after the call, the returned result and the returned error; the left summand is a
  run-time panic.
\<close>

type_synonym step = "(engine \<times> result) res"
type_synonym outcome = "(engine \<times> result \<times> go_error option) res"

definition result_of :: "state \<Rightarrow> summary \<Rightarrow> event list \<Rightarrow> result" where
  "result_of s sm evs = \<lparr>rs_state = s, rs_summary = sm, rs_events = evs, rs_ledger = []\<rparr>"

definition finish :: "engine \<Rightarrow> summary \<Rightarrow> event list \<Rightarrow> step" where
  "finish e sm evs = bindE (state_of e) (\<lambda>s. Inr (e, result_of s sm evs))"

definition refuse :: "engine \<Rightarrow> go_error \<Rightarrow> outcome" where
  "refuse e err = bindE (state_of e) (\<lambda>s. Inr (e, result_of s zero_summary [], Some err))"

definition bump_version :: "engine \<Rightarrow> engine" where
  "bump_version e = e\<lparr>e_version := e_version e + 1\<rparr>"

text \<open>Marshalling the PCG and unmarshalling it gives the same state; accounts are copied by value.\<close>

definition clone_engine :: "engine \<Rightarrow> engine res" where
  "clone_engine e = bindE (clone_book (e_book e)) (\<lambda>b.
     Inr (e\<lparr>e_accounts := fmap_of_list (sorted_list_of_fmap (e_accounts e)), e_book := b,
            e_ledger := clone_ledger (e_ledger e)\<rparr>))"

definition transact :: "engine \<Rightarrow> (engine \<Rightarrow> step) \<Rightarrow> outcome" where
  "transact e apply_step =
     bindE (clone_engine e) (\<lambda>candidate.
       case apply_step candidate of
         Inl err \<Rightarrow> if is_panic err then Inl err else refuse e err
       | Inr (c, r) \<Rightarrow>
         Inr (c, r\<lparr>rs_ledger := drop (length (lg_entries (e_ledger e))) (entries_copy (e_ledger c))\<rparr>, None))"

subsection \<open>Creating the engine and its accounts\<close>

definition post_opening :: "engine \<Rightarrow> string \<Rightarrow> money \<Rightarrow> qty \<Rightarrow> engine res" where
  "post_opening e i cash position =
     bindE (ledger_append (e_ledger e)
       [\<lparr>le_id = 0, le_type = ''account_opened'', le_ref = no_ref,
         le_postings = [cash_posting (cash_available i) cash,
                        cash_posting (opening_cash_account i) (- cash),
                        inst_posting (instrument_available i) position,
                        inst_posting (opening_instrument_account i) (- position)]\<rparr>])
       (\<lambda>l. Inr (e\<lparr>e_ledger := l\<rparr>))"

definition initial_engine :: "config \<Rightarrow> engine" where
  "initial_engine cfg =
     \<lparr>e_cfg = cfg, e_pcg = (cf_seed cfg, drop_bit 1 (cf_seed cfg)),
      e_flow_rng = cf_seed cfg XOR flow_seed_domain, e_mark_rng = cf_seed cfg XOR mark_seed_domain,
      e_informed_rng = cf_seed cfg XOR informed_seed_domain,
      e_accounts = fmupd flow_account ((new_account flow_account 0 0)\<lparr>ac_external := True\<rparr>)
        (fmupd player_account (new_account player_account (cf_cash cfg) (cf_position cfg)) fmempty),
      e_book = new_book, e_ledger = new_ledger, e_next_order = 0, e_next_trade = 0, e_next_event = 0,
      e_version = 0, e_turn = 0, e_mark = cf_mark cfg, e_over = False, e_reason = NotOver\<rparr>"

definition new_engine :: "config \<Rightarrow> engine res" where
  "new_engine cfg =
     bindE (validate_config cfg) (\<lambda>_.
     bindE (post_opening (initial_engine cfg) player_account (cf_cash cfg) (cf_position cfg)) (\<lambda>e.
     bindE (account_within_limits e player_account False) (\<lambda>ok.
     guardE (\<not> ok) ''starting account violates configured risk limits'' (Inr e))))"

definition add_account :: "engine \<Rightarrow> string \<Rightarrow> money \<Rightarrow> qty \<Rightarrow> engine res" where
  "add_account e i cash position =
     guardE (i = '''' \<or> i = flow_account \<or> fmlookup (e_accounts e) i \<noteq> None)
       ''invalid or duplicate account''
     (let e1 = e\<lparr>e_accounts := fmupd i (new_account i cash position) (e_accounts e)\<rparr> in
      bindE (account_within_limits e1 i False) (\<lambda>ok.
      guardE (\<not> ok) ''account violates configured risk limits''
        (post_opening e1 i cash position)))"

definition open_account :: "engine \<Rightarrow> string \<Rightarrow> money \<Rightarrow> qty \<Rightarrow> step" where
  "open_account e i cash position =
     guardE (e_over e) ''game is over''
     (bindE (add_account e i cash position) (\<lambda>e1.
      let e2 = bump_version e1;
          view = (case account_view e2 i of None \<Rightarrow> zero_account_state | Some a \<Rightarrow> a);
          (e3, ev) = emit e2 ((event_of ''account_opened'')\<lparr>ev_account := Some view\<rparr>)
      in finish e3 zero_summary [ev]))"

subsection \<open>Venue commands\<close>

definition invalid_limit :: "side \<Rightarrow> price \<Rightarrow> qty \<Rightarrow> tif \<Rightarrow> bool" where
  "invalid_limit s p q f \<longleftrightarrow>
     (s \<noteq> Buy \<and> s \<noteq> Sell) \<or> \<not> positive p \<or> \<not> positive q \<or> (f \<noteq> GTC \<and> f \<noteq> IOC)"

definition place_limit :: "engine \<Rightarrow> string \<Rightarrow> side \<Rightarrow> price \<Rightarrow> qty \<Rightarrow> tif \<Rightarrow> step" where
  "place_limit e i s p q f =
     guardE (e_over e) ''game is over''
     (guardE (invalid_limit s p q f) ''invalid order''
     (guardE (fmlookup (e_accounts e) i = None) ''account not found''
     (bindE (can_place e i s p q) (\<lambda>ok.
      guardE (\<not> ok) ''order would violate cash, position, or initial-margin limits''
     (let (e1, ord) = new_order e i s p q f;
          (e2, ev) = emit e1 (order_event ''order_accepted'' ord)
      in bindE (submit_book_order e2 ord) (\<lambda>(e3, trades, rp).
         bindE (reconcile_reservations e3) (\<lambda>e4.
         let (e5, trade_evs) = emit_all e4 (map trade_event trades);
             (e6, life_evs) = emit_lifecycle e5 rp
         in finish (bump_version e6) zero_summary (ev # trade_evs @ life_evs))))))))"

definition cancel_limit :: "engine \<Rightarrow> string \<Rightarrow> u64 \<Rightarrow> step" where
  "cancel_limit e i oid =
     guardE (e_over e) ''game is over''
     (case lookup_order (e_book e) oid of
        None \<Rightarrow> fails ''order not found''
      | Some found \<Rightarrow>
        guardE (bo_owner found \<noteq> i) ''order not found''
        (let (b, ord) = (case cancel_order (e_book e) oid of
                           None \<Rightarrow> (e_book e, zero_book_order) | Some r \<Rightarrow> r)
         in bindE (reconcile_reservations (e\<lparr>e_book := b\<rparr>)) (\<lambda>e1.
            let (e2, ev) = emit (bump_version e1) (order_event ''order_canceled'' (from_book_order ord))
            in finish e2 zero_summary [ev])))"

definition replace_limit ::
  "engine \<Rightarrow> string \<Rightarrow> u64 \<Rightarrow> side \<Rightarrow> price \<Rightarrow> qty \<Rightarrow> tif \<Rightarrow> step" where
  "replace_limit e i old_id s p q f =
     guardE (e_over e) ''game is over''
     (guardE (invalid_limit s p q f) ''invalid replacement''
     (case lookup_order (e_book e) old_id of
        None \<Rightarrow> fails ''order not found''
      | Some old \<Rightarrow>
        guardE (bo_owner old \<noteq> i) ''order not found''
       (guardE (bo_side old \<noteq> s) ''replacement side must match existing order''
       (bindE (can_place_excluding e i s p q old_id) (\<lambda>ok.
        guardE (\<not> ok) ''replacement would violate cash, position, or initial-margin limits''
       (let n = e_next_order e + 1;
            r = \<lparr>or_id = n, or_seq = n, or_account = i, or_side = s, or_price = p, or_qty = q,
                 or_rem = q, or_tif = f, or_informed = False\<rparr>
        in bindE (preview_replace (e_book e) old_id (to_book_order r) RejectTaker) (\<lambda>_.
           let e1 = e\<lparr>e_next_order := n\<rparr> in
           bindE (replace_order (e_book e1) old_id (to_book_order r) RejectTaker) (\<lambda>(b, rp).
           bindE (settle_report (e1\<lparr>e_book := b\<rparr>) rp) (\<lambda>(e2, trades).
           bindE (reconcile_reservations e2) (\<lambda>e3.
           let (e4, ev) = emit e3 ((order_event ''order_replaced'' r)
                 \<lparr>ev_previous := Some (from_book_order old)\<rparr>);
               (e5, trade_evs) = emit_all e4 (map trade_event trades);
               (e6, life_evs) = emit_lifecycle e5 rp
           in finish (bump_version e6) zero_summary (ev # trade_evs @ life_evs)))))))))))"

subsection \<open>Ending the session\<close>

definition end_session :: "engine \<Rightarrow> end_reason \<Rightarrow> engine \<times> event" where
  "end_session e r =
     emit (e\<lparr>e_over := True, e_reason := r\<rparr>) ((event_of ''game_ended'')\<lparr>ev_reason := r\<rparr>)"

definition player_maintenance_reason :: "engine \<Rightarrow> end_reason option res" where
  "player_maintenance_reason e =
     bindE (account_within_limits e player_account True) (\<lambda>ok.
     if ok then Inr None
     else bindE (get_account e player_account) (\<lambda>a.
       Inr (Some (if or_zero (equity (e_mark e) a) \<le> 0 then Insolvent else MarginBreach))))"

definition evaluate_player_maintenance :: "engine \<Rightarrow> (engine \<times> event option) res" where
  "evaluate_player_maintenance e =
     bindE (player_maintenance_reason e) (\<lambda>r. case r of
       None \<Rightarrow> Inr (e, None)
     | Some reason \<Rightarrow> let (e1, ev) = end_session e reason in Inr (e1, Some ev))"

definition end_real_time_on_breach :: "engine \<Rightarrow> (engine \<times> event list) res" where
  "end_real_time_on_breach e =
     bindE (player_maintenance_reason e) (\<lambda>r. case r of
       None \<Rightarrow> Inr (e, [])
     | Some reason \<Rightarrow>
       let (e1, evs) = cancel_account_orders e player_account in
       bindE (reconcile_reservations e1) (\<lambda>e2.
       let (e3, ev) = end_session e2 reason in Inr (e3, evs @ [ev])))"

definition complete_turns_if_due :: "engine \<Rightarrow> engine \<times> event option" where
  "complete_turns_if_due e =
     (if cf_turns (e_cfg e) \<le> 0 \<or> e_turn e < cf_turns (e_cfg e) then (e, None)
      else let (e1, ev) = end_session e TurnsComplete in (e1, Some ev))"

definition expire_step :: "end_reason \<Rightarrow> engine \<Rightarrow> step" where
  "expire_step reason e =
     guardE (e_over e) ''game is over''
     (let (e1, evs) = cancel_account_orders e player_account in
      bindE (reconcile_reservations e1) (\<lambda>e2.
      let (e3, ev) = end_session e2 reason in finish (bump_version e3) zero_summary (evs @ [ev])))"

subsection \<open>The player's quote\<close>

definition quote_trade ::
  "('s \<Rightarrow> trade \<Rightarrow> 's res) \<Rightarrow> engine \<times> event list \<times> 's \<Rightarrow> trade \<Rightarrow> (engine \<times> event list \<times> 's) res" where
  "quote_trade on_trade st t = (case st of (e, evs, s) \<Rightarrow>
     bindE (on_trade s t) (\<lambda>s1.
     let (e1, ev) = emit e (trade_event t) in Inr (e1, evs @ [ev], s1)))"

definition quote_order ::
  "('s \<Rightarrow> trade \<Rightarrow> 's res) \<Rightarrow> engine \<times> event list \<times> 's \<Rightarrow> order \<Rightarrow> (engine \<times> event list \<times> 's) res" where
  "quote_order on_trade st ord = (case st of (e, evs, s) \<Rightarrow>
     let (e1, ev) = emit e (order_event ''order_accepted'' ord) in
     bindE (submit_book_order e1 ord) (\<lambda>(e2, trades, rp).
     bindE (foldE (quote_trade on_trade) (e2, evs @ [ev], s) trades) (\<lambda>(e3, evs3, s3).
     let (e4, life_evs) = emit_lifecycle e3 rp in Inr (e4, evs3 @ life_evs, s3))))"

text \<open>\<^verbatim>\<open>replacePlayerQuote\<close>; both orders are numbered before either is submitted.\<close>

definition replace_player_quote ::
  "engine \<Rightarrow> price \<Rightarrow> price \<Rightarrow> qty \<Rightarrow> ('s \<Rightarrow> trade \<Rightarrow> 's res) \<Rightarrow> 's \<Rightarrow> (engine \<times> event list \<times> 's) res" where
  "replace_player_quote e bid ask q on_trade s =
     (let (e1, evs) = cancel_account_orders e player_account;
          (e2, buy) = new_order e1 player_account Buy bid q GTC;
          (e3, sell) = new_order e2 player_account Sell ask q GTC
      in bindE (foldE (quote_order on_trade) (e3, evs, s) [buy, sell]) (\<lambda>(e4, evs4, s4).
         bindE (reconcile_reservations e4) (\<lambda>e5. Inr (e5, evs4, s4))))"

definition player_equity :: "engine \<Rightarrow> money res" where
  "player_equity e = bindE (get_account e player_account) (\<lambda>a. equity (e_mark e) a)"

definition quote_action :: "price \<Rightarrow> summary \<times> attribution \<Rightarrow> trade \<Rightarrow> (summary \<times> attribution) res" where
  "quote_action mark s t = (case s of (sm, attr) \<Rightarrow>
     bindE (add_execution_edge attr t mark) (\<lambda>attr1.
     bindE (add_player_trade sm t) (\<lambda>sm1. Inr (sm1, attr1))))"

definition update_quote_step :: "price \<Rightarrow> price \<Rightarrow> qty \<Rightarrow> engine \<Rightarrow> step" where
  "update_quote_step bid ask q e =
     guardE (\<not> positive q \<or> q > cf_max_qty (e_cfg e)) ''quote quantity exceeds configured limits''
     (bindE (validate_player_quote e bid ask q) (\<lambda>_.
      bindE (player_equity e) (\<lambda>eq_before.
      bindE (replace_player_quote e bid ask q (quote_action (e_mark e)) (zero_summary, zero_attribution))
        (\<lambda>(e1, evs, sm, attr).
      bindE (end_real_time_on_breach e1) (\<lambda>(e2, more).
      bindE (player_equity e2) (\<lambda>eq_after.
      orFail (sub_money eq_after eq_before) ''quote action P&L does not reconcile'' (\<lambda>pnl.
      guardE (pnl \<noteq> at_edge attr) ''quote action P&L does not reconcile''
        (finish (bump_version e2) (sm\<lparr>sm_action_pnl := pnl, sm_attribution := Some attr\<rparr>)
          (evs @ more)))))))))"

subsection \<open>Customer flow\<close>

record arrival =
  ar_side :: side
  ar_qty :: qty
  ar_slip :: i64
  ar_informed :: bool

record customer_arrival =
  ca_side :: side
  ca_qty :: qty
  ca_slip :: i64
  ca_informed :: bool
  ca_mark :: price

definition flow_limit :: "price \<Rightarrow> side \<Rightarrow> i64 \<Rightarrow> price res" where
  "flow_limit mark s slip =
     bindE (scale_price mark (if s = Sell then 10000 - slip else 10000 + slip) 10000) (\<lambda>p.
     Inr (if p < 1 then 1 else p))"

definition mark_informed :: "u64 \<Rightarrow> bool \<Rightarrow> event list \<Rightarrow> event list" where
  "mark_informed oid informed evs =
     (if \<not> informed then evs
      else map (\<lambda>ev. case ev_order ev of
          None \<Rightarrow> ev
        | Some ord \<Rightarrow> if or_id ord = oid then ev\<lparr>ev_order := Some (ord\<lparr>or_informed := True\<rparr>)\<rparr> else ev) evs)"

definition flow_trade ::
  "('s \<Rightarrow> trade \<Rightarrow> 's res) \<Rightarrow> engine \<times> event list \<times> 's \<Rightarrow> trade \<Rightarrow> (engine \<times> event list \<times> 's) res" where
  "flow_trade on_trade st t = (case st of (e, evs, s) \<Rightarrow>
     let (e1, ev) = emit e (trade_event t) in
     bindE (on_trade s t) (\<lambda>s1. Inr (e1, evs @ [ev], s1)))"

definition execute_arrival ::
  "engine \<Rightarrow> arrival \<Rightarrow> ('s \<Rightarrow> trade \<Rightarrow> 's res) \<Rightarrow> 's \<Rightarrow> (engine \<times> event list \<times> 's) res" where
  "execute_arrival e ar on_trade s =
     bindE (flow_limit (e_mark e) (ar_side ar) (ar_slip ar)) (\<lambda>p.
     let (e1, ord0) = new_order e flow_account (ar_side ar) p (ar_qty ar) IOC;
         ord = ord0\<lparr>or_informed := ar_informed ar\<rparr>;
         (e2, ev) = emit e1 (order_event ''flow_order'' ord)
     in bindE (submit_book_order e2 ord) (\<lambda>(e3, trades, rp).
        bindE (foldE (flow_trade on_trade) (e3, [ev], s) trades) (\<lambda>(e4, evs4, s4).
        let (e5, life_evs) = emit_lifecycle e4 rp in
        bindE (reconcile_reservations e5) (\<lambda>e6.
        Inr (e6, evs4 @ mark_informed (or_id ord) (ar_informed ar) life_evs, s4)))))"

text \<open>What the callbacks of the adverse-selection simulation accumulate: the summary, the
  attribution, whether the player was filled, and the informed trades with the player.\<close>

type_synonym flow_acc = "summary \<times> attribution \<times> bool \<times> trade list"

definition flow_action :: "bool \<Rightarrow> price \<Rightarrow> flow_acc \<Rightarrow> trade \<Rightarrow> flow_acc res" where
  "flow_action informed mark acc t = (case acc of (sm, attr, filled, its) \<Rightarrow>
     bindE (add_flow_trade sm t) (\<lambda>sm1.
     bindE (add_execution_edge attr t mark) (\<lambda>attr1.
     if informed \<and> is_player_trade t
     then bindE (add_qty (sm_informed_units sm1) (tr_qty t)) (\<lambda>u.
          Inr (sm1\<lparr>sm_informed_units := u\<rparr>, attr1, True, its @ [t]))
     else Inr (sm1, attr1, filled, its))))"

definition add_informed_pnl :: "price \<Rightarrow> summary \<Rightarrow> trade \<Rightarrow> summary res" where
  "add_informed_pnl mark sm t =
     bindE (player_fill_pnl t mark) (\<lambda>pnl.
     bindE (add_money (sm_informed_pnl sm) pnl) (\<lambda>v. Inr (sm\<lparr>sm_informed_pnl := v\<rparr>)))"

definition invalid_arrival :: "config \<Rightarrow> customer_arrival \<Rightarrow> bool" where
  "invalid_arrival c ca \<longleftrightarrow>
     (ca_side ca \<noteq> Buy \<and> ca_side ca \<noteq> Sell) \<or> \<not> positive (ca_qty ca) \<or> ca_qty ca > cf_max_qty c \<or>
     ca_slip ca < 0 \<or> ca_slip ca > cf_max_slip c \<or>
     (ca_informed ca \<and> \<not> positive (ca_mark ca)) \<or> (\<not> ca_informed ca \<and> ca_mark ca \<noteq> 0)"

definition customer_arrival_step :: "customer_arrival \<Rightarrow> engine \<Rightarrow> step" where
  "customer_arrival_step ca e =
     guardE (e_over e) ''game is over''
     (guardE (invalid_arrival (e_cfg e) ca) ''invalid customer arrival''
     (bindE (player_equity e) (\<lambda>eq_before.
      bindE (execute_arrival e
          \<lparr>ar_side = ca_side ca, ar_qty = ca_qty ca, ar_slip = ca_slip ca, ar_informed = ca_informed ca\<rparr>
          (flow_action (ca_informed ca) (e_mark e))
          (zero_summary\<lparr>sm_orders := 1\<rparr>, zero_attribution, False, [])) (\<lambda>(e1, evs, sm, attr, filled, its).
      let sm1 = (if ca_informed ca
                 then sm\<lparr>sm_informed_orders := 1, sm_informed_filled := (if filled then 1 else 0)\<rparr>
                 else sm)
      in bindE (foldE (add_informed_pnl (ca_mark ca)) sm1 its) (\<lambda>sm2.
      bindE (end_real_time_on_breach e1) (\<lambda>(e2, more).
      bindE (player_equity e2) (\<lambda>eq_after.
      orFail (sub_money eq_after eq_before) ''customer action P&L does not reconcile'' (\<lambda>pnl.
      guardE (pnl \<noteq> at_edge attr) ''customer action P&L does not reconcile''
        (finish (bump_version e2) (sm2\<lparr>sm_action_pnl := pnl, sm_attribution := Some attr\<rparr>)
          (evs @ more))))))))))"

subsection \<open>Mark moves and carry\<close>

definition apply_mark :: "engine \<Rightarrow> price \<Rightarrow> bool \<Rightarrow> engine \<times> event" where
  "apply_mark e next_mark include_previous =
     emit (e\<lparr>e_mark := next_mark\<rparr>)
       ((event_of ''mark_updated'')
          \<lparr>ev_mark := next_mark, ev_message := ''previous='' @ show_price (e_mark e),
           ev_prev_mark := (if include_previous then e_mark e else 0)\<rparr>)"

definition moved_mark :: "price \<Rightarrow> i64 \<Rightarrow> price res" where
  "moved_mark mark move =
     orFail (scale_price mark (10000 + move) 10000) ''mark movement produced invalid price'' (\<lambda>p.
     guardE (\<not> positive p) ''mark movement produced invalid price'' (Inr p))"

definition mark_move_step :: "i64 \<Rightarrow> engine \<Rightarrow> step" where
  "mark_move_step move e =
     guardE (e_over e) ''game is over''
     (guardE (move < cf_min_move (e_cfg e) \<or> move > cf_max_move (e_cfg e))
        ''mark move exceeds configured limits''
     (bindE (player_equity e) (\<lambda>eq_before.
      bindE (moved_mark (e_mark e) move) (\<lambda>next_mark.
      bindE (get_account e player_account) (\<lambda>player.
      bindE (mark_pnl (ac_position player) (e_mark e) next_mark) (\<lambda>inventory.
      let (e1, ev) = apply_mark e next_mark True in
      bindE (end_real_time_on_breach e1) (\<lambda>(e2, more).
      bindE (player_equity e2) (\<lambda>eq_after.
      orFail (sub_money eq_after eq_before) ''mark action P&L does not reconcile'' (\<lambda>delta.
      guardE (delta \<noteq> inventory) ''mark action P&L does not reconcile''
        (finish (bump_version e2)
          (zero_summary\<lparr>sm_action_pnl := inventory,
             sm_attribution := Some (zero_attribution\<lparr>at_inventory := inventory\<rparr>)\<rparr>)
          (ev # more)))))))))))"

definition charge_storage :: "engine \<Rightarrow> string \<Rightarrow> price \<Rightarrow> (engine \<times> money \<times> event list) res" where
  "charge_storage e i rate =
     bindE (get_account e i) (\<lambda>a.
     bindE (abs_qty_checked (ac_position a)) (\<lambda>pos_abs.
     bindE (notional rate pos_abs) (\<lambda>storage.
     bindE (if storage > 0
            then ledger_append (e_ledger e)
              [\<lparr>le_id = 0, le_type = ''storage_charged'', le_ref = no_ref,
                le_postings = [cash_posting (cash_available i) (- storage),
                               cash_posting storage_account storage]\<rparr>]
            else Inr (e_ledger e)) (\<lambda>l.
     bindE (add_money (ac_cash a) (- storage)) (\<lambda>cash.
     let e1 = upd_account i (\<lambda>a. a\<lparr>ac_cash := cash\<rparr>) (e\<lparr>e_ledger := l\<rparr>) in
     if storage = 0 then Inr (e1, 0, [])
     else let (e2, ev) = emit e1 ((event_of ''storage_charged'')\<lparr>ev_amount := storage\<rparr>)
          in Inr (e2, storage, [ev]))))))"

definition carry_step :: "price \<Rightarrow> engine \<Rightarrow> step" where
  "carry_step rate e =
     guardE (e_over e) ''game is over''
     (guardE (rate < 0) ''carry rate must be non-negative''
     (bindE (player_equity e) (\<lambda>eq_before.
      bindE (charge_storage e player_account rate) (\<lambda>(e1, storage, evs).
      bindE (neg_money storage) (\<lambda>storage_pnl.
      bindE (player_equity e1) (\<lambda>eq_after.
      orFail (sub_money eq_after eq_before) ''carry action P&L does not reconcile'' (\<lambda>delta.
      guardE (delta \<noteq> storage_pnl) ''carry action P&L does not reconcile''
     (bindE (end_real_time_on_breach e1) (\<lambda>(e2, more).
        finish (bump_version e2)
          (zero_summary\<lparr>sm_storage := storage, sm_action_pnl := storage_pnl,
             sm_attribution := Some (zero_attribution\<lparr>at_storage := storage_pnl\<rparr>)\<rparr>)
          (evs @ more))))))))))"

end
