(* ===== verification/Exchange_Turns.thy ===== *)
theory Exchange_Turns
  imports Exchange_Engine
begin

text \<open>
  The turn-based simulations (legacy and adverse selection), the public methods of the engine
  and the dispatch of durable commands.
\<close>

subsection \<open>Random draws\<close>

definition draw_flow :: "engine \<Rightarrow> u64 \<Rightarrow> (engine \<times> u64) res" where
  "draw_flow e bound =
     bindE (bounded (e_flow_rng e) bound) (\<lambda>(v, s). Inr (e\<lparr>e_flow_rng := s\<rparr>, v))"

definition draw_mark :: "engine \<Rightarrow> u64 \<Rightarrow> (engine \<times> u64) res" where
  "draw_mark e bound =
     bindE (bounded (e_mark_rng e) bound) (\<lambda>(v, s). Inr (e\<lparr>e_mark_rng := s\<rparr>, v))"

definition draw_informed :: "engine \<Rightarrow> u64 \<Rightarrow> (engine \<times> u64) res" where
  "draw_informed e bound =
     bindE (bounded (e_informed_rng e) bound) (\<lambda>(v, s). Inr (e\<lparr>e_informed_rng := s\<rparr>, v))"

definition draw_legacy :: "engine \<Rightarrow> i64 \<Rightarrow> (engine \<times> i64) res" where
  "draw_legacy e bound =
     bindE (int64n (e_pcg e) bound) (\<lambda>(v, s). Inr (e\<lparr>e_pcg := s\<rparr>, v))"

definition draw_legacy_int :: "engine \<Rightarrow> i64 \<Rightarrow> (engine \<times> i64) res" where
  "draw_legacy_int e bound =
     bindE (int_n (e_pcg e) bound) (\<lambda>(v, s). Inr (e\<lparr>e_pcg := s\<rparr>, v))"

definition draw_legacy_arrival :: "engine \<Rightarrow> (engine \<times> arrival) res" where
  "draw_legacy_arrival e =
     bindE (draw_legacy_int e 2) (\<lambda>(e1, coin).
     bindE (draw_legacy e1 (cf_max_qty (e_cfg e1))) (\<lambda>(e2, q).
     bindE (if cf_max_slip (e_cfg e2) > 0 then draw_legacy e2 (cf_max_slip (e_cfg e2) + 1)
            else Inr (e2, 0)) (\<lambda>(e3, slip).
     Inr (e3, \<lparr>ar_side = (if coin = 1 then Sell else Buy), ar_qty = 1 + q, ar_slip = slip,
               ar_informed = False\<rparr>))))"

definition draw_v2_arrival :: "engine \<Rightarrow> price \<Rightarrow> price \<Rightarrow> (engine \<times> arrival) res" where
  "draw_v2_arrival e opening next_mark =
     bindE (draw_flow e 2) (\<lambda>(e1, coin).
     bindE (draw_flow e1 (bits (cf_max_qty (e_cfg e1)))) (\<lambda>(e2, q).
     bindE (draw_flow e2 (bits (cf_max_slip (e_cfg e2) + 1))) (\<lambda>(e3, slip).
     bindE (draw_informed e3 10000) (\<lambda>(e4, draw).
     let informed = (next_mark \<noteq> opening \<and> draw < bits (cf_informed (e_cfg e4)))
     in Inr (e4, \<lparr>ar_side = (if informed then (if next_mark > opening then Buy else Sell)
                             else if coin = 1 then Sell else Buy),
                  ar_qty = I64 (1 + q), ar_slip = I64 slip, ar_informed = informed\<rparr>)))))"

definition next_legacy_mark :: "engine \<Rightarrow> (engine \<times> price) res" where
  "next_legacy_mark e =
     bindE (if cf_max_move (e_cfg e) > cf_min_move (e_cfg e)
            then draw_legacy e (cf_max_move (e_cfg e) - cf_min_move (e_cfg e) + 1)
            else Inr (e, 0)) (\<lambda>(e1, d).
     bindE (moved_mark (e_mark e1) (cf_min_move (e_cfg e1) + d)) (\<lambda>p. Inr (e1, p)))"

definition next_mark_v2 :: "engine \<Rightarrow> (engine \<times> price) res" where
  "next_mark_v2 e =
     bindE (draw_mark e (bits (cf_max_move (e_cfg e) - cf_min_move (e_cfg e) + 1))) (\<lambda>(e1, d).
     bindE (moved_mark (e_mark e1) (cf_min_move (e_cfg e1) + I64 d)) (\<lambda>p. Inr (e1, p)))"

subsection \<open>A legacy turn\<close>

definition legacy_arrival ::
  "engine \<times> event list \<times> summary \<Rightarrow> nat \<Rightarrow> (engine \<times> event list \<times> summary) res" where
  "legacy_arrival st k = (case st of (e, evs, sm) \<Rightarrow>
     bindE (draw_legacy_arrival e) (\<lambda>(e1, ar).
     bindE (execute_arrival e1 ar add_legacy_flow_trade (sm\<lparr>sm_orders := sm_orders sm + 1\<rparr>)) (\<lambda>(e2, more, sm1).
     Inr (e2, evs @ more, sm1))))"

definition terminal_events :: "engine \<Rightarrow> (engine \<times> event list) res" where
  "terminal_events e =
     bindE (evaluate_player_maintenance e) (\<lambda>(e1, t). case t of
       Some ev \<Rightarrow> Inr (e1, [ev])
     | None \<Rightarrow> (case complete_turns_if_due e1 of
         (e2, Some ev) \<Rightarrow> Inr (e2, [ev])
       | (e2, None) \<Rightarrow> Inr (e2, [])))"

definition advance_legacy :: "engine \<Rightarrow> event list \<Rightarrow> (engine \<times> event list \<times> summary) res" where
  "advance_legacy e evs =
     bindE (if cf_max_orders (e_cfg e) > 0
            then bindE (draw_legacy_int e (cf_max_orders (e_cfg e))) (\<lambda>(e1, n).
                 foldE legacy_arrival (e1, evs, zero_summary) [0..<nat (ival (1 + n))])
            else Inr (e, evs, zero_summary)) (\<lambda>(e2, evs2, sm).
     bindE (charge_storage e2 player_account (cf_storage (e_cfg e2))) (\<lambda>(e3, storage, sevs).
     let e4 = e3\<lparr>e_turn := e_turn e3 + 1\<rparr> in
     bindE (next_legacy_mark e4) (\<lambda>(e5, next_mark).
     let (e6, mev) = apply_mark e5 next_mark False in
     bindE (terminal_events e6) (\<lambda>(e7, tevs).
     Inr (e7, evs2 @ sevs @ [mev] @ tevs, sm\<lparr>sm_storage := storage\<rparr>)))))"

definition submit_quote_legacy :: "engine \<Rightarrow> price \<Rightarrow> price \<Rightarrow> step" where
  "submit_quote_legacy e bid ask =
     (let q = cf_max_qty (e_cfg e) in
      bindE (validate_player_quote e bid ask q) (\<lambda>_.
      bindE (player_equity e) (\<lambda>eq_before.
      bindE (replace_player_quote e bid ask q (\<lambda>s _. Inr s) ()) (\<lambda>(e1, evs, _).
      bindE (advance_legacy e1 evs) (\<lambda>(e2, evs2, sm).
      bindE (player_equity e2) (\<lambda>eq_after.
      bindE (sub_money eq_after eq_before) (\<lambda>pnl.
      finish (bump_version e2) (sm\<lparr>sm_turn_pnl := pnl\<rparr>) evs2)))))))"

subsection \<open>A turn of the adverse-selection simulation\<close>

definition v2_arrival ::
  "price \<Rightarrow> price \<Rightarrow> engine \<times> event list \<times> summary \<times> attribution \<times> trade list \<Rightarrow> nat \<Rightarrow>
   (engine \<times> event list \<times> summary \<times> attribution \<times> trade list) res" where
  "v2_arrival opening next_mark st k = (case st of (e, evs, sm, attr, its) \<Rightarrow>
     bindE (draw_v2_arrival e opening next_mark) (\<lambda>(e1, ar).
     let sm1 = sm\<lparr>sm_orders := sm_orders sm + 1,
           sm_informed_orders := (if ar_informed ar then sm_informed_orders sm + 1 else sm_informed_orders sm)\<rparr>
     in bindE (execute_arrival e1 ar (flow_action (ar_informed ar) opening) (sm1, attr, False, its))
          (\<lambda>(e2, more, sm2, attr2, filled, its2).
        Inr (e2, evs @ more,
             sm2\<lparr>sm_informed_filled := (if filled then sm_informed_filled sm2 + 1 else sm_informed_filled sm2)\<rparr>,
             attr2, its2))))"

definition advance_v2 ::
  "engine \<Rightarrow> event list \<Rightarrow> price \<Rightarrow> attribution \<Rightarrow> (engine \<times> event list \<times> summary) res" where
  "advance_v2 e evs opening attr0 =
     bindE (next_mark_v2 e) (\<lambda>(e1, next_mark).
     bindE (if cf_max_orders (e_cfg e1) > 0
            then bindE (draw_flow e1 (bits (cf_max_orders (e_cfg e1)))) (\<lambda>(e2, n).
                 foldE (v2_arrival opening next_mark) (e2, evs, zero_summary, attr0, [])
                   [0..<nat (ival (1 + I64 n))])
            else Inr (e1, evs, zero_summary, attr0, [])) (\<lambda>(e3, evs3, sm, attr, its).
     bindE (charge_storage e3 player_account (cf_storage (e_cfg e3))) (\<lambda>(e4, storage, sevs).
     let e5 = e4\<lparr>e_turn := e_turn e4 + 1\<rparr>;
         (e6, mev) = apply_mark e5 next_mark True
     in
     bindE (get_account e6 player_account) (\<lambda>player.
     bindE (mark_pnl (ac_position player) opening (e_mark e6)) (\<lambda>inventory.
     bindE (neg_money storage) (\<lambda>storage_pnl.
     bindE (add_money (at_edge attr) inventory) (\<lambda>pnl1.
     bindE (add_money pnl1 storage_pnl) (\<lambda>pnl2.
     bindE (foldE (add_informed_pnl (e_mark e6))
         (sm\<lparr>sm_storage := storage, sm_turn_pnl := pnl2,
             sm_attribution := Some (attr\<lparr>at_inventory := inventory, at_storage := storage_pnl\<rparr>)\<rparr>) its) (\<lambda>sm2.
     bindE (terminal_events e6) (\<lambda>(e7, tevs).
     Inr (e7, evs3 @ sevs @ [mev] @ tevs, sm2)))))))))))"

definition edge_action :: "price \<Rightarrow> attribution \<Rightarrow> trade \<Rightarrow> attribution res" where
  "edge_action mark attr t = add_execution_edge attr t mark"

definition submit_quote_v2 :: "engine \<Rightarrow> price \<Rightarrow> price \<Rightarrow> step" where
  "submit_quote_v2 e bid ask =
     (let q = cf_max_qty (e_cfg e) in
      bindE (validate_player_quote e bid ask q) (\<lambda>_.
      bindE (player_equity e) (\<lambda>eq_before.
      bindE (replace_player_quote e bid ask q (edge_action (e_mark e)) zero_attribution) (\<lambda>(e1, evs, attr).
      bindE (advance_v2 e1 evs (e_mark e) attr) (\<lambda>(e2, evs2, sm).
      bindE (player_equity e2) (\<lambda>eq_after.
      bindE (sub_money eq_after eq_before) (\<lambda>delta.
      guardE (sm_turn_pnl sm \<noteq> delta) ''turn P&L attribution does not reconcile to equity''
        (finish (bump_version e2) sm evs2))))))))"

definition submit_quote_step :: "price \<Rightarrow> price \<Rightarrow> engine \<Rightarrow> step" where
  "submit_quote_step bid ask e =
     (if cf_version (e_cfg e) = version_adverse then submit_quote_v2 e bid ask
      else submit_quote_legacy e bid ask)"

subsection \<open>The public methods\<close>

definition open_account_cmd :: "engine \<Rightarrow> string \<Rightarrow> money \<Rightarrow> qty \<Rightarrow> outcome" where
  "open_account_cmd e i cash position = transact e (\<lambda>c. open_account c i cash position)"

definition place_order_cmd :: "engine \<Rightarrow> string \<Rightarrow> side \<Rightarrow> price \<Rightarrow> qty \<Rightarrow> tif \<Rightarrow> outcome" where
  "place_order_cmd e i s p q f = transact e (\<lambda>c. place_limit c i s p q f)"

definition cancel_order_cmd :: "engine \<Rightarrow> string \<Rightarrow> u64 \<Rightarrow> outcome" where
  "cancel_order_cmd e i oid = transact e (\<lambda>c. cancel_limit c i oid)"

definition replace_order_cmd ::
  "engine \<Rightarrow> string \<Rightarrow> u64 \<Rightarrow> side \<Rightarrow> price \<Rightarrow> qty \<Rightarrow> tif \<Rightarrow> outcome" where
  "replace_order_cmd e i oid s p q f = transact e (\<lambda>c. replace_limit c i oid s p q f)"

definition submit_quote_cmd :: "engine \<Rightarrow> price \<Rightarrow> price \<Rightarrow> outcome" where
  "submit_quote_cmd e bid ask = transact e (submit_quote_step bid ask)"

definition update_quote :: "engine \<Rightarrow> price \<Rightarrow> price \<Rightarrow> qty \<Rightarrow> outcome" where
  "update_quote e bid ask q = transact e (update_quote_step bid ask q)"

definition apply_customer_arrival :: "engine \<Rightarrow> customer_arrival \<Rightarrow> outcome" where
  "apply_customer_arrival e ca = transact e (customer_arrival_step ca)"

definition apply_mark_move :: "engine \<Rightarrow> i64 \<Rightarrow> outcome" where
  "apply_mark_move e move = transact e (mark_move_step move)"

definition apply_carry :: "engine \<Rightarrow> price \<Rightarrow> outcome" where
  "apply_carry e rate = transact e (carry_step rate)"

definition expire_trading_day :: "engine \<Rightarrow> outcome" where
  "expire_trading_day e = transact e (expire_step TimeExpired)"

definition quit_real_time :: "engine \<Rightarrow> outcome" where
  "quit_real_time e = transact e (expire_step PlayerQuit)"

text \<open>\<^verbatim>\<open>Quit\<close> works on the engine itself, without a transaction.\<close>

definition quit :: "engine \<Rightarrow> outcome" where
  "quit e =
     (if e_over e then refuse e (ErrorsNew ''game is over'')
      else let e1 = bump_version (e\<lparr>e_over := True, e_reason := PlayerQuit\<rparr>);
               (e2, ev) = emit e1 ((event_of ''game_ended'')\<lparr>ev_reason := PlayerQuit\<rparr>)
           in bindE (state_of e2) (\<lambda>s. Inr (e2, result_of s zero_summary [ev], None)))"

definition execute :: "engine \<Rightarrow> command \<Rightarrow> outcome" where
  "execute e c =
     (if cm_type c = ''submit_quote'' then submit_quote_cmd e (cm_bid c) (cm_ask c)
      else if cm_type c = ''quit'' then quit e
      else if cm_type c = ''open_account'' then open_account_cmd e (cm_account c) (cm_cash c) (cm_position c)
      else if cm_type c = ''place_order''
      then place_order_cmd e (cm_account c) (cm_side c) (cm_price c) (cm_qty c) (cm_tif c)
      else if cm_type c = ''cancel_order'' then cancel_order_cmd e (cm_account c) (cm_order c)
      else if cm_type c = ''replace_order''
      then replace_order_cmd e (cm_account c) (cm_order c) (cm_side c) (cm_price c) (cm_qty c) (cm_tif c)
      else refuse e (Errorf ''unsupported command type %q'' [cm_type c]))"

end
