(* ===== verification/Exchange_Inv.thy ===== *)
theory Exchange_Inv
  imports Exchange_Turns
begin

text \<open>
  The invariants of the engine and what each primitive change of its state does to them. The
  journal is a projection of the accounts: for every account its four ledger balances are its
  free and reserved cash and its free and reserved instrument. Every settled trade moves cash
  and position from one account to another and leaves the totals as they were.
\<close>

subsection \<open>The ledger as a projection of the accounts\<close>

definition cash_bal :: "ledger \<Rightarrow> ledger_account \<Rightarrow> money" where
  "cash_bal l a = ps_money (ledger_balance l a)"

definition inst_bal :: "ledger \<Rightarrow> ledger_account \<Rightarrow> qty" where
  "inst_bal l a = ps_instrument (ledger_balance l a)"

definition projects :: "ledger \<Rightarrow> string \<Rightarrow> account option \<Rightarrow> bool" where
  "projects l i oa \<longleftrightarrow>
     (case oa of
        None \<Rightarrow> cash_bal l (cash_available i) = 0 \<and> cash_bal l (cash_reserved i) = 0 \<and>
          inst_bal l (instrument_available i) = 0 \<and> inst_bal l (instrument_reserved i) = 0
      | Some a \<Rightarrow> cash_bal l (cash_available i) = ac_cash a - ac_reserved a \<and>
          cash_bal l (cash_reserved i) = ac_reserved a \<and>
          inst_bal l (instrument_available i) = ac_position a - ac_open_sell a \<and>
          inst_bal l (instrument_reserved i) = ac_open_sell a)"

definition projection :: "engine \<Rightarrow> bool" where
  "projection e \<longleftrightarrow> (\<forall>i. projects (e_ledger e) i (fmlookup (e_accounts e) i))"

lemma append_bal:
  assumes "ledger_append l [en] = Inr l'"
  shows "cash_bal l' a = cash_bal l a + posted ps_money (le_postings en) a"
    and "inst_bal l' a = inst_bal l a + posted ps_instrument (le_postings en) a"
  using ledger_append_Inr(3,4) [OF assms, of a] by (simp_all add: cash_bal_def inst_bal_def)

lemma posting_sel [simp]:
  "ps_account (cash_posting a m) = a" "ps_money (cash_posting a m) = m"
  "ps_instrument (cash_posting a m) = 0"
  "ps_account (inst_posting a q) = a" "ps_money (inst_posting a q) = 0"
  "ps_instrument (inst_posting a q) = q"
  by (simp_all add: cash_posting_def inst_posting_def)

lemma get_account_Inr [simp]: "get_account e i = Inr a \<longleftrightarrow> fmlookup (e_accounts e) i = Some a"
  by (simp add: get_account_def split: option.splits)

lemma upd_account_sel [simp]:
  "e_book (upd_account i f e) = e_book e" "e_ledger (upd_account i f e) = e_ledger e"
  "e_cfg (upd_account i f e) = e_cfg e" "e_mark (upd_account i f e) = e_mark e"
  "e_next_order (upd_account i f e) = e_next_order e" "e_over (upd_account i f e) = e_over e"
  by (simp_all add: upd_account_def)

lemma upd_account_lookup [simp]:
  "fmlookup (e_accounts (upd_account i f e)) j =
     (if i = j then map_option f (fmlookup (e_accounts e) j) else fmlookup (e_accounts e) j)"
  by (auto simp: upd_account_def split: option.splits)

lemma upd_account_dom [simp]: "fmdom (e_accounts (upd_account i f e)) = fmdom (e_accounts e)"
  by (auto simp: upd_account_def finsert_absorb fmdomI split: option.splits)

subsection \<open>A trade\<close>

lemma checked_eq:
  "add_money a b = Inr c \<Longrightarrow> c = a + b" "sub_money a b = Inr c \<Longrightarrow> c = a - b"
  "add_qty a b = Inr c \<Longrightarrow> c = a + b" "sub_qty a b = Inr c \<Longrightarrow> c = a - b"
  "neg_money a = Inr c \<Longrightarrow> c = - a" "neg_qty a = Inr c \<Longrightarrow> c = - a"
  "notional p q = Inr n \<Longrightarrow> n = p * q"
  by (auto simp: add_money_def sub_money_def add_qty_def sub_qty_def neg_money_def neg_qty_def
      notional_def split: if_splits)

text \<open>Everything a successful \<open>apply_trade\<close> does, as equations of the 64-bit ring.\<close>

lemma apply_trade_Inr:
  assumes r: "apply_trade e t bo so = Inr e'"
  obtains buyer seller l en rb rs where
    "fmlookup (e_accounts e) (tr_buyer t) = Some buyer"
    "fmlookup (e_accounts e) (tr_seller t) = Some seller"
    "rb = (bo_id bo = tr_maker t \<and> \<not> ac_external buyer)"
    "rs = (bo_id so = tr_maker t \<and> \<not> ac_external seller)"
    "ledger_append (e_ledger e) [en] = Inr l"
    "le_postings en =
       [cash_posting (cash_available (tr_seller t)) (tr_price t * tr_qty t),
        inst_posting (instrument_available (tr_buyer t)) (tr_qty t)] @
       (if rb then [cash_posting (cash_reserved (tr_buyer t)) (- (bo_price bo * tr_qty t)),
                    cash_posting (cash_available (tr_buyer t)) (bo_price bo * tr_qty t - tr_price t * tr_qty t)]
        else [cash_posting (cash_available (tr_buyer t)) (- (tr_price t * tr_qty t))]) @
       (if rs then [inst_posting (instrument_reserved (tr_seller t)) (- tr_qty t)]
        else [inst_posting (instrument_available (tr_seller t)) (- tr_qty t)])"
    "e' = upd_account (tr_seller t)
        (\<lambda>a. a\<lparr>ac_open_sell := (if rs then ac_open_sell seller - tr_qty t else ac_open_sell seller),
               ac_cash := ac_cash seller + tr_price t * tr_qty t,
               ac_position := ac_position seller - tr_qty t\<rparr>)
      (upd_account (tr_buyer t)
        (\<lambda>a. a\<lparr>ac_reserved := (if rb then ac_reserved buyer - bo_price bo * tr_qty t else ac_reserved buyer),
               ac_open_buy := (if rb then ac_open_buy buyer - tr_qty t else ac_open_buy buyer),
               ac_cash := ac_cash buyer - tr_price t * tr_qty t,
               ac_position := ac_position buyer + tr_qty t\<rparr>)
        (e\<lparr>e_ledger := l\<rparr>))"
    "ival (ac_position seller - tr_qty t) = ival (ac_position seller) - ival (tr_qty t)"
    "ival (ac_position buyer + tr_qty t) = ival (ac_position buyer) + ival (tr_qty t)"
    "ival (ac_cash seller + tr_price t * tr_qty t) = ival (ac_cash seller) + ival (tr_price t * tr_qty t)"
    "ival (ac_cash buyer + - (tr_price t * tr_qty t)) = ival (ac_cash buyer) + ival (- (tr_price t * tr_qty t))"
    "ival (tr_price t * tr_qty t) = ival (tr_price t) * ival (tr_qty t)"
proof -
  from r obtain n buyer bc seller sc bp sp where
    n: "notional (tr_price t) (tr_qty t) = Inr n"
    and buyer: "fmlookup (e_accounts e) (tr_buyer t) = Some buyer"
    and bc: "add_money (ac_cash buyer) (- n) = Inr bc"
    and seller: "fmlookup (e_accounts e) (tr_seller t) = Some seller"
    and sc: "add_money (ac_cash seller) n = Inr sc"
    and bp: "add_qty (ac_position buyer) (tr_qty t) = Inr bp"
    and sp: "sub_qty (ac_position seller) (tr_qty t) = Inr sp"
    and rest: "apply_trade e t bo so = Inr e'"
    by (auto simp: apply_trade_def)
  define rb where "rb = (bo_id bo = tr_maker t \<and> \<not> ac_external buyer)"
  define rs where "rs = (bo_id so = tr_maker t \<and> \<not> ac_external seller)"
  note core = rest [unfolded apply_trade_def n bindE_simps get_account_def buyer seller bc sc bp sp
      option.case Let_def, folded rb_def rs_def]
  have eqs: "n = tr_price t * tr_qty t" "bc = ac_cash buyer - n" "sc = ac_cash seller + n"
    "bp = ac_position buyer + tr_qty t" "sp = ac_position seller - tr_qty t"
    using checked_eq(7) [OF n] checked_eq(1) [OF bc] checked_eq(1) [OF sc] checked_eq(3) [OF bp]
      checked_eq(4) [OF sp] by simp_all
  have ints: "ival (ac_position seller - tr_qty t) = ival (ac_position seller) - ival (tr_qty t)"
    "ival (ac_position buyer + tr_qty t) = ival (ac_position buyer) + ival (tr_qty t)"
    "ival (ac_cash seller + tr_price t * tr_qty t) = ival (ac_cash seller) + ival (tr_price t * tr_qty t)"
    "ival (ac_cash buyer + - (tr_price t * tr_qty t)) = ival (ac_cash buyer) + ival (- (tr_price t * tr_qty t))"
    "ival (tr_price t * tr_qty t) = ival (tr_price t) * ival (tr_qty t)"
    using exactly_InrD [OF notional_exact n] exactly_InrD [OF add_money_exact bc]
      exactly_InrD [OF add_money_exact sc] exactly_InrD [OF add_qty_exact bp]
      exactly_InrD [OF sub_qty_exact sp] eqs by simp_all
  from core obtain reserved buyer_ps where
    buyer_ps: "(if rb then bindE (notional (bo_price bo) (tr_qty t)) (\<lambda>limit. bindE (add_money limit (- n))
        (\<lambda>refund. Inr (limit, [cash_posting (cash_reserved (tr_buyer t)) (- limit),
                              cash_posting (cash_available (tr_buyer t)) refund])))
      else Inr (0, [cash_posting (cash_available (tr_buyer t)) (- n)])) = Inr (reserved, buyer_ps)"
    by (auto split: if_splits)
  have ps: "buyer_ps = (if rb then [cash_posting (cash_reserved (tr_buyer t)) (- (bo_price bo * tr_qty t)),
        cash_posting (cash_available (tr_buyer t)) (bo_price bo * tr_qty t - tr_price t * tr_qty t)]
      else [cash_posting (cash_available (tr_buyer t)) (- (tr_price t * tr_qty t))])"
    "rb \<Longrightarrow> reserved = bo_price bo * tr_qty t"
    using buyer_ps eqs(1) by (auto split: if_splits dest!: checked_eq)
  from core [unfolded buyer_ps bindE_simps prod.case] obtain l r ob os where
    l: "ledger_append (e_ledger e) [\<lparr>le_id = 0, le_type = ''trade_settled'',
      le_ref = \<lparr>lr_order = 0, lr_trade = tr_id t, lr_maker = tr_maker t, lr_taker = tr_taker t\<rparr>,
      le_postings = [cash_posting (cash_available (tr_seller t)) n,
                     inst_posting (instrument_available (tr_buyer t)) (tr_qty t)] @ buyer_ps @
        (if rs then [inst_posting (instrument_reserved (tr_seller t)) (- tr_qty t)]
         else [inst_posting (instrument_available (tr_seller t)) (- tr_qty t)])\<rparr>] = Inr l"
    and r: "(if rb then bindE (add_money (ac_reserved buyer) (- reserved)) (\<lambda>r.
        bindE (sub_qty (ac_open_buy buyer) (tr_qty t)) (\<lambda>ob. Inr (r, ob)))
      else Inr (ac_reserved buyer, ac_open_buy buyer)) = Inr (r, ob)"
    and os: "(if rs then sub_qty (ac_open_sell seller) (tr_qty t) else Inr (ac_open_sell seller)) = Inr os"
    and e': "e' = upd_account (tr_seller t)
            (\<lambda>a. a\<lparr>ac_open_sell := os, ac_cash := sc, ac_position := sp\<rparr>)
          (upd_account (tr_buyer t)
            (\<lambda>a. a\<lparr>ac_reserved := r, ac_open_buy := ob, ac_cash := bc, ac_position := bp\<rparr>)
          (e\<lparr>e_ledger := l\<rparr>))"
    by (elim bindE_InrE) auto
  have vals: "r = (if rb then ac_reserved buyer - bo_price bo * tr_qty t else ac_reserved buyer)"
    "ob = (if rb then ac_open_buy buyer - tr_qty t else ac_open_buy buyer)"
    "os = (if rs then ac_open_sell seller - tr_qty t else ac_open_sell seller)"
    using r os ps(2) by (auto split: if_splits dest!: checked_eq)
  show thesis
    by (rule that [OF buyer seller rb_def rs_def l _ _ ints])
      (use e' vals eqs ps(1) in simp_all)
qed

text \<open>The new accounts and the new ledger, account by account.\<close>

lemma apply_trade_account:
  assumes r: "apply_trade e t bo so = Inr e'" and ne: "tr_buyer t \<noteq> tr_seller t"
  shows "fmdom (e_accounts e') = fmdom (e_accounts e)"
    and "e_book e' = e_book e" "e_cfg e' = e_cfg e" "e_mark e' = e_mark e" "e_over e' = e_over e"
    and "fmlookup (e_accounts e) i = Some a \<Longrightarrow> \<exists>a'. fmlookup (e_accounts e') i = Some a' \<and>
      ac_external a' = ac_external a \<and> ac_id a' = ac_id a \<and>
      ac_cash a' = ac_cash a + (if i = tr_seller t then tr_price t * tr_qty t else 0) -
        (if i = tr_buyer t then tr_price t * tr_qty t else 0) \<and>
      ac_position a' = ac_position a + (if i = tr_buyer t then tr_qty t else 0) -
        (if i = tr_seller t then tr_qty t else 0) \<and>
      (ac_external a \<longrightarrow> ac_reserved a' = ac_reserved a \<and> ac_open_sell a' = ac_open_sell a)"
proof -
  from r show "fmdom (e_accounts e') = fmdom (e_accounts e)"
    by (auto elim!: apply_trade_Inr)
  from r show "e_book e' = e_book e" "e_cfg e' = e_cfg e" "e_mark e' = e_mark e" "e_over e' = e_over e"
    by (auto elim!: apply_trade_Inr)
  show "\<exists>a'. fmlookup (e_accounts e') i = Some a' \<and>
      ac_external a' = ac_external a \<and> ac_id a' = ac_id a \<and>
      ac_cash a' = ac_cash a + (if i = tr_seller t then tr_price t * tr_qty t else 0) -
        (if i = tr_buyer t then tr_price t * tr_qty t else 0) \<and>
      ac_position a' = ac_position a + (if i = tr_buyer t then tr_qty t else 0) -
        (if i = tr_seller t then tr_qty t else 0) \<and>
      (ac_external a \<longrightarrow> ac_reserved a' = ac_reserved a \<and> ac_open_sell a' = ac_open_sell a)"
    if "fmlookup (e_accounts e) i = Some a"
    using r ne that by (elim apply_trade_Inr) auto
qed

lemma apply_trade_projection:
  assumes r: "apply_trade e t bo so = Inr e'" and ne: "tr_buyer t \<noteq> tr_seller t"
    and inv: "projection e"
  shows "projection e'"
  unfolding projection_def
proof
  fix i
  show "projects (e_ledger e') i (fmlookup (e_accounts e') i)"
    using r
  proof (rule apply_trade_Inr)
    fix buyer seller l en rb rs
    assume b: "fmlookup (e_accounts e) (tr_buyer t) = Some buyer"
      and s: "fmlookup (e_accounts e) (tr_seller t) = Some seller"
      and l: "ledger_append (e_ledger e) [en] = Inr l"
      and ps: "le_postings en =
       [cash_posting (cash_available (tr_seller t)) (tr_price t * tr_qty t),
        inst_posting (instrument_available (tr_buyer t)) (tr_qty t)] @
       (if rb then [cash_posting (cash_reserved (tr_buyer t)) (- (bo_price bo * tr_qty t)),
                    cash_posting (cash_available (tr_buyer t)) (bo_price bo * tr_qty t - tr_price t * tr_qty t)]
        else [cash_posting (cash_available (tr_buyer t)) (- (tr_price t * tr_qty t))]) @
       (if rs then [inst_posting (instrument_reserved (tr_seller t)) (- tr_qty t)]
        else [inst_posting (instrument_available (tr_seller t)) (- tr_qty t)])"
      and e': "e' = upd_account (tr_seller t)
        (\<lambda>a. a\<lparr>ac_open_sell := (if rs then ac_open_sell seller - tr_qty t else ac_open_sell seller),
               ac_cash := ac_cash seller + tr_price t * tr_qty t,
               ac_position := ac_position seller - tr_qty t\<rparr>)
      (upd_account (tr_buyer t)
        (\<lambda>a. a\<lparr>ac_reserved := (if rb then ac_reserved buyer - bo_price bo * tr_qty t else ac_reserved buyer),
               ac_open_buy := (if rb then ac_open_buy buyer - tr_qty t else ac_open_buy buyer),
               ac_cash := ac_cash buyer - tr_price t * tr_qty t,
               ac_position := ac_position buyer + tr_qty t\<rparr>)
        (e\<lparr>e_ledger := l\<rparr>))"
    have old: "projects (e_ledger e) i (fmlookup (e_accounts e) i)"
      using inv by (simp add: projection_def)
    show ?thesis
      using old b s ne unfolding e' projects_def
      by (cases "i = tr_buyer t"; cases "i = tr_seller t")
        (auto simp: append_bal [OF l] ps algebra_simps split: option.splits)
  qed
qed

subsection \<open>Settling a report\<close>

definition fill_ok :: "string fset \<Rightarrow> fill \<Rightarrow> bool" where
  "fill_ok D f \<longleftrightarrow> bo_owner (fl_maker f) \<noteq> bo_owner (fl_taker f) \<and> bo_owner (fl_maker f) |\<in>| D \<and>
     bo_owner (fl_taker f) |\<in>| D \<and> 0 < ival (fl_price f) \<and> 0 < ival (fl_qty f)"

text \<open>The change of an account's position by a trade; its cash changes by minus the price times it.\<close>

definition dpos :: "string \<Rightarrow> trade \<Rightarrow> qty" where
  "dpos i t = (if i = tr_buyer t then tr_qty t else 0) - (if i = tr_seller t then tr_qty t else 0)"

definition dcash :: "string \<Rightarrow> trade \<Rightarrow> money" where
  "dcash i t = - (tr_price t * dpos i t)"

lemma trade_of_fill_sel [simp]:
  "tr_price (trade_of_fill n f) = fl_price f" "tr_qty (trade_of_fill n f) = fl_qty f"
  "tr_id (trade_of_fill n f) = n" "tr_informed (trade_of_fill n f) = False"
  by (simp_all add: trade_of_fill_def)

lemma fill_ok_owners:
  assumes "fill_ok D f"
  shows "tr_buyer (trade_of_fill n f) \<noteq> tr_seller (trade_of_fill n f)"
    "tr_buyer (trade_of_fill n f) |\<in>| D" "tr_seller (trade_of_fill n f) |\<in>| D"
  using assms by (auto simp: fill_ok_def trade_of_fill_def)

text \<open>The rule for settlement: what each trade between two known, distinct accounts keeps, the
  settlement of a report keeps.\<close>

lemma settle_fold_rule:
  assumes "foldE settle_fill (e, ts) fs = Inr (e', ts')"
    and "\<forall>f \<in> set fs. fill_ok (fmdom (e_accounts e)) f"
    and "P e ts"
    and "\<And>e n ts. P e ts \<Longrightarrow> P (e\<lparr>e_next_trade := n\<rparr>) ts"
    and "\<And>e e' t bo so ts. P e ts \<Longrightarrow> tr_buyer t \<noteq> tr_seller t \<Longrightarrow> 0 < ival (tr_price t) \<Longrightarrow>
      0 < ival (tr_qty t) \<Longrightarrow> tr_informed t = False \<Longrightarrow> apply_trade e t bo so = Inr e' \<Longrightarrow> P e' (ts @ [t])"
  shows "P e' ts'"
  using assms(1-3)
proof (induction fs arbitrary: e ts)
  case (Cons f fs)
  let ?e1 = "e\<lparr>e_next_trade := e_next_trade e + 1\<rparr>"
  let ?t = "trade_of_fill (e_next_trade e + 1) f"
  from Cons.prems(1) obtain s1 where one: "settle_fill (e, ts) f = Inr s1"
    and more: "foldE settle_fill s1 fs = Inr (e', ts')" by auto
  from one obtain e2 bo so where app: "apply_trade ?e1 ?t bo so = Inr e2" and "s1 = (e2, ts @ [?t])"
    unfolding settle_fill_def by (auto simp: Let_def split: if_splits)
  with more have rest: "foldE settle_fill (e2, ts @ [?t]) fs = Inr (e', ts')" by simp
  have ok: "fill_ok (fmdom (e_accounts e)) f" using Cons.prems(2) by simp
  note ne = fill_ok_owners(1) [OF ok, of "e_next_trade e + 1"]
  have dom: "fmdom (e_accounts e2) = fmdom (e_accounts e)"
    using apply_trade_account(1) [OF app ne] by simp
  have "P e2 (ts @ [?t])"
    using ok by (intro assms(5) [OF assms(4) [OF Cons.prems(3)] ne _ _ _ app]) (auto simp: fill_ok_def)
  then show ?case using Cons.prems(2) dom by (intro Cons.IH [OF rest]) auto
qed simp

lemmas settle_report_rule = settle_fold_rule [where ts = "[]"]

lemma settle_report_Inr:
  "settle_report e rp = Inr (e', ts) \<Longrightarrow> foldE settle_fill (e, []) (rp_fills rp) = Inr (e', ts)"
  by (auto simp: settle_report_def)

text \<open>What settlement does to each account.\<close>

definition settled :: "engine \<Rightarrow> engine \<Rightarrow> trade list \<Rightarrow> bool" where
  "settled e0 e ts \<longleftrightarrow> fmdom (e_accounts e) = fmdom (e_accounts e0) \<and> e_book e = e_book e0 \<and>
     e_cfg e = e_cfg e0 \<and> e_mark e = e_mark e0 \<and> e_over e = e_over e0 \<and>
     list_all (\<lambda>t. tr_buyer t \<noteq> tr_seller t) ts \<and>
     (\<forall>i a. fmlookup (e_accounts e0) i = Some a \<longrightarrow> (\<exists>a'. fmlookup (e_accounts e) i = Some a' \<and>
        ac_external a' = ac_external a \<and> ac_id a' = ac_id a \<and>
        ac_cash a' = ac_cash a + sum_list (map (dcash i) ts) \<and>
        ac_position a' = ac_position a + sum_list (map (dpos i) ts)))"

lemma settledD:
  assumes "settled e0 e ts" and "fmlookup (e_accounts e0) i = Some a"
  obtains a' where "fmlookup (e_accounts e) i = Some a'" "ac_external a' = ac_external a"
    "ac_id a' = ac_id a" "ac_cash a' = ac_cash a + sum_list (map (dcash i) ts)"
    "ac_position a' = ac_position a + sum_list (map (dpos i) ts)"
  using assms unfolding settled_def by blast

lemma settle_settled:
  assumes "foldE settle_fill (e, []) fs = Inr (e', ts)"
    and "\<forall>f \<in> set fs. fill_ok (fmdom (e_accounts e)) f"
  shows "settled e e' ts"
proof (rule settle_report_rule [OF assms])
  show "settled e e []" by (simp add: settled_def)
  show "settled e (c\<lparr>e_next_trade := n\<rparr>) ts" if "settled e c ts" for c n ts
    using that by (simp add: settled_def)
  fix c c' t bo so ts
  assume s: "settled e c ts" and ne: "tr_buyer t \<noteq> tr_seller t" and app: "apply_trade c t bo so = Inr c'"
  note acc = apply_trade_account [OF app ne]
  have "\<exists>a'. fmlookup (e_accounts c') i = Some a' \<and> ac_external a' = ac_external a \<and> ac_id a' = ac_id a \<and>
      ac_cash a' = ac_cash a + sum_list (map (dcash i) (ts @ [t])) \<and>
      ac_position a' = ac_position a + sum_list (map (dpos i) (ts @ [t]))"
    if a: "fmlookup (e_accounts e) i = Some a" for i a
  proof -
    obtain b where b: "fmlookup (e_accounts c) i = Some b" "ac_external b = ac_external a"
      "ac_id b = ac_id a" "ac_cash b = ac_cash a + sum_list (map (dcash i) ts)"
      "ac_position b = ac_position a + sum_list (map (dpos i) ts)"
      by (rule settledD [OF s a])
    show ?thesis
      using acc(6) [OF b(1)] b(2-5) by (auto simp: dcash_def dpos_def algebra_simps)
  qed
  then show "settled e c' (ts @ [t])"
    using s acc(1-5) ne by (simp add: settled_def)
qed

text \<open>Totals: a trade moves money and instrument between two accounts and creates none.\<close>

definition total_cash :: "engine \<Rightarrow> int" where
  "total_cash e = (\<Sum>i \<in> fset (fmdom (e_accounts e)). ival (ac_cash (the (fmlookup (e_accounts e) i))))"

definition total_position :: "engine \<Rightarrow> int" where
  "total_position e = (\<Sum>i \<in> fset (fmdom (e_accounts e)). ival (ac_position (the (fmlookup (e_accounts e) i))))"

lemma apply_trade_ints:
  assumes r: "apply_trade e t bo so = Inr e'" and ne: "tr_buyer t \<noteq> tr_seller t"
    and pos: "0 < ival (tr_price t)" "0 < ival (tr_qty t)" and a: "fmlookup (e_accounts e) i = Some a"
  shows "\<exists>a'. fmlookup (e_accounts e') i = Some a' \<and>
    ival (ac_cash a') = ival (ac_cash a) + (if i = tr_seller t then ival (tr_price t) * ival (tr_qty t) else 0) -
      (if i = tr_buyer t then ival (tr_price t) * ival (tr_qty t) else 0) \<and>
    ival (ac_position a') = ival (ac_position a) + (if i = tr_buyer t then ival (tr_qty t) else 0) -
      (if i = tr_seller t then ival (tr_qty t) else 0)"
  using r
proof (rule apply_trade_Inr)
  fix buyer seller l en rb rs
  assume b: "fmlookup (e_accounts e) (tr_buyer t) = Some buyer"
    and s: "fmlookup (e_accounts e) (tr_seller t) = Some seller"
    and e': "e' = upd_account (tr_seller t)
        (\<lambda>a. a\<lparr>ac_open_sell := (if rs then ac_open_sell seller - tr_qty t else ac_open_sell seller),
               ac_cash := ac_cash seller + tr_price t * tr_qty t,
               ac_position := ac_position seller - tr_qty t\<rparr>)
      (upd_account (tr_buyer t)
        (\<lambda>a. a\<lparr>ac_reserved := (if rb then ac_reserved buyer - bo_price bo * tr_qty t else ac_reserved buyer),
               ac_open_buy := (if rb then ac_open_buy buyer - tr_qty t else ac_open_buy buyer),
               ac_cash := ac_cash buyer - tr_price t * tr_qty t,
               ac_position := ac_position buyer + tr_qty t\<rparr>)
        (e\<lparr>e_ledger := l\<rparr>))"
    and ints: "ival (ac_position seller - tr_qty t) = ival (ac_position seller) - ival (tr_qty t)"
      "ival (ac_position buyer + tr_qty t) = ival (ac_position buyer) + ival (tr_qty t)"
      "ival (ac_cash seller + tr_price t * tr_qty t) = ival (ac_cash seller) + ival (tr_price t * tr_qty t)"
      "ival (ac_cash buyer + - (tr_price t * tr_qty t)) = ival (ac_cash buyer) + ival (- (tr_price t * tr_qty t))"
      "ival (tr_price t * tr_qty t) = ival (tr_price t) * ival (tr_qty t)"
  have "0 < ival (tr_price t * tr_qty t)" using pos ints(5) by simp
  then have "ival (- (tr_price t * tr_qty t)) = - ival (tr_price t * tr_qty t)"
    using ival_range [of "tr_price t * tr_qty t"] by (intro ival_neg) (simp add: fits_def)
  then have "ival (ac_cash buyer - tr_price t * tr_qty t) =
      ival (ac_cash buyer) - ival (tr_price t) * ival (tr_qty t)"
    using ints(4,5) by simp
  then show ?thesis using b s ne a ints(1-3,5) by (auto simp: e')
qed

lemma sum_transfer:
  fixes f g :: "'a \<Rightarrow> int"
  assumes "finite A" and "b \<in> A" and "s \<in> A"
    and "\<And>i. i \<in> A \<Longrightarrow> g i = f i + (if i = s then n else 0) - (if i = b then n else 0)"
  shows "sum g A = sum f A"
proof -
  have "sum g A = (\<Sum>i \<in> A. f i + (if i = s then n else 0) - (if i = b then n else 0))"
    using assms(4) by (intro sum.cong) auto
  also have "\<dots> = sum f A"
    using assms(1-3) by (simp add: sum.distrib sum_subtractf)
  finally show ?thesis .
qed

lemma apply_trade_totals:
  assumes r: "apply_trade e t bo so = Inr e'" and ne: "tr_buyer t \<noteq> tr_seller t"
    and pos: "0 < ival (tr_price t)" "0 < ival (tr_qty t)"
  shows "total_cash e' = total_cash e" and "total_position e' = total_position e"
proof -
  note dom = apply_trade_account(1) [OF r ne]
  have in_dom: "tr_buyer t \<in> fset (fmdom (e_accounts e))" "tr_seller t \<in> fset (fmdom (e_accounts e))"
    using r by (auto elim!: apply_trade_Inr intro: fmdomI)
  have each: "\<exists>a. fmlookup (e_accounts e) i = Some a" if "i \<in> fset (fmdom (e_accounts e))" for i
    using that by (auto simp: fmlookup_dom_iff)
  show "total_cash e' = total_cash e"
    unfolding total_cash_def dom
    by (rule sum_transfer [OF _ in_dom, where n = "ival (tr_price t) * ival (tr_qty t)"])
      (use each apply_trade_ints [OF r ne pos] in fastforce)+
  show "total_position e' = total_position e"
    unfolding total_position_def dom
    by (rule sum_transfer [OF _ in_dom(2,1), where n = "ival (tr_qty t)"])
      (use each apply_trade_ints [OF r ne pos] in fastforce)+
qed

subsection \<open>Well-formed engines\<close>

definition owners_known :: "engine \<Rightarrow> bool" where
  "owners_known e \<longleftrightarrow> (\<forall>x \<in> set (live (e_book e)). bo_owner x |\<in>| fmdom (e_accounts e))"

definition accounts_ok :: "engine \<Rightarrow> bool" where
  "accounts_ok e \<longleftrightarrow> player_account |\<in>| fmdom (e_accounts e) \<and> flow_account |\<in>| fmdom (e_accounts e) \<and>
     (\<forall>i a. fmlookup (e_accounts e) i = Some a \<longrightarrow> ac_id a = i \<and> (ac_external a \<longleftrightarrow> i = flow_account))"

definition wf :: "engine \<Rightarrow> bool" where
  "wf e \<longleftrightarrow> validate_config (e_cfg e) = Inr () \<and> 0 < ival (e_mark e) \<and> accounts_ok e \<and>
     book_inv (e_book e) \<and> uncrossed (live (e_book e)) \<and> owners_known e \<and>
     ledger_inv (e_ledger e) \<and> projection e"

text \<open>The invariant depends only on these parts of the state.\<close>

definition same_core :: "engine \<Rightarrow> engine \<Rightarrow> bool" where
  "same_core e e' \<longleftrightarrow> e_cfg e' = e_cfg e \<and> e_accounts e' = e_accounts e \<and> e_book e' = e_book e \<and>
     e_ledger e' = e_ledger e"

lemma wf_frame: "wf e \<Longrightarrow> same_core e e' \<Longrightarrow> 0 < ival (e_mark e') \<Longrightarrow> wf e'"
  by (simp add: wf_def same_core_def accounts_ok_def owners_known_def projection_def)

lemma player_not_flow [simp]: "player_account \<noteq> flow_account" "flow_account \<noteq> player_account"
  by (simp_all add: player_account_def flow_account_def)

lemma wf_player:
  assumes "wf e"
  obtains a where "fmlookup (e_accounts e) player_account = Some a" "\<not> ac_external a"
proof -
  obtain a where a: "fmlookup (e_accounts e) player_account = Some a"
    using assms unfolding wf_def accounts_ok_def by (metis fmlookup_dom_iff)
  moreover from this have "\<not> ac_external a" using assms by (auto simp: wf_def accounts_ok_def)
  ultimately show thesis by (rule that)
qed

lemma apply_trade_ledger:
  assumes "apply_trade e t bo so = Inr e'" and "ledger_inv (e_ledger e)"
  shows "ledger_inv (e_ledger e')"
  using assms by (auto elim!: apply_trade_Inr dest: ledger_inv_append)

lemma apply_trade_wf:
  assumes r: "apply_trade e t bo so = Inr e'" and ne: "tr_buyer t \<noteq> tr_seller t" and wf: "wf e"
  shows "wf e'"
proof -
  note acc = apply_trade_account [OF r ne]
  have "accounts_ok e'"
    unfolding accounts_ok_def acc(1)
  proof (intro conjI allI impI)
    show "player_account |\<in>| fmdom (e_accounts e)" "flow_account |\<in>| fmdom (e_accounts e)"
      using wf by (simp_all add: wf_def accounts_ok_def)
    fix i a assume a: "fmlookup (e_accounts e') i = Some a"
    then have "i |\<in>| fmdom (e_accounts e)" using acc(1) by (metis fmdomI)
    then obtain a0 where a0: "fmlookup (e_accounts e) i = Some a0" by (auto simp: fmlookup_dom_iff)
    then have "ac_external a = ac_external a0" "ac_id a = ac_id a0" using acc(6) [OF a0] a by auto
    then show "ac_id a = i" "ac_external a = (i = flow_account)"
      using wf a0 by (auto simp: wf_def accounts_ok_def)
  qed
  then show ?thesis
    using wf acc apply_trade_projection [OF r ne] apply_trade_ledger [OF r]
    by (simp add: wf_def owners_known_def)
qed

lemma apply_fills_owners:
  "x \<in> set (apply_fills fs L) \<Longrightarrow> \<exists>y \<in> set L. bo_owner x = bo_owner y"
  using apply_fills_shrinks by blast

text \<open>A submission to a well-formed engine's book: its fills settle between known accounts and the
  book it leaves is well-formed again.\<close>

lemma submit_book_wf:
  assumes wf: "wf e" and r: "submit_public (e_book e) bo policy = Inr (b, rp)"
    and owner: "bo_owner bo |\<in>| fmdom (e_accounts e)"
  shows "wf (e\<lparr>e_book := b\<rparr>)" and "\<forall>f \<in> set (rp_fills rp). fill_ok (fmdom (e_accounts e)) f"
proof -
  have inv: "book_inv (e_book e)" "uncrossed (live (e_book e))" using wf by (simp_all add: wf_def)
  have known: "bo_owner x |\<in>| fmdom (e_accounts e)" if "x \<in> set (live (e_book e))" for x
    using wf that unfolding wf_def owners_known_def by blast
  obtain fs t' where sw: "sweep (prio (live (e_book e)) (taker_of bo)) (taker_of bo) = (fs, t')"
    and pos: "\<forall>m \<in> set (prio (live (e_book e)) (taker_of bo)). 0 < ival (bo_rem m)"
    and q0: "0 < ival (bo_rem (taker_of bo))"
    and v: "live b = (if rp_resting rp = None then apply_fills fs (live (e_book e))
      else apply_fills fs (live (e_book e)) @ [t'])"
    by (rule ob.submit_sweep [OF inv(1) r])
  have t': "bo_owner t' = bo_owner bo" using sweep_taker(1) [OF sw pos] q0 by (auto simp: taker_of_def)
  have "bo_owner x |\<in>| fmdom (e_accounts e)" if "x \<in> set (live b)" for x
    using that v t' owner known apply_fills_owners [of x fs "live (e_book e)"]
    by (auto split: if_splits)
  then show "wf (e\<lparr>e_book := b\<rparr>)"
    using wf ob.step_good(1) [OF conjI [OF inv] r]
    by (simp add: wf_def accounts_ok_def owners_known_def projection_def)
  show "\<forall>f \<in> set (rp_fills rp). fill_ok (fmdom (e_accounts e)) f"
  proof
    fix f assume "f \<in> set (rp_fills rp)"
    note f = ob.fills_between_owners [OF inv(1) r this]
    have "0 < ival (bo_price (fl_maker f))"
      by (rule order_ok_price [OF list_okD(5) [OF book_inv_list_ok [OF inv(1)] f(1)]])
    then show "fill_ok (fmdom (e_accounts e)) f" using f known owner by (simp add: fill_ok_def)
  qed
qed

lemma settle_wf:
  assumes wf: "wf e" and r: "settle_report e rp = Inr (e', ts)"
    and ok: "\<forall>f \<in> set (rp_fills rp). fill_ok (fmdom (e_accounts e)) f"
  shows "wf e'" and "settled e e' ts" and "total_cash e' = total_cash e"
    and "total_position e' = total_position e" and "list_all (\<lambda>t. tr_informed t = False) ts"
proof -
  note fold = settle_report_Inr [OF r]
  show "wf e'"
  proof (rule settle_report_rule [OF fold ok, where P = "\<lambda>e ts. wf e"])
    show "wf (c\<lparr>e_next_trade := n\<rparr>)" if "wf c" for c n
      using that by (intro wf_frame [OF that]) (simp_all add: same_core_def wf_def)
  qed (use wf apply_trade_wf in blast)+
  show "settled e e' ts" by (rule settle_settled [OF fold ok])
  have "total_cash e' = total_cash e \<and> total_position e' = total_position e"
    by (rule settle_report_rule [OF fold ok, where P = "\<lambda>c ts. total_cash c = total_cash e \<and>
        total_position c = total_position e"])
      (auto simp: apply_trade_totals, simp_all add: total_cash_def total_position_def)
  then show "total_cash e' = total_cash e" "total_position e' = total_position e" by simp_all
  show "list_all (\<lambda>t. tr_informed t = False) ts"
    by (rule settle_report_rule [OF fold ok, where P = "\<lambda>c ts. list_all (\<lambda>t. tr_informed t = False) ts"])
      auto
qed

end
