(* ===== verification/Exchange_Reserve.thy ===== *)
theory Exchange_Reserve
  imports Exchange_Inv
begin

text \<open>
  Reservations, storage charges and openings keep the engine well-formed, and after
  \<open>reconcile_reservations\<close> every account's reserved cash and open quantities are the exact sums
  over its live orders.
\<close>

subsection \<open>What the book reserves\<close>

definition want_cash :: "book_order list \<Rightarrow> string \<Rightarrow> int" where
  "want_cash L i = sum_list (map (\<lambda>x. ival (bo_price x) * ival (bo_rem x))
     (filter (\<lambda>x. bo_owner x = i \<and> bo_side x = Buy) L))"

definition want_buy :: "book_order list \<Rightarrow> string \<Rightarrow> int" where
  "want_buy L i = sum_list (map (\<lambda>x. ival (bo_rem x)) (filter (\<lambda>x. bo_owner x = i \<and> bo_side x = Buy) L))"

definition want_sell :: "book_order list \<Rightarrow> string \<Rightarrow> int" where
  "want_sell L i = sum_list (map (\<lambda>x. ival (bo_rem x)) (filter (\<lambda>x. bo_owner x = i \<and> bo_side x \<noteq> Buy) L))"

definition reserves :: "engine \<Rightarrow> string \<Rightarrow> bool" where
  "reserves e i \<longleftrightarrow> (\<exists>a. fmlookup (e_accounts e) i = Some a \<and> \<not> ac_external a)"

definition reserved_ok :: "engine \<Rightarrow> bool" where
  "reserved_ok e \<longleftrightarrow> (\<forall>i a. fmlookup (e_accounts e) i = Some a \<longrightarrow> \<not> ac_external a \<longrightarrow>
     ival (ac_reserved a) = want_cash (live (e_book e)) i \<and>
     ival (ac_open_buy a) = want_buy (live (e_book e)) i \<and>
     ival (ac_open_sell a) = want_sell (live (e_book e)) i)"

lemma want_Cons:
  "want_cash (x # L) i = (if bo_owner x = i \<and> bo_side x = Buy then ival (bo_price x) * ival (bo_rem x) else 0) +
     want_cash L i"
  "want_buy (x # L) i = (if bo_owner x = i \<and> bo_side x = Buy then ival (bo_rem x) else 0) + want_buy L i"
  "want_sell (x # L) i = (if bo_owner x = i \<and> bo_side x \<noteq> Buy then ival (bo_rem x) else 0) + want_sell L i"
  by (simp_all add: want_cash_def want_buy_def want_sell_def)

lemma desired_for_upd [simp]: "desired_for (fmupd k r d) i = (if i = k then r else desired_for d i)"
  by (simp add: desired_for_def)

lemma reserve_order_Inr:
  assumes "reserve_order e d x = Inr d'"
  shows "ival (rv_cash (desired_for d' i)) = ival (rv_cash (desired_for d i)) +
      (if reserves e i then want_cash [x] i else 0) \<and>
    ival (rv_buy (desired_for d' i)) = ival (rv_buy (desired_for d i)) +
      (if reserves e i then want_buy [x] i else 0) \<and>
    ival (rv_sell (desired_for d' i)) = ival (rv_sell (desired_for d i)) +
      (if reserves e i then want_sell [x] i else 0)"
proof -
  from assms obtain a where a: "fmlookup (e_accounts e) (bo_owner x) = Some a"
    by (auto simp: reserve_order_def split: option.splits)
  show ?thesis
  proof (cases "ac_external a")
    case True
    then show ?thesis
      using assms a
      by (auto simp: reserve_order_def reserves_def want_cash_def want_buy_def want_sell_def)
  next
    case False
    note r = assms [unfolded reserve_order_def a option.case Let_def if_not_P [OF False]]
    have res: "reserves e (bo_owner x)" using a False by (simp add: reserves_def)
    show ?thesis
    proof (cases "bo_side x = Buy")
      case True
      with r obtain n c q where "notional (bo_price x) (bo_rem x) = Inr n"
        "add_money (rv_cash (desired_for d (bo_owner x))) n = Inr c"
        "add_qty (rv_buy (desired_for d (bo_owner x))) (bo_rem x) = Inr q"
        and d': "d' = fmupd (bo_owner x) ((desired_for d (bo_owner x))\<lparr>rv_cash := c, rv_buy := q\<rparr>) d"
        by auto
      then have "ival c = ival (rv_cash (desired_for d (bo_owner x))) + ival (bo_price x) * ival (bo_rem x)"
        "ival q = ival (rv_buy (desired_for d (bo_owner x))) + ival (bo_rem x)"
        using exactly_InrD [OF notional_exact] exactly_InrD [OF add_money_exact]
          exactly_InrD [OF add_qty_exact] by auto
      then show ?thesis
        using True res d' by (auto simp: want_cash_def want_buy_def want_sell_def)
    next
      case False
      with r obtain q where
        "add_qty (rv_sell (desired_for d (bo_owner x))) (bo_rem x) = Inr q"
        and d': "d' = fmupd (bo_owner x) ((desired_for d (bo_owner x))\<lparr>rv_sell := q\<rparr>) d"
        by auto
      then have "ival q = ival (rv_sell (desired_for d (bo_owner x))) + ival (bo_rem x)"
        using exactly_InrD [OF add_qty_exact] by auto
      then show ?thesis
        using False res d' by (auto simp: want_cash_def want_buy_def want_sell_def)
    qed
  qed
qed

lemma reserve_fold_Inr:
  assumes "foldE (reserve_order e) d L = Inr d'"
  shows "ival (rv_cash (desired_for d' i)) = ival (rv_cash (desired_for d i)) +
      (if reserves e i then want_cash L i else 0) \<and>
    ival (rv_buy (desired_for d' i)) = ival (rv_buy (desired_for d i)) +
      (if reserves e i then want_buy L i else 0) \<and>
    ival (rv_sell (desired_for d' i)) = ival (rv_sell (desired_for d i)) +
      (if reserves e i then want_sell L i else 0)"
  using assms
proof (induction L arbitrary: d)
  case Nil
  then show ?case by (simp add: want_cash_def want_buy_def want_sell_def)
next
  case (Cons x L)
  then obtain d1 where one: "reserve_order e d x = Inr d1" and rest: "foldE (reserve_order e) d1 L = Inr d'"
    by auto
  show ?case
    using Cons.IH [OF rest] reserve_order_Inr [OF one, of i]
    by (simp add: want_Cons(1) [of x L] want_Cons(2) [of x L] want_Cons(3) [of x L]
        want_Cons(1) [of x "[]"] want_Cons(2) [of x "[]"] want_Cons(3) [of x "[]"]
        want_cash_def [of "[]"] want_buy_def [of "[]"] want_sell_def [of "[]"])
qed

subsection \<open>The reservation entry\<close>

definition cash_delta :: "engine \<Rightarrow> (string, reservation) fmap \<Rightarrow> string \<Rightarrow> money" where
  "cash_delta e d i = (case fmlookup (e_accounts e) i of None \<Rightarrow> 0
     | Some a \<Rightarrow> if ac_external a then 0 else rv_cash (desired_for d i) - ac_reserved a)"

definition sell_delta :: "engine \<Rightarrow> (string, reservation) fmap \<Rightarrow> string \<Rightarrow> qty" where
  "sell_delta e d i = (case fmlookup (e_accounts e) i of None \<Rightarrow> 0
     | Some a \<Rightarrow> if ac_external a then 0 else rv_sell (desired_for d i) - ac_open_sell a)"

lemma reserve_postings_Inr:
  assumes "reserve_postings e d ps i = Inr ps'"
  shows "posted ps_money ps' (cash_available j) =
      posted ps_money ps (cash_available j) - (if i = j then cash_delta e d j else 0) \<and>
    posted ps_money ps' (cash_reserved j) =
      posted ps_money ps (cash_reserved j) + (if i = j then cash_delta e d j else 0) \<and>
    posted ps_instrument ps' (instrument_available j) =
      posted ps_instrument ps (instrument_available j) - (if i = j then sell_delta e d j else 0) \<and>
    posted ps_instrument ps' (instrument_reserved j) =
      posted ps_instrument ps (instrument_reserved j) + (if i = j then sell_delta e d j else 0)"
  using assms
  by (auto simp: reserve_postings_def cash_delta_def sell_delta_def Let_def dest!: checked_eq
      split: option.splits if_splits)

lemma reserve_postings_fold:
  assumes "foldE (reserve_postings e d) ps ids = Inr ps'" and "distinct ids"
  shows "posted ps_money ps' (cash_available j) =
      posted ps_money ps (cash_available j) - (if j \<in> set ids then cash_delta e d j else 0) \<and>
    posted ps_money ps' (cash_reserved j) =
      posted ps_money ps (cash_reserved j) + (if j \<in> set ids then cash_delta e d j else 0) \<and>
    posted ps_instrument ps' (instrument_available j) =
      posted ps_instrument ps (instrument_available j) - (if j \<in> set ids then sell_delta e d j else 0) \<and>
    posted ps_instrument ps' (instrument_reserved j) =
      posted ps_instrument ps (instrument_reserved j) + (if j \<in> set ids then sell_delta e d j else 0)"
  using assms
proof (induction ids arbitrary: ps)
  case (Cons i ids)
  then obtain ps1 where one: "reserve_postings e d ps i = Inr ps1"
    and rest: "foldE (reserve_postings e d) ps1 ids = Inr ps'" and d: "i \<notin> set ids" "distinct ids"
    by auto
  show ?case
    using Cons.IH [OF rest d(2)] reserve_postings_Inr [OF one, of j] d(1) by auto
qed simp

lemma reconcile_Inr:
  assumes "reconcile_reservations e = Inr e'"
  obtains d l where
    "foldE (reserve_order e) fmempty (live (e_book e)) = Inr d"
    "e' = e\<lparr>e_ledger := l, e_accounts := fmmap_keys (set_reservations d) (e_accounts e)\<rparr>"
    "ledger_inv (e_ledger e) \<Longrightarrow> ledger_inv l"
    "\<And>j. cash_bal l (cash_available j) = cash_bal (e_ledger e) (cash_available j) - cash_delta e d j"
    "\<And>j. cash_bal l (cash_reserved j) = cash_bal (e_ledger e) (cash_reserved j) + cash_delta e d j"
    "\<And>j. inst_bal l (instrument_available j) = inst_bal (e_ledger e) (instrument_available j) - sell_delta e d j"
    "\<And>j. inst_bal l (instrument_reserved j) = inst_bal (e_ledger e) (instrument_reserved j) + sell_delta e d j"
proof -
  from assms obtain d ps l where
    d: "foldE (reserve_order e) fmempty (live (e_book e)) = Inr d"
    and ps: "foldE (reserve_postings e d) [] (sorted_list_of_fset (fmdom (e_accounts e))) = Inr ps"
    and l: "(if ps \<noteq> [] then ledger_append (e_ledger e)
        [\<lparr>le_id = 0, le_type = ''order_reservation_updated'', le_ref = no_ref, le_postings = ps\<rparr>]
      else Inr (e_ledger e)) = Inr l"
    and e': "e' = e\<lparr>e_ledger := l, e_accounts := fmmap_keys (set_reservations d) (e_accounts e)\<rparr>"
    by (auto simp: reconcile_reservations_def live_def)
  have dist: "distinct (sorted_list_of_fset (fmdom (e_accounts e)))"
    by (simp add: sorted_list_of_fset.rep_eq)
  have zero: "cash_delta e d j = 0 \<and> sell_delta e d j = 0"
    if "j \<notin> set (sorted_list_of_fset (fmdom (e_accounts e)))" for j
    using that by (simp add: sorted_list_of_fset.rep_eq fmdom_notD cash_delta_def sell_delta_def)
  have posts: "posted ps_money ps (cash_available j) = - cash_delta e d j"
    "posted ps_money ps (cash_reserved j) = cash_delta e d j"
    "posted ps_instrument ps (instrument_available j) = - sell_delta e d j"
    "posted ps_instrument ps (instrument_reserved j) = sell_delta e d j" for j
    using reserve_postings_fold [OF ps dist, of j] zero [of j] by (auto split: if_splits)
  show thesis
  proof (rule that [OF d e'])
    show "ledger_inv l" if "ledger_inv (e_ledger e)"
      using l that by (auto dest: ledger_inv_append split: if_splits)
    have "cash_bal l a = cash_bal (e_ledger e) a + posted ps_money ps a \<and>
        inst_bal l a = inst_bal (e_ledger e) a + posted ps_instrument ps a" for a
      using l append_bal by (cases "ps = []") auto
    then show "cash_bal l (cash_available j) = cash_bal (e_ledger e) (cash_available j) - cash_delta e d j"
      "cash_bal l (cash_reserved j) = cash_bal (e_ledger e) (cash_reserved j) + cash_delta e d j"
      "inst_bal l (instrument_available j) = inst_bal (e_ledger e) (instrument_available j) - sell_delta e d j"
      "inst_bal l (instrument_reserved j) = inst_bal (e_ledger e) (instrument_reserved j) + sell_delta e d j" for j
      by (simp_all add: posts)
  qed
qed

lemma set_reservations_sel [simp]:
  "ac_id (set_reservations d i a) = ac_id a" "ac_external (set_reservations d i a) = ac_external a"
  "ac_cash (set_reservations d i a) = ac_cash a" "ac_position (set_reservations d i a) = ac_position a"
  by (simp_all add: set_reservations_def)

text \<open>Reconciling keeps cash and positions, the book and everything else, and makes the
  reservations exact.\<close>

lemma reconcile_keeps:
  assumes r: "reconcile_reservations e = Inr e'"
  shows "e_book e' = e_book e" "e_cfg e' = e_cfg e" "e_mark e' = e_mark e" "e_over e' = e_over e"
    and "fmdom (e_accounts e') = fmdom (e_accounts e)"
    and "fmlookup (e_accounts e) i = Some a \<Longrightarrow> \<exists>a'. fmlookup (e_accounts e') i = Some a' \<and>
      ac_cash a' = ac_cash a \<and> ac_position a' = ac_position a \<and> ac_id a' = ac_id a \<and>
      ac_external a' = ac_external a"
  using r by (auto elim!: reconcile_Inr simp: fmdom_fmmap_keys)

lemma reconcile_reserved_ok:
  assumes "reconcile_reservations e = Inr e'"
  shows "reserved_ok e'"
  using assms
proof (rule reconcile_Inr)
  fix d l
  assume d: "foldE (reserve_order e) fmempty (live (e_book e)) = Inr d"
    and e': "e' = e\<lparr>e_ledger := l, e_accounts := fmmap_keys (set_reservations d) (e_accounts e)\<rparr>"
  show "reserved_ok e'"
    unfolding reserved_ok_def
  proof (intro allI impI)
    fix i a assume a: "fmlookup (e_accounts e') i = Some a" and ext: "\<not> ac_external a"
    then obtain b where b: "fmlookup (e_accounts e) i = Some b" "a = set_reservations d i b"
      by (auto simp: e')
    then have extb: "\<not> ac_external b" using ext by simp
    then have "reserves e i" using b by (auto simp: reserves_def)
    moreover have "desired_for fmempty i = no_reservation" by (simp add: desired_for_def)
    ultimately show "ival (ac_reserved a) = want_cash (live (e_book e')) i \<and>
        ival (ac_open_buy a) = want_buy (live (e_book e')) i \<and>
        ival (ac_open_sell a) = want_sell (live (e_book e')) i"
      using reserve_fold_Inr [OF d, of i] b extb
      by (simp add: e' set_reservations_def no_reservation_def)
  qed
qed

lemma reconcile_wf:
  assumes r: "reconcile_reservations e = Inr e'" and wf: "wf e"
  shows "wf e'"
  using r
proof (rule reconcile_Inr)
  fix d l
  assume e': "e' = e\<lparr>e_ledger := l, e_accounts := fmmap_keys (set_reservations d) (e_accounts e)\<rparr>"
    and inv: "ledger_inv (e_ledger e) \<Longrightarrow> ledger_inv l"
    and bal: "\<And>j. cash_bal l (cash_available j) = cash_bal (e_ledger e) (cash_available j) - cash_delta e d j"
      "\<And>j. cash_bal l (cash_reserved j) = cash_bal (e_ledger e) (cash_reserved j) + cash_delta e d j"
      "\<And>j. inst_bal l (instrument_available j) = inst_bal (e_ledger e) (instrument_available j) - sell_delta e d j"
      "\<And>j. inst_bal l (instrument_reserved j) = inst_bal (e_ledger e) (instrument_reserved j) + sell_delta e d j"
  have "projects l i (fmlookup (e_accounts e') i)" for i
  proof -
    have "projects (e_ledger e) i (fmlookup (e_accounts e) i)"
      using wf by (simp add: wf_def projection_def)
    then show ?thesis
      by (cases "fmlookup (e_accounts e) i")
        (auto simp: e' projects_def bal cash_delta_def sell_delta_def set_reservations_def)
  qed
  then have "projection e'" by (simp add: projection_def e')
  moreover have "accounts_ok e'"
    using wf by (auto simp: wf_def accounts_ok_def e' fmdom_fmmap_keys)
  ultimately show "wf e'"
    using wf inv by (simp add: wf_def e' owners_known_def fmdom_fmmap_keys)
qed

subsection \<open>Storage charges and openings\<close>

lemma charge_storage_Inr:
  assumes "charge_storage e i rate = Inr (e', storage, evs)" and rate: "0 \<le> ival rate"
  obtains a l where "fmlookup (e_accounts e) i = Some a"
    and "storage = rate * (if ac_position a < 0 then - ac_position a else ac_position a)"
    and "ledger_inv (e_ledger e) \<longrightarrow> ledger_inv l"
    and "\<forall>x. cash_bal l x = cash_bal (e_ledger e) x +
      (if x = cash_available i then - storage else 0) + (if x = storage_account then storage else 0)"
    and "\<forall>x. inst_bal l x = inst_bal (e_ledger e) x"
    and "e_accounts e' = fmupd i (a\<lparr>ac_cash := ac_cash a - storage\<rparr>) (e_accounts e)"
    and "e_ledger e' = l" "e_book e' = e_book e" "e_cfg e' = e_cfg e" "e_mark e' = e_mark e"
      "e_over e' = e_over e"
proof -
  from assms obtain a pa st l cash where
    a: "fmlookup (e_accounts e) i = Some a" and pa: "abs_qty_checked (ac_position a) = Inr pa"
    and st: "notional rate pa = Inr st"
    and l: "(if st > 0 then ledger_append (e_ledger e)
         [\<lparr>le_id = 0, le_type = ''storage_charged'', le_ref = no_ref,
           le_postings = [cash_posting (cash_available i) (- st), cash_posting storage_account st]\<rparr>]
       else Inr (e_ledger e)) = Inr l"
    and cash: "add_money (ac_cash a) (- st) = Inr cash"
    using assms(1) by (auto simp: charge_storage_def)
  note rest = assms(1) [unfolded charge_storage_def get_account_def a pa st cash bindE_simps
      option.case l]
  have ipa: "0 \<le> ival pa" using exactly_InrD [OF abs_qty_exact pa] by simp
  then have ist: "0 \<le> ival st" using exactly_InrD [OF notional_exact st] rate by simp
  have storage: "storage = st"
    using rest by (auto simp: Let_def emit_def split: if_splits)
  have e': "e_accounts e' = fmupd i (a\<lparr>ac_cash := ac_cash a - storage\<rparr>) (e_accounts e)"
    "e_ledger e' = l" "e_book e' = e_book e" "e_cfg e' = e_cfg e" "e_mark e' = e_mark e"
    "e_over e' = e_over e"
    using rest a checked_eq(1) [OF cash] storage
    by (auto simp: Let_def emit_def upd_account_def split: if_splits)
  have pa_eq: "pa = (if ac_position a < 0 then - ac_position a else ac_position a)"
    using pa by (auto simp: abs_qty_checked_def split: if_splits dest: checked_eq(6))
  have bal: "cash_bal l x = cash_bal (e_ledger e) x +
      (if x = cash_available i then - storage else 0) + (if x = storage_account then storage else 0)"
    "inst_bal l x = inst_bal (e_ledger e) x" for x
  proof -
    have "cash_bal l x = cash_bal (e_ledger e) x +
      (if x = cash_available i then - storage else 0) + (if x = storage_account then storage else 0) \<and>
      inst_bal l x = inst_bal (e_ledger e) x"
    proof (cases "st > 0")
      case True
      then show ?thesis using l storage by (auto simp: append_bal)
    next
      case False
      then have "st = 0" using ist by (simp add: i64_order ival_inject [symmetric])
      then show ?thesis using l storage by simp
    qed
    then show "cash_bal l x = cash_bal (e_ledger e) x +
      (if x = cash_available i then - storage else 0) + (if x = storage_account then storage else 0)"
      "inst_bal l x = inst_bal (e_ledger e) x" by simp_all
  qed
  have inv: "ledger_inv l" if "ledger_inv (e_ledger e)"
    using l that by (auto dest: ledger_inv_append split: if_splits)
  show thesis
    by (rule that [OF a _ _ _ _ e'])
      (use checked_eq(7) [OF st] pa_eq storage inv bal in auto)
qed

lemma charge_storage_wf:
  assumes r: "charge_storage e i rate = Inr (e', storage, evs)" and rate: "0 \<le> ival rate" and wf: "wf e"
  shows "wf e'" and "reserved_ok e \<Longrightarrow> reserved_ok e'"
proof -
  obtain a l where a: "fmlookup (e_accounts e) i = Some a"
    and "storage = rate * (if ac_position a < 0 then - ac_position a else ac_position a)"
    and inv: "ledger_inv (e_ledger e) \<longrightarrow> ledger_inv l"
    and bal: "\<forall>x. cash_bal l x = cash_bal (e_ledger e) x +
      (if x = cash_available i then - storage else 0) + (if x = storage_account then storage else 0)"
      "\<forall>x. inst_bal l x = inst_bal (e_ledger e) x"
    and e': "e_accounts e' = fmupd i (a\<lparr>ac_cash := ac_cash a - storage\<rparr>) (e_accounts e)"
      "e_ledger e' = l" "e_book e' = e_book e" "e_cfg e' = e_cfg e" "e_mark e' = e_mark e"
      "e_over e' = e_over e"
    by (rule charge_storage_Inr [OF r rate])
  have "projects l j (fmlookup (e_accounts e') j)" for j
  proof -
    have "projects (e_ledger e) j (fmlookup (e_accounts e) j)"
      using wf by (simp add: wf_def projection_def)
    then show ?thesis
      using a by (cases "j = i"; cases "fmlookup (e_accounts e) j")
        (simp_all add: projects_def bal e')
  qed
  moreover have "fmdom (e_accounts e') = fmdom (e_accounts e)"
    using a by (simp add: e' finsert_absorb fmdomI)
  moreover have "accounts_ok e'"
    using wf a calculation(2) unfolding wf_def accounts_ok_def
    by (auto simp: e' split: if_splits)
  ultimately show "wf e'"
    using wf inv by (simp add: wf_def e' owners_known_def projection_def)
  show "reserved_ok e'" if "reserved_ok e"
    using that a by (auto simp: reserved_ok_def e')
qed

lemma opening_bal:
  assumes "post_opening e i cash position = Inr e'"
  shows "same_core (e\<lparr>e_ledger := e_ledger e'\<rparr>) e'"
    and "ledger_inv (e_ledger e) \<Longrightarrow> ledger_inv (e_ledger e')"
    and "cash_bal (e_ledger e') (cash_available j) =
      cash_bal (e_ledger e) (cash_available j) + (if j = i then cash else 0)"
    and "cash_bal (e_ledger e') (cash_reserved j) = cash_bal (e_ledger e) (cash_reserved j)"
    and "inst_bal (e_ledger e') (instrument_available j) =
      inst_bal (e_ledger e) (instrument_available j) + (if j = i then position else 0)"
    and "inst_bal (e_ledger e') (instrument_reserved j) = inst_bal (e_ledger e) (instrument_reserved j)"
    and "e_mark e' = e_mark e" "e_over e' = e_over e"
  using assms
  by (auto simp: post_opening_def same_core_def append_bal dest: ledger_inv_append)

lemma want_unknown:
  assumes "owners_known e" and "i |\<notin>| fmdom (e_accounts e)"
  shows "want_cash (live (e_book e)) i = 0" "want_buy (live (e_book e)) i = 0"
    "want_sell (live (e_book e)) i = 0"
proof -
  have "bo_owner x \<noteq> i" if "x \<in> set (live (e_book e))" for x
    using assms that unfolding owners_known_def by blast
  then show "want_cash (live (e_book e)) i = 0" "want_buy (live (e_book e)) i = 0"
    "want_sell (live (e_book e)) i = 0"
    unfolding want_cash_def want_buy_def want_sell_def
    by (simp_all add: filter_False)
qed

lemma add_account_wf:
  assumes r: "add_account e i cash position = Inr e'" and wf: "wf e"
  shows "wf e'" and "reserved_ok e \<Longrightarrow> reserved_ok e'"
proof -
  let ?e1 = "e\<lparr>e_accounts := fmupd i (new_account i cash position) (e_accounts e)\<rparr>"
  from r have fresh: "i \<noteq> flow_account" "fmlookup (e_accounts e) i = None"
    and p: "post_opening ?e1 i cash position = Inr e'"
    by (auto simp: add_account_def Let_def)
  note o = opening_bal [OF p]
  have core: "e_accounts e' = fmupd i (new_account i cash position) (e_accounts e)"
    "e_book e' = e_book e" "e_cfg e' = e_cfg e"
    using o(1) by (simp_all add: same_core_def)
  have "projects (e_ledger e') j (fmlookup (e_accounts e') j)" for j
  proof -
    have "projects (e_ledger e) j (fmlookup (e_accounts e) j)"
      using wf by (simp add: wf_def projection_def)
    then show ?thesis
      using fresh(2) o(3-6) by (cases "j = i"; cases "fmlookup (e_accounts e) j")
        (simp_all add: projects_def core new_account_def)
  qed
  moreover have "accounts_ok e'"
    using wf fresh unfolding wf_def accounts_ok_def
    by (auto simp: core new_account_def split: if_splits)
  moreover have "owners_known e'"
    using wf by (auto simp: wf_def owners_known_def core)
  ultimately show "wf e'"
    using wf o(2,7) by (simp add: wf_def core projection_def)
  show "reserved_ok e'" if "reserved_ok e"
  proof -
    have "i |\<notin>| fmdom (e_accounts e)" using fresh(2) by (simp add: fmdom_notI)
    then show ?thesis
      using that want_unknown [of e i] wf
      by (auto simp: reserved_ok_def core new_account_def wf_def split: if_splits)
  qed
qed

end
