(* ===== verification/Steps.thy ===== *)
theory Steps
  imports Prelude
begin

text \<open>
  Postconditions of fallible steps. \<open>gives R m\<close>: the computation \<open>m\<close> does not panic, and if it
  succeeds its result satisfies \<open>R\<close>. The rules follow the syntax of a step, so that a proof about an
  operation walks through its body.
\<close>

definition gives :: "('a \<Rightarrow> bool) \<Rightarrow> 'a res \<Rightarrow> bool" where
  "gives R m \<longleftrightarrow> (case m of Inl err \<Rightarrow> \<not> is_panic err | Inr x \<Rightarrow> R x)"

abbreviation safe :: "'a res \<Rightarrow> bool" where
  "safe m \<equiv> gives (\<lambda>_. True) m"

lemma gives_simps [simp]: "gives R (Inr x) = R x" "gives R (fails msg)" "gives R (Inl err) \<longleftrightarrow> \<not> is_panic err"
  by (simp_all add: gives_def fails_def)

lemma gives_Inr: "gives R m \<Longrightarrow> m = Inr x \<Longrightarrow> R x"
  by (simp add: gives_def)

lemma gives_Inl: "gives R m \<Longrightarrow> m = Inl err \<Longrightarrow> \<not> is_panic err"
  by (simp add: gives_def)

lemma gives_iff: "gives R m \<longleftrightarrow> safe m \<and> (\<forall>x. m = Inr x \<longrightarrow> R x)"
  by (cases m) simp_all

lemma gives_safe: "gives R m \<Longrightarrow> safe m"
  by (cases m) simp_all

lemma gives_mono: "gives R m \<Longrightarrow> (\<And>x. m = Inr x \<Longrightarrow> R x \<Longrightarrow> S x) \<Longrightarrow> gives S m"
  by (cases m) simp_all

lemma gives_bind: "gives R m \<Longrightarrow> (\<And>x. R x \<Longrightarrow> gives S (f x)) \<Longrightarrow> gives S (bindE m f)"
  by (cases m) simp_all

lemma gives_bind_any: "safe m \<Longrightarrow> (\<And>x. m = Inr x \<Longrightarrow> gives S (f x)) \<Longrightarrow> gives S (bindE m f)"
  by (cases m) simp_all

lemma gives_guard: "(\<not> bad \<Longrightarrow> gives S k) \<Longrightarrow> gives S (guardE bad msg k)"
  by (cases bad) simp_all

lemma gives_if: "(b \<Longrightarrow> gives S m) \<Longrightarrow> (\<not> b \<Longrightarrow> gives S m') \<Longrightarrow> gives S (if b then m else m')"
  by simp

lemma gives_fold:
  assumes "R s" and "\<And>s x. x \<in> set xs \<Longrightarrow> R s \<Longrightarrow> gives R (f s x)"
  shows "gives R (foldE f s xs)"
  using assms by (induction xs arbitrary: s) (auto intro: gives_bind)

lemma safe_fold: "(\<And>s x. x \<in> set xs \<Longrightarrow> safe (f s x)) \<Longrightarrow> safe (foldE f s xs)"
  by (rule gives_fold) auto

end
