(* ===== verification/Exchange_Safe.thy ===== *)
theory Exchange_Safe
  imports Exchange_Reserve Steps
begin

text \<open>
  No primitive of the engine panics on a well-formed engine: arithmetic fails with ordinary errors,
  every account that is dereferenced exists, the draws have positive bounds and the book's
  submission is safe.
\<close>

lemma gives_orFail: "(\<And>x. m = Inr x \<Longrightarrow> gives S (f x)) \<Longrightarrow> gives S (orFail m msg f)"
  by (cases m) (simp_all add: orFail_def)

lemma safe_bind: "safe m \<Longrightarrow> (\<And>x. safe (f x)) \<Longrightarrow> safe (bindE m f)"
  by (rule gives_bind_any)

lemma safe_arith [simp]:
  "safe (add_money a b)" "safe (neg_money a)" "safe (sub_money a b)" "safe (scale_money a n d)"
  "safe (add_qty p q)" "safe (neg_qty p)" "safe (sub_qty p q)" "safe (abs_qty_checked p)"
  "safe (notional pr p)" "safe (scale_price pr n d)"
  by (simp_all add: add_money_def neg_money_def sub_money_def scale_money_def add_qty_def neg_qty_def
      sub_qty_def abs_qty_checked_def notional_def scale_price_def Let_def split: option.split)

subsection \<open>Accounts, views and attribution\<close>

abbreviation known :: "engine \<Rightarrow> string \<Rightarrow> bool" where
  "known e i \<equiv> i |\<in>| fmdom (e_accounts e)"

lemma safe_account: "known e i \<Longrightarrow> safe (get_account e i)"
  by (auto simp: get_account_def fmlookup_dom_iff)

lemma wf_known:
  assumes "wf e"
  shows "known e player_account" "known e flow_account"
  using assms by (simp_all add: wf_def accounts_ok_def)

lemma safe_views:
  assumes "known e player_account"
  shows "safe (state_of e)" "safe (player_equity e)" "safe (account_within_limits e player_account b)"
    "safe (player_maintenance_reason e)" "safe (validate_player_quote e bid ask q)"
  unfolding state_of_def player_equity_def equity_def account_within_limits_def player_maintenance_reason_def
    validate_player_quote_def can_place_quote_pair_def can_place_orders_def
  by (auto intro!: gives_bind_any gives_guard safe_account [OF assms])

lemma safe_can_place: "known e i \<Longrightarrow> safe (can_place_excluding e i s p q ex)" "known e i \<Longrightarrow> safe (can_place e i s p q)"
  by (auto simp: can_place_def can_place_excluding_def can_place_orders_def intro!: gives_bind_any safe_account)

lemma safe_attribution [simp]:
  "safe (player_fill_pnl t mark)" "safe (add_execution_edge attr t mark)" "safe (mark_pnl q p c)"
  "safe (add_flow_trade sm t)" "safe (add_player_trade sm t)" "safe (add_legacy_flow_trade sm t)"
  "safe (add_informed_pnl mark sm t)" "safe (moved_mark mark move)" "safe (flow_limit mark s slip)"
proof -
  show fill: "safe (player_fill_pnl t mark)"
    by (auto simp: player_fill_pnl_def intro!: safe_bind)
  then show "safe (add_execution_edge attr t mark)" "safe (add_informed_pnl mark sm t)"
    by (auto simp: add_execution_edge_def add_informed_pnl_def intro!: safe_bind)
  show "safe (mark_pnl q p c)" "safe (flow_limit mark s slip)"
    by (auto simp: mark_pnl_def flow_limit_def intro!: safe_bind)
  show "safe (moved_mark mark move)"
    by (auto simp: moved_mark_def intro!: gives_orFail gives_guard)
  show "safe (add_flow_trade sm t)"
    unfolding add_flow_trade_def Let_def by (intro safe_bind gives_if) simp_all
  show "safe (add_player_trade sm t)"
    unfolding add_player_trade_def Let_def by (intro safe_bind gives_if) simp_all
  show "safe (add_legacy_flow_trade sm t)"
    unfolding add_legacy_flow_trade_def Let_def by (intro safe_bind gives_if) simp_all
qed

lemma safe_actions [simp]:
  "safe (quote_action mark s t)" "safe (edge_action mark attr t)" "safe (flow_action informed mark acc t)"
  by (auto simp: quote_action_def edge_action_def flow_action_def intro!: safe_bind gives_if split: prod.split)

lemma safe_informed [simp]: "safe (foldE (add_informed_pnl mark) sm ts)"
  by (rule safe_fold) simp

subsection \<open>The ledger\<close>

lemma safe_ledger [simp]: "safe (ledger_append l es)"
proof -
  have "safe (post_one s p)" for s p
    unfolding post_one_def Let_def by (cases s) (auto intro!: gives_guard safe_bind)
  then have "safe (post_entry b en)" for b en
    unfolding post_entry_def by (auto intro!: gives_guard safe_bind safe_fold split: prod.split)
  then show ?thesis
    unfolding ledger_append_def by (auto intro!: safe_bind safe_fold simp: case_prod_beta Let_def)
qed

lemma safe_opening: "safe (add_account e i cash position)"
  unfolding add_account_def Let_def
  by (auto intro!: gives_guard gives_bind_any simp: post_opening_def account_within_limits_def get_account_def)

lemma safe_storage: "known e i \<Longrightarrow> safe (charge_storage e i rate)"
  unfolding charge_storage_def Let_def
  by (auto intro!: gives_bind_any safe_account gives_if simp: case_prod_beta)

subsection \<open>Settlement and reservations\<close>

lemma safe_settle_change:
  assumes "known e (fst ch)"
  shows "safe (settle_change e n q balances ch)"
  using assms safe_account [of "fst ch" e]
  unfolding settle_change_def case_prod_beta
  by (intro safe_bind gives_if) (auto split: option.split intro!: safe_bind)

lemma safe_validate_settlement:
  assumes "\<forall>f \<in> set (rp_fills rp). fill_ok (fmdom (e_accounts e)) f"
  shows "safe (validate_settlement e rp)"
  unfolding validate_settlement_def validate_fill_def
  using assms
  by (intro safe_bind safe_fold)
    (auto simp: fill_ok_def fill_buyer_def fill_seller_def intro!: safe_settle_change)

lemma safe_apply_trade:
  assumes "known e (tr_buyer t)" "known e (tr_seller t)"
  shows "safe (apply_trade e t bo so)"
  unfolding apply_trade_def Let_def case_prod_beta
  by (intro safe_bind gives_if safe_account assms) simp_all

lemma safe_settle:
  assumes ok: "\<forall>f \<in> set (rp_fills rp). fill_ok (fmdom (e_accounts e)) f"
  shows "safe (settle_report e rp)"
proof -
  have "gives (\<lambda>s. fmdom (e_accounts (fst s)) = fmdom (e_accounts e)) (foldE settle_fill (e, []) (rp_fills rp))"
  proof (rule gives_fold)
    fix s :: "engine \<times> trade list" and f
    assume f: "f \<in> set (rp_fills rp)" and s: "fmdom (e_accounts (fst s)) = fmdom (e_accounts e)"
    obtain c ts where [simp]: "s = (c, ts)" by (cases s)
    let ?c = "c\<lparr>e_next_trade := e_next_trade c + 1\<rparr>" and ?t = "trade_of_fill (e_next_trade c + 1) f"
    note own = fill_ok_owners [OF bspec [OF ok f], of "e_next_trade c + 1"]
    have "gives (\<lambda>c'. fmdom (e_accounts c') = fmdom (e_accounts c)) (apply_trade ?c ?t bo so)" for bo so
    proof (rule gives_mono)
      show "safe (apply_trade ?c ?t bo so)"
        by (rule safe_apply_trade) (use own(2,3) s in simp_all)
      show "fmdom (e_accounts c') = fmdom (e_accounts c)" if "apply_trade ?c ?t bo so = Inr c'" for c'
        using apply_trade_account(1) [OF that own(1)] by simp
    qed
    note app = gives_bind [OF this]
    show "gives (\<lambda>s. fmdom (e_accounts (fst s)) = fmdom (e_accounts e)) (settle_fill s f)"
      unfolding settle_fill_def Let_def \<open>s = (c, ts)\<close> prod.case
      by (cases "bo_side (fl_taker f) = Sell") (simp_all, (rule app, use s in simp)+)
  qed simp
  then show ?thesis
    using safe_validate_settlement [OF ok] by (auto simp: settle_report_def intro!: gives_bind_any dest: gives_safe)
qed

text \<open>Submitting to the book, previewing a replacement and replacing.\<close>

lemma safe_book:
  assumes inv: "book_inv b"
  shows "safe (submit b ord policy)" "safe (submit_public b ord policy)"
    "safe (preview_replace b old ord policy)" "safe (replace_order b old ord policy)"
proof -
  have sub: "safe (submit c ord policy)" if "book_inv c" for c
    using submit_no_panic [OF that] by (auto simp: gives_def split: sum.split)
  note rem = remove_order_inv(1) [OF inv, of old]
  show "safe (submit b ord policy)" "safe (submit_public b ord policy)"
    using sub [OF inv] by (simp_all add: submit_public_eq [OF inv])
  show "safe (preview_replace b old ord policy)"
    unfolding preview_replace_def
    by (intro gives_guard) (simp add: without_eq [OF inv] submit_public_eq [OF rem] sub [OF rem])
  show "safe (replace_order b old ord policy)"
    by (simp add: replace_order_eq [OF inv] gives_guard sub [OF rem])
qed

lemma safe_submit:
  assumes wf: "wf e" and owner: "known e (or_account ord)"
  shows "safe (submit_book_order e ord)"
proof -
  have inv: "book_inv (e_book e)" using wf by (simp add: wf_def)
  have "safe (submit_public (e_book e) (to_book_order ord) RejectTaker)"
    by (rule safe_book(2) [OF inv])
  moreover have "safe (settle_report (e\<lparr>e_book := b\<rparr>) rp)"
    if "submit_public (e_book e) (to_book_order ord) RejectTaker = Inr (b, rp)" for b rp
    using submit_book_wf(2) [OF wf that] owner by (intro safe_settle) (simp add: to_book_order_def)
  ultimately show ?thesis
    unfolding submit_book_order_def case_prod_beta by (auto intro!: gives_bind_any)
qed

lemma safe_reconcile:
  assumes "wf e"
  shows "safe (reconcile_reservations e)"
proof -
  have "safe (reserve_order e d ord)" for d ord
    unfolding reserve_order_def Let_def
    by (auto intro!: safe_bind split: option.split)
  moreover have "safe (reserve_postings e d ps i)" if "known e i" for d ps i
    using that unfolding reserve_postings_def Let_def
    by (auto intro!: safe_bind simp: fmlookup_dom_iff)
  ultimately show ?thesis
    unfolding reconcile_reservations_def
    by (auto intro!: safe_bind safe_fold gives_if simp: sorted_list_of_fset.rep_eq)
qed

end
