(* ===== verification/Exchange_Quiet.thy ===== *)
theory Exchange_Quiet
  imports Exchange_Safe
begin

text \<open>
  Operations that leave accounts, book, ledger, configuration and mark alone: numbering orders and
  events, ending the session and drawing from the random streams. Draws stay below their bounds.
\<close>

subsection \<open>Operations that do not touch the core\<close>

definition quiet :: "engine \<Rightarrow> engine \<Rightarrow> bool" where
  "quiet e e' \<longleftrightarrow> same_core e e' \<and> e_mark e' = e_mark e"

lemma quiet_refl [simp]: "quiet e e"
  by (simp add: quiet_def same_core_def)

lemma quiet_trans [trans]: "quiet a b \<Longrightarrow> quiet b c \<Longrightarrow> quiet a c"
  by (simp add: quiet_def same_core_def)

lemma quietD:
  assumes "quiet e e'"
  shows "e_cfg e' = e_cfg e" "e_accounts e' = e_accounts e" "e_book e' = e_book e"
    "e_ledger e' = e_ledger e" "e_mark e' = e_mark e"
  using assms by (simp_all add: quiet_def same_core_def)

lemma quiet_emit: "emit e ev = (e', ev') \<Longrightarrow> quiet e e'"
  by (auto simp: emit_def Let_def quiet_def same_core_def)

lemma quiet_emit_all: "emit_all e evs = (e', evs') \<Longrightarrow> quiet e e'"
proof (induction evs arbitrary: e evs')
  case (Cons ev evs)
  then obtain e1 ev1 evs1 where "emit e ev = (e1, ev1)" "emit_all e1 evs = (e', evs1)"
    by (auto simp: Let_def split: prod.splits)
  then show ?case using Cons.IH quiet_emit quiet_trans by blast
qed simp

lemma quiet_lifecycle: "emit_lifecycle e rp = (e', evs) \<Longrightarrow> quiet e e'"
  unfolding emit_lifecycle_def by (rule quiet_emit_all)

lemma quiet_new_order: "new_order e i s p q f = (e', ord) \<Longrightarrow> quiet e e'"
  by (auto simp: new_order_def Let_def quiet_def same_core_def)

lemma quiet_bump [simp]: "quiet e (bump_version e)"
  by (simp add: bump_version_def quiet_def same_core_def)

lemma quiet_end_session: "end_session e r = (e', ev) \<Longrightarrow> quiet e e'"
  by (auto simp: end_session_def emit_def Let_def quiet_def same_core_def)

lemma finish_Inr: "finish e sm evs = Inr (e', r) \<Longrightarrow> e' = e"
  by (auto simp: finish_def)

lemma finish_fst: "finish e sm evs = Inr r \<Longrightarrow> fst r = e"
  by (auto simp: finish_def)

lemma new_order_account: "new_order e i s p q f = (e', ord) \<Longrightarrow> or_account ord = i"
  by (auto simp: new_order_def Let_def)

lemma moved_mark_positive: "moved_mark m d = Inr p \<Longrightarrow> 0 < ival p"
  by (auto simp: moved_mark_def positive_def i64_order)

text \<open>The same facts for the engine component of a pair, as the operations use it.\<close>

lemma quiet_fst [simp]:
  "quiet e (fst (emit e ev))" "quiet e (fst (emit_all e evs))" "quiet e (fst (emit_lifecycle e rp))"
  "quiet e (fst (new_order e i s p q f))" "quiet e (fst (end_session e r))"
  by (metis prod.collapse quiet_emit quiet_emit_all quiet_lifecycle quiet_new_order quiet_end_session)+

lemma quiet_sel [simp]:
  "e_accounts (fst (emit e ev)) = e_accounts e" "e_book (fst (emit e ev)) = e_book e"
  "e_mark (fst (emit e ev)) = e_mark e" "e_cfg (fst (emit e ev)) = e_cfg e"
  "e_accounts (fst (new_order e i s p q f)) = e_accounts e" "e_book (fst (new_order e i s p q f)) = e_book e"
  "e_mark (fst (new_order e i s p q f)) = e_mark e" "e_cfg (fst (new_order e i s p q f)) = e_cfg e"
  "or_account (snd (new_order e i s p q f)) = i" "e_ledger (fst (emit e ev)) = e_ledger e"
  by (auto simp: quietD [OF quiet_fst(1)] quietD [OF quiet_fst(4)] new_order_def Let_def)

lemma quiet_complete_turns [simp]: "quiet e (fst (complete_turns_if_due e))"
  by (simp add: complete_turns_if_due_def case_prod_beta Let_def)

lemma quiet_maintenance: "evaluate_player_maintenance e = Inr (e', ev) \<Longrightarrow> quiet e e'"
  by (auto simp: evaluate_player_maintenance_def case_prod_beta Let_def split: option.splits)

lemma quiet_terminal: "terminal_events e = Inr (e', evs) \<Longrightarrow> quiet e e'"
  by (auto simp: terminal_events_def case_prod_beta Let_def dest!: quiet_maintenance
      intro: quiet_trans split: option.splits)
     (metis fst_conv quiet_complete_turns quiet_trans)+

text \<open>Canceling through \<^verbatim>\<open>Cancel\<close> is removing.\<close>

lemma cancel_order_remove: "cancel_order b i = Some (b', ord) \<Longrightarrow> b' = remove_order b i"
  by (auto simp: cancel_order_def split: option.splits)

lemma cancel_book_cases:
  "fst (case cancel_order b i of None \<Rightarrow> (b, z) | Some r \<Rightarrow> r) \<in> {b, remove_order b i}"
  by (auto split: option.splits dest: cancel_order_remove)

lemma gives_finish:
  "known e player_account \<Longrightarrow> S (e, undefined) \<Longrightarrow> (\<And>r. S (e, r) = S (e, undefined)) \<Longrightarrow> gives S (finish e sm evs)"
  by (auto simp: finish_def intro!: gives_bind_any safe_views)

lemma gives_terminal:
  assumes "known e player_account"
  shows "gives (\<lambda>r. quiet e (fst r)) (terminal_events e)"
proof (rule gives_mono)
  show "safe (terminal_events e)"
    unfolding terminal_events_def evaluate_player_maintenance_def
    by (auto intro!: gives_bind_any safe_views [OF assms] simp: case_prod_beta Let_def split: option.split)
  show "quiet e (fst r)" if "terminal_events e = Inr r" for r
    using that quiet_terminal [of e "fst r" "snd r"] by simp
qed

subsection \<open>Draws\<close>

text \<open>A draw moves one random stream and returns a value below its bound.\<close>

lemma mul64_high: "n \<noteq> 0 \<Longrightarrow> fst (mul64 u n) < n"
proof -
  assume n: "n \<noteq> 0"
  have "uint (fst (mul64 u n)) * 2 ^ 64 \<le> uint u * uint n"
    using uint_mul64 [of u n] uint_nonnegative [of "snd (mul64 u n)"] by linarith
  also have "\<dots> < 2 ^ 64 * uint n"
    using n uint_bounded [of u] by (intro mult_strict_right_mono) (simp_all add: word_neq_0_conv word_less_def)
  finally show ?thesis by (simp add: word_less_def)
qed

lemma redraw_range: "h < n \<Longrightarrow> fst (redraw n h l s) < n"
proof (induction n h l s rule: redraw.induct)
  case (1 n h l s)
  show ?case
  proof (cases "l < (- n) mod n")
    case True
    obtain u s' where u: "pcg_uint64 s = (u, s')" by (metis prod.collapse)
    obtain h' l' where m: "mul64 u n = (h', l')" by (metis prod.collapse)
    have "n \<noteq> 0" using "1.prems" by (auto simp: word_less_def)
    then have "h' < n" using m mul64_high [of n u] by simp
    then show ?thesis using 1 True u m by (subst redraw.simps) simp
  next
    case False
    then show ?thesis using 1 by (subst redraw.simps) simp
  qed
qed

lemma uint64n_range:
  assumes n: "n \<noteq> 0"
  shows "fst (uint64n s n) < n"
proof -
  have "u AND (n - 1) < n" for u
  proof -
    have "u AND (n - 1) \<le> n - 1" by (metis and.commute word_and_le1)
    also have "n - 1 < n" using n by (simp add: word_less_nat_alt unat_minus_one unat_gt_0)
    finally show ?thesis .
  qed
  then show ?thesis
    using mul64_high [OF n] redraw_range
    by (auto simp: uint64n_def Let_def case_prod_beta)
qed

text \<open>Every draw of the engine: the value is below its bound, the rest of the engine is unchanged
  since \<open>base\<close>.\<close>

lemma quiet_rng [simp]:
  "quiet base (e\<lparr>e_flow_rng := s\<rparr>) = quiet base e" "quiet base (e\<lparr>e_mark_rng := s\<rparr>) = quiet base e"
  "quiet base (e\<lparr>e_informed_rng := s\<rparr>) = quiet base e" "quiet base (e\<lparr>e_pcg := t\<rparr>) = quiet base e"
  by (simp_all add: quiet_def same_core_def)

lemma gives_bounded: "b \<noteq> 0 \<Longrightarrow> gives (\<lambda>r. fst r < b) (bounded s b)"
  using bounded_range [of b s] by auto

lemma gives_draws:
  assumes "quiet base e" and "b \<noteq> 0"
  shows "gives (\<lambda>r. quiet base (fst r) \<and> snd r < b) (draw_flow e b)"
    "gives (\<lambda>r. quiet base (fst r) \<and> snd r < b) (draw_mark e b)"
    "gives (\<lambda>r. quiet base (fst r) \<and> snd r < b) (draw_informed e b)"
  unfolding draw_flow_def draw_mark_def draw_informed_def case_prod_beta
  by (rule gives_bind [OF gives_bounded [OF assms(2)]], simp add: assms(1))+

lemma signed_below: "0 < ival n \<Longrightarrow> v < bits n \<Longrightarrow> 0 \<le> ival (I64 v) \<and> ival (I64 v) < ival n"
proof -
  assume n: "0 < ival n" and v: "v < bits n"
  have "int (unat (bits n)) = ival n"
    using n ival_range(2) [of n] uint_bits [of n] by simp
  then have "int (unat v) < ival n" using v unfolding word_less_nat_alt by linarith
  moreover from this have "ival (I64 v) = int (unat v)"
    using ival_range(2) [of n] by (intro ival_I64_small) linarith
  ultimately show ?thesis by simp
qed

lemma positive_bits: "0 < ival n \<Longrightarrow> bits n \<noteq> 0"
  by (auto simp: ival_def)

lemma gives_legacy_draws:
  assumes "quiet base e" and "0 < ival n"
  shows "gives (\<lambda>r. quiet base (fst r) \<and> 0 \<le> ival (snd r) \<and> ival (snd r) < ival n) (draw_legacy e n)"
    "gives (\<lambda>r. quiet base (fst r) \<and> 0 \<le> ival (snd r) \<and> ival (snd r) < ival n) (draw_legacy_int e n)"
  using assms(1) signed_below [OF assms(2) uint64n_range [OF positive_bits [OF assms(2)]]] assms(2)
  by (simp_all add: draw_legacy_def draw_legacy_int_def int64n_def int_n_def i64_order case_prod_beta Let_def)

text \<open>An arrival respects the configured limits, and an informed one trades towards the mark to
  come.\<close>

definition arrival_ok :: "config \<Rightarrow> arrival \<Rightarrow> bool" where
  "arrival_ok c ar \<longleftrightarrow> (ar_side ar = Buy \<or> ar_side ar = Sell) \<and>
     1 \<le> ival (ar_qty ar) \<and> ival (ar_qty ar) \<le> ival (cf_max_qty c) \<and>
     0 \<le> ival (ar_slip ar) \<and> ival (ar_slip ar) \<le> ival (cf_max_slip c)"

lemma one_plus: "0 \<le> ival v \<Longrightarrow> ival v < ival n \<Longrightarrow> ival (1 + v) = 1 + ival v"
  using ival_range(2) [of n] by (subst ival_add) (auto simp: fits_def)

lemma succ_slip: "ival s \<le> 10000 \<Longrightarrow> 0 \<le> ival s \<Longrightarrow> ival (s + 1) = ival s + 1"
  by (subst ival_add) (auto simp: fits_def)

lemma same_cfg: "quiet e x \<Longrightarrow> e_cfg x = e_cfg e"
  by (simp add: quietD)

lemma gives_v2_arrival:
  assumes "wf e"
  shows "gives (\<lambda>r. quiet e (fst r) \<and> arrival_ok (e_cfg e) (snd r)) (draw_v2_arrival e o_mark n_mark)"
proof -
  have c: "validate_config (e_cfg e) = Inr ()" using assms by (simp add: wf_def)
  note cfg = validate_configD(12,13,14) [OF c]
  have q: "bits (cf_max_qty (e_cfg e)) \<noteq> 0" "bits (cf_max_slip (e_cfg e) + 1) \<noteq> 0"
    using cfg by (auto intro!: positive_bits simp: succ_slip)
  have ok: "arrival_ok (e_cfg e) \<lparr>ar_side = s, ar_qty = I64 (1 + v), ar_slip = I64 w, ar_informed = b\<rparr>"
    if "v < bits (cf_max_qty (e_cfg e))" "w < bits (cf_max_slip (e_cfg e) + 1)" "s = Buy \<or> s = Sell" for s v w b
  proof -
    have "I64 (1 + v) = 1 + I64 v" by (simp add: plus_i64_def)
    then show ?thesis
      using that cfg signed_below [OF _ that(1)] signed_below [OF _ that(2)]
        one_plus [of "I64 v" "cf_max_qty (e_cfg e)"]
      by (auto simp: arrival_ok_def succ_slip)
  qed
  note draw = gives_bind [OF gives_draws(1) [where base = e]] gives_bind [OF gives_draws(3) [where base = e]]
  show ?thesis
    unfolding draw_v2_arrival_def case_prod_beta Let_def
    by (rule draw | (erule conjE, frule same_cfg) | (simp add: q; fail) |
        (simp only: gives_simps fst_conv snd_conv, intro conjI ok, simp_all; fail))+
qed

lemma gives_legacy_arrival:
  assumes "wf e"
  shows "gives (\<lambda>r. quiet e (fst r) \<and> arrival_ok (e_cfg e) (snd r)) (draw_legacy_arrival e)"
proof -
  have c: "validate_config (e_cfg e) = Inr ()" using assms by (simp add: wf_def)
  note cfg = validate_configD(12,13,14) [OF c]
  have slip: "gives (\<lambda>r. quiet e (fst r) \<and> 0 \<le> ival (snd r) \<and> ival (snd r) \<le> ival (cf_max_slip (e_cfg e)))
      (if cf_max_slip (e_cfg x) > 0 then draw_legacy x (cf_max_slip (e_cfg x) + 1) else Inr (x, 0))"
    if "quiet e x" for x
    using gives_legacy_draws(1) [OF that, of "cf_max_slip (e_cfg e) + 1"] that cfg
    by (auto simp: same_cfg succ_slip elim!: gives_mono)
  have ok: "arrival_ok (e_cfg e) \<lparr>ar_side = s, ar_qty = 1 + v, ar_slip = w, ar_informed = b\<rparr>"
    if "0 \<le> ival v" "ival v < ival (cf_max_qty (e_cfg e))" "0 \<le> ival w" "ival w \<le> ival (cf_max_slip (e_cfg e))"
      "s = Buy \<or> s = Sell" for s v w b
    using that one_plus [of v "cf_max_qty (e_cfg e)"] by (simp add: arrival_ok_def)
  note draw = gives_bind [OF gives_legacy_draws(2) [where base = e]] gives_bind [OF slip]
    gives_bind [OF gives_legacy_draws(1) [where base = e]]
  show ?thesis
    unfolding draw_legacy_arrival_def case_prod_beta Let_def
    by (rule draw | (elim conjE, frule same_cfg) | (simp add: cfg; fail) |
        (simp only: gives_simps fst_conv snd_conv, intro conjI ok, simp_all; fail))+
qed

lemma move_width:
  assumes "ival lo \<le> ival hi" "- 10000 < ival lo" "ival hi \<le> 10000"
  shows "ival (hi - lo + 1) = ival hi - ival lo + 1"
proof -
  have "ival (hi - lo) = ival hi - ival lo" using assms by (intro ival_sub) (simp add: fits_def)
  then show ?thesis using assms by (subst ival_add) (auto simp: fits_def)
qed

lemma gives_next_mark:
  assumes "wf e"
  shows "gives (\<lambda>r. quiet e (fst r) \<and> 0 < ival (snd r)) (next_mark_v2 e)"
    "gives (\<lambda>r. quiet e (fst r) \<and> 0 < ival (snd r)) (next_legacy_mark e)"
proof -
  have c: "validate_config (e_cfg e) = Inr ()" using assms by (simp add: wf_def)
  note cfg = validate_configD(15,16,17) [OF c]
  have width: "0 < ival (cf_max_move (e_cfg e) - cf_min_move (e_cfg e) + 1)"
    using cfg by (simp add: move_width)
  have move: "gives (\<lambda>r. quiet e (fst r) \<and> 0 < ival (snd r)) (bindE (moved_mark m d) (\<lambda>p. Inr (x, p)))"
    if "quiet e x" for x m d
    by (rule gives_bind_any) (use that in \<open>auto dest: moved_mark_positive\<close>)
  show "gives (\<lambda>r. quiet e (fst r) \<and> 0 < ival (snd r)) (next_mark_v2 e)"
    unfolding next_mark_v2_def case_prod_beta
    by (rule gives_bind [OF gives_draws(2) [where base = e]]) (auto intro!: positive_bits width move)
  have draw: "gives (\<lambda>r. quiet e (fst r))
     (if cf_max_move (e_cfg e) > cf_min_move (e_cfg e)
      then draw_legacy e (cf_max_move (e_cfg e) - cf_min_move (e_cfg e) + 1) else Inr (e, 0))"
    using gives_mono [OF gives_legacy_draws(1) [OF quiet_refl width], where S = "\<lambda>r. quiet e (fst r)"] by simp
  show "gives (\<lambda>r. quiet e (fst r) \<and> 0 < ival (snd r)) (next_legacy_mark e)"
    unfolding next_legacy_mark_def case_prod_beta
    by (rule gives_bind [OF draw]) (rule move)
qed

lemma gives_turn_orders:
  assumes "0 < ival (cf_max_orders (e_cfg e))"
  shows "gives (\<lambda>r. quiet e (fst r)) (draw_flow e (bits (cf_max_orders (e_cfg e))))"
    "gives (\<lambda>r. quiet e (fst r)) (draw_legacy_int e (cf_max_orders (e_cfg e)))"
  by (rule gives_mono [OF gives_draws(1) [OF quiet_refl positive_bits [OF assms]]], simp)
    (rule gives_mono [OF gives_legacy_draws(2) [OF quiet_refl assms]], simp)

end
