(* ===== verification/Exchange_Contract.thy ===== *)
theory Exchange_Contract
  imports Exchange_Quiet
begin

text \<open>
  The contract between the engine's operations and the primitive changes of its state. Every
  operation is composed of a few primitives: a submission to the book with its settlement, the
  removal of an order, a reconciliation, a storage charge, an opening, and changes outside the
  core (counters, random streams, the clock of turns, the mark). The locale \<open>trading\<close> names what a
  predicate must satisfy on these primitives; inside it every trading operation is shown to keep
  the predicate. \<open>P\<close> holds at every step, \<open>Q\<close> whenever a command has completed.
\<close>

subsection \<open>The trading contract\<close>

locale trading =
  fixes P :: "engine \<Rightarrow> bool" and Q :: "engine \<Rightarrow> bool"
  assumes P_wf: "P e \<Longrightarrow> wf e"
    and P_frame: "P e \<Longrightarrow> same_core e e' \<Longrightarrow> 0 < ival (e_mark e') \<Longrightarrow> P e'"
    and Q_frame: "Q e \<Longrightarrow> same_core e e' \<Longrightarrow> Q e'"
    and P_submit: "P e \<Longrightarrow> submit_public (e_book e) bo policy = Inr (b, rp) \<Longrightarrow>
      bo_owner bo |\<in>| fmdom (e_accounts e) \<Longrightarrow> settle_report (e\<lparr>e_book := b\<rparr>) rp = Inr (e', ts) \<Longrightarrow> P e'"
    and P_remove: "P e \<Longrightarrow> P (e\<lparr>e_book := remove_order (e_book e) i\<rparr>)"
    and P_reconcile: "P e \<Longrightarrow> reconcile_reservations e = Inr e' \<Longrightarrow> P e'"
    and Q_reconcile: "P e \<Longrightarrow> reconcile_reservations e = Inr e' \<Longrightarrow> Q e'"
begin

lemma P_quiet: "P e \<Longrightarrow> quiet e e' \<Longrightarrow> P e'"
  using P_frame [of e e'] P_wf [of e] by (simp add: quiet_def wf_def)

lemma Q_quiet: "Q e \<Longrightarrow> quiet e e' \<Longrightarrow> Q e'"
  using Q_frame by (simp add: quiet_def)

lemma player_known: "P e \<Longrightarrow> player_account |\<in>| fmdom (e_accounts e)"
  and flow_known: "P e \<Longrightarrow> flow_account |\<in>| fmdom (e_accounts e)"
  using P_wf by (simp_all add: wf_def accounts_ok_def)

lemma P_quiet_fst [simp]:
  assumes "P e"
  shows "P (fst (emit e ev))" "P (fst (emit_all e evs))" "P (fst (emit_lifecycle e rp))"
    "P (fst (new_order e i s p q f))" "P (fst (end_session e r))" "P (bump_version e)"
    "P (fst (complete_turns_if_due e))"
  using P_quiet [OF assms] by simp_all

lemma Q_quiet_fst [simp]:
  assumes "Q e"
  shows "Q (fst (emit e ev))" "Q (fst (emit_all e evs))" "Q (fst (emit_lifecycle e rp))"
    "Q (fst (new_order e i s p q f))" "Q (fst (end_session e r))" "Q (bump_version e)"
    "Q (fst (complete_turns_if_due e))"
  using Q_quiet [OF assms] by simp_all

lemma gives_submit:
  assumes "P e" and "or_account ord |\<in>| fmdom (e_accounts e)"
  shows "gives (\<lambda>r. P (fst r)) (submit_book_order e ord)"
proof (rule gives_mono)
  show "safe (submit_book_order e ord)" by (rule safe_submit [OF P_wf [OF assms(1)] assms(2)])
  show "P (fst r)" if "submit_book_order e ord = Inr r" for r
    using that assms P_submit [of e "to_book_order ord"]
    by (auto simp: submit_book_order_def to_book_order_def)
qed

lemma P_cancel_book:
  assumes "P e"
  shows "P (e\<lparr>e_book := fst (case cancel_order (e_book e) i of None \<Rightarrow> (e_book e, z) | Some r \<Rightarrow> r)\<rparr>)"
  using cancel_book_cases [where b = "e_book e" and i = i and z = z] P_remove [OF assms, of i] assms by auto

lemma P_cancel_one: "P e \<Longrightarrow> P (fst (cancel_one (e, evs) ord))"
  unfolding cancel_one_def case_prod_beta Let_def fst_conv
  using P_cancel_book [where e = e and i = "bo_id ord" and z = zero_book_order] by simp

lemma P_cancel_account [simp]: "P e \<Longrightarrow> P (fst (cancel_account_orders e i))"
proof -
  have "P (fst s) \<Longrightarrow> P (fst (foldl cancel_one s os))" for s os
    by (induction os arbitrary: s) (auto, metis P_cancel_one prod.collapse)
  then show "P e \<Longrightarrow> P (fst (cancel_account_orders e i))" by (simp add: cancel_account_orders_def)
qed

lemma gives_reconcile:
  assumes "P e"
  shows "gives (\<lambda>e'. P e' \<and> Q e') (reconcile_reservations e)"
  by (rule gives_mono [OF safe_reconcile [OF P_wf [OF assms]]])
    (use P_reconcile [OF assms] Q_reconcile [OF assms] in blast)

lemmas steps = gives_guard gives_bind [OF gives_submit] gives_bind [OF gives_reconcile]

abbreviation stays :: "(engine \<times> 'a) res \<Rightarrow> bool" where
  "stays \<equiv> gives (\<lambda>r. P (fst r) \<and> Q (fst r))"

lemma stays_finish: "P e \<Longrightarrow> Q e \<Longrightarrow> stays (finish e sm evs)"
  by (rule gives_finish) (simp_all add: player_known)

lemma stays_place_limit: "P e \<Longrightarrow> stays (place_limit e i s p q f)"
  unfolding place_limit_def case_prod_beta Let_def
  by (rule steps stays_finish gives_bind_any [OF safe_can_place(2)] | simp add: fmlookup_dom_iff)+

lemma stays_cancel_limit: "P e \<Longrightarrow> stays (cancel_limit e i oid)"
  unfolding cancel_limit_def case_prod_beta Let_def
  by (cases "lookup_order (e_book e) oid") (auto intro!: steps P_cancel_book stays_finish)

lemma gives_replace:
  assumes P: "P e" and owner: "or_account ord |\<in>| fmdom (e_accounts e)"
  shows "gives (\<lambda>r. gives (\<lambda>r'. P (fst r')) (settle_report (e\<lparr>e_book := fst r\<rparr>) (snd r)))
    (replace_order (e_book e) old (to_book_order ord) RejectTaker)"
proof (rule gives_mono)
  note P' = P_remove [OF P, of old]
  have inv: "book_inv (remove_order (e_book e) old)" "book_inv (e_book e)"
    using P_wf [OF P'] P_wf [OF P] by (auto simp: wf_def)
  show "safe (replace_order (e_book e) old (to_book_order ord) RejectTaker)" by (rule safe_book(4) [OF inv(2)])
  fix r assume "replace_order (e_book e) old (to_book_order ord) RejectTaker = Inr r"
  then have sub: "submit_public (remove_order (e_book e) old) (to_book_order ord) RejectTaker = Inr (fst r, snd r)"
    by (auto simp: replace_order_eq [OF inv(2)] submit_public_eq [OF inv(1)])
  show "gives (\<lambda>r'. P (fst r')) (settle_report (e\<lparr>e_book := fst r\<rparr>) (snd r))"
  proof (rule gives_mono)
    show "safe (settle_report (e\<lparr>e_book := fst r\<rparr>) (snd r))"
      using submit_book_wf(2) [OF P_wf [OF P'], of "to_book_order ord" RejectTaker "fst r" "snd r"] sub owner
      by (intro safe_settle) (simp add: to_book_order_def)
    show "P (fst r')" if "settle_report (e\<lparr>e_book := fst r\<rparr>) (snd r) = Inr r'" for r'
      using P_submit [OF P', of "to_book_order ord" RejectTaker "fst r" "snd r" "fst r'" "snd r'"] sub that owner
      by (simp add: to_book_order_def)
  qed
qed

lemma stays_replace_limit:
  assumes "P e"
  shows "stays (replace_limit e i old_id s p q f)"
proof (cases "lookup_order (e_book e) old_id")
  case None
  then show ?thesis by (auto simp: replace_limit_def intro!: gives_guard)
next
  case (Some old)
  let ?e1 = "e\<lparr>e_next_order := e_next_order e + 1\<rparr>"
  let ?r = "\<lparr>or_id = e_next_order e + 1, or_seq = e_next_order e + 1, or_account = i, or_side = s,
     or_price = p, or_qty = q, or_rem = q, or_tif = f, or_informed = False\<rparr>"
  have P1: "P ?e1" by (rule P_quiet [OF assms]) (simp add: quiet_def same_core_def)
  have "bo_owner old |\<in>| fmdom (e_accounts e)"
    using P_wf [OF assms] Some
    by (auto simp: wf_def owners_known_def lookup_order_def book_inv_def live_lookup)
  then have rep: "bo_owner old = i \<Longrightarrow> gives (\<lambda>r. gives (\<lambda>r'. P (fst r')) (settle_report (?e1\<lparr>e_book := fst r\<rparr>) (snd r)))
      (replace_order (e_book ?e1) old_id (to_book_order ?r) RejectTaker)"
    and place: "bo_owner old = i \<Longrightarrow> safe (can_place_excluding e i s p q old_id)"
    by (intro gives_replace [OF P1] safe_can_place; simp)+
  have preview: "safe (preview_replace (e_book e) old_id (to_book_order ?r) RejectTaker)"
    using P_wf [OF assms] by (intro safe_book) (simp add: wf_def)
  show ?thesis
    unfolding replace_limit_def case_prod_beta Let_def Some option.case
    by (intro gives_guard, rule gives_bind_any [OF place], simp, rule gives_guard,
        rule gives_bind_any [OF preview], rule gives_bind [OF rep], simp, erule gives_bind,
        rule gives_bind [OF gives_reconcile], assumption)
      (auto intro!: stays_finish)
qed

text \<open>Loops over trades and orders: what they carry beside the engine does not matter.\<close>

lemma keeps_quote_trades: "(\<And>s t. safe (f s t)) \<Longrightarrow> P (fst st) \<Longrightarrow> gives (\<lambda>st. P (fst st)) (foldE (quote_trade f) st ts)"
  by (rule gives_fold) (auto simp: quote_trade_def case_prod_beta Let_def intro!: gives_bind_any)

lemma keeps_flow_trades: "(\<And>s t. safe (f s t)) \<Longrightarrow> P (fst st) \<Longrightarrow> gives (\<lambda>st. P (fst st)) (foldE (flow_trade f) st ts)"
  by (rule gives_fold) (auto simp: flow_trade_def case_prod_beta Let_def intro!: gives_bind_any)

lemma keeps_quote_order:
  "(\<And>s t. safe (f s t)) \<Longrightarrow> P (fst st) \<Longrightarrow> or_account ord = player_account \<Longrightarrow> gives (\<lambda>st. P (fst st)) (quote_order f st ord)"
  unfolding quote_order_def case_prod_beta Let_def
  by (rule gives_bind [OF gives_submit] gives_bind [OF keeps_quote_trades] | simp add: player_known)+

lemma stays_player_quote:
  assumes P: "P e" and f: "\<And>s t. safe (f s t)"
  shows "stays (replace_player_quote e bid ask q f s)"
proof -
  have "gives (\<lambda>st. P (fst st)) (foldE (quote_order f) (e', evs, s) [b, a])"
    if "P e'" "or_account b = player_account" "or_account a = player_account" for e' evs a b
    by (rule gives_fold) (use that keeps_quote_order [OF f] in auto)
  then show ?thesis
    unfolding replace_player_quote_def case_prod_beta Let_def
    by (rule gives_bind) (auto simp: P intro!: gives_bind [OF gives_reconcile])
qed

lemma stays_arrival: "(\<And>s t. safe (f s t)) \<Longrightarrow> P e \<Longrightarrow> stays (execute_arrival e ar f s)"
  unfolding execute_arrival_def case_prod_beta Let_def
  by (rule gives_bind [OF gives_submit] gives_bind [OF keeps_flow_trades] gives_bind [OF gives_reconcile] |
      (simp add: flow_known; fail) | rule gives_bind_any)+

lemma stays_breach: "P e \<Longrightarrow> Q e \<Longrightarrow> stays (end_real_time_on_breach e)"
  unfolding end_real_time_on_breach_def case_prod_beta Let_def
  by (rule gives_bind_any [OF safe_views(4) [OF player_known]])
    (auto split: option.split intro!: gives_bind [OF gives_reconcile])

lemma stays_quiet: "gives (\<lambda>r. quiet e (fst r)) m \<Longrightarrow> P e \<Longrightarrow> Q e \<Longrightarrow> stays m"
  by (cases m) (auto intro: P_quiet Q_quiet)

lemma stays_terminal: "P e \<Longrightarrow> Q e \<Longrightarrow> stays (terminal_events e)"
  by (rule stays_quiet [OF gives_terminal [OF player_known]])

lemma stays_draws:
  assumes "P e" "Q e"
  shows "stays (draw_v2_arrival e o_mark n_mark)" "stays (draw_legacy_arrival e)"
  by (rule stays_quiet [OF gives_mono [OF gives_v2_arrival [OF P_wf [OF assms(1)]]] assms]
      stays_quiet [OF gives_mono [OF gives_legacy_arrival [OF P_wf [OF assms(1)]]] assms], simp)+

lemma stays_turn_orders:
  assumes "P e" "Q e" "0 < ival (cf_max_orders (e_cfg e))"
  shows "stays (draw_flow e (bits (cf_max_orders (e_cfg e))))"
    "stays (draw_legacy_int e (cf_max_orders (e_cfg e)))"
  by (rule stays_quiet [OF gives_turn_orders(1) [OF assms(3)] assms(1,2)]
      stays_quiet [OF gives_turn_orders(2) [OF assms(3)] assms(1,2)])+

lemma safe_player:
  assumes "P e"
  shows "safe (player_equity e)" "safe (get_account e player_account)"
    "safe (player_maintenance_reason e)" "safe (validate_player_quote e bid ask q)"
  using safe_views [OF player_known [OF assms]] safe_account [OF player_known [OF assms]] by simp_all

lemmas compound_steps = gives_bind [OF stays_player_quote] gives_bind [OF stays_arrival] gives_bind [OF stays_breach]

lemma stays_update_quote: "P e \<Longrightarrow> stays (update_quote_step bid ask q e)"
  unfolding update_quote_step_def case_prod_beta
  by (rule gives_guard gives_orFail stays_finish compound_steps | (simp add: safe_player; fail) | rule gives_bind_any)+

lemma stays_customer_arrival: "P e \<Longrightarrow> stays (customer_arrival_step ca e)"
  unfolding customer_arrival_step_def case_prod_beta Let_def
  by (rule gives_guard gives_orFail stays_finish compound_steps | (simp add: safe_player; fail) | rule gives_bind_any)+

lemma moves_mark:
  assumes "P e" "Q e" "0 < ival p"
  shows "P (fst (apply_mark e p b))" "Q (fst (apply_mark e p b))"
  by (rule P_frame [OF assms(1)] Q_frame [OF assms(2)],
      simp_all add: assms(3) apply_mark_def emit_def Let_def same_core_def)+

lemma stays_mark_move: "P e \<Longrightarrow> Q e \<Longrightarrow> stays (mark_move_step move e)"
  unfolding mark_move_step_def case_prod_beta Let_def
  by (rule gives_guard gives_orFail stays_finish compound_steps moves_mark | (simp add: safe_player; fail) |
      rule gives_bind_any | (drule moved_mark_positive; simp; fail))+

lemma stays_expire: "P e \<Longrightarrow> stays (expire_step r e)"
  unfolding expire_step_def case_prod_beta Let_def
  by (rule gives_guard gives_bind [OF gives_reconcile] stays_finish | simp)+

end

subsection \<open>The venue contract\<close>

text \<open>A predicate that also survives storage charges and openings is kept by every operation.\<close>

locale venue = trading +
  assumes P_storage: "P e \<Longrightarrow> charge_storage e i rate = Inr (e', st, evs) \<Longrightarrow> 0 \<le> ival rate \<Longrightarrow> P e'"
    and Q_storage: "P e \<Longrightarrow> Q e \<Longrightarrow> charge_storage e i rate = Inr (e', st, evs) \<Longrightarrow> 0 \<le> ival rate \<Longrightarrow> Q e'"
    and P_add: "P e \<Longrightarrow> add_account e i cash position = Inr e' \<Longrightarrow> P e'"
    and Q_add: "P e \<Longrightarrow> Q e \<Longrightarrow> add_account e i cash position = Inr e' \<Longrightarrow> Q e'"
begin

lemma stays_storage: "P e \<Longrightarrow> Q e \<Longrightarrow> 0 \<le> ival rate \<Longrightarrow> stays (charge_storage e player_account rate)"
  using P_storage Q_storage gives_Inl [OF safe_storage [OF player_known]]
  by (cases "charge_storage e player_account rate") auto

lemma stays_carry: "P e \<Longrightarrow> Q e \<Longrightarrow> stays (carry_step rate e)"
  unfolding carry_step_def case_prod_beta
  by (rule gives_guard gives_orFail stays_finish gives_bind [OF stays_breach] gives_bind [OF stays_storage] |
      (simp add: i64_order safe_player; fail) | rule gives_bind_any)+

lemma stays_open: "P e \<Longrightarrow> Q e \<Longrightarrow> stays (open_account e i cash position)"
  unfolding open_account_def case_prod_beta Let_def
  by (rule gives_guard gives_bind_any [OF safe_opening] stays_finish | simp add: P_add Q_add)+

lemma storage_rate: "P e \<Longrightarrow> 0 \<le> ival (cf_storage (e_cfg e))"
  using P_wf validate_configD by (auto simp: wf_def)

lemma stays_legacy_arrivals:
  "P (fst st) \<Longrightarrow> Q (fst st) \<Longrightarrow> stays (foldE legacy_arrival st ks)"
  by (rule gives_fold) (auto simp: legacy_arrival_def case_prod_beta intro!: gives_bind [OF stays_draws(2)]
      gives_bind [OF stays_arrival])

lemma stays_v2_arrivals:
  "P (fst st) \<Longrightarrow> Q (fst st) \<Longrightarrow> stays (foldE (v2_arrival opening next_mark) st ks)"
  by (rule gives_fold) (auto simp: v2_arrival_def case_prod_beta Let_def intro!: gives_bind [OF stays_draws(1)]
      gives_bind [OF stays_arrival])

lemma stays_next_mark:
  assumes "P e" "Q e"
  shows "gives (\<lambda>r. P (fst r) \<and> Q (fst r) \<and> 0 < ival (snd r)) (next_legacy_mark e)"
    "gives (\<lambda>r. P (fst r) \<and> Q (fst r) \<and> 0 < ival (snd r)) (next_mark_v2 e)"
  by (rule gives_mono [OF gives_next_mark(2) [OF P_wf]] gives_mono [OF gives_next_mark(1) [OF P_wf]],
      simp_all add: assms P_quiet [OF assms(1)] Q_quiet [OF assms(2)])+

lemma next_turn:
  assumes "P e" "Q e"
  shows "P (e\<lparr>e_turn := t\<rparr>)" "Q (e\<lparr>e_turn := t\<rparr>)"
  using P_quiet [OF assms(1)] Q_quiet [OF assms(2)] by (simp_all add: quiet_def same_core_def)

lemma stays_advance_legacy:
  assumes "P e" "Q e"
  shows "stays (advance_legacy e evs)"
proof -
  have arrivals: "stays (if 0 < cf_max_orders (e_cfg e)
      then bindE (draw_legacy_int e (cf_max_orders (e_cfg e))) (\<lambda>r.
        foldE legacy_arrival (fst r, evs, zero_summary) [0..<nat (ival (1 + snd r))])
      else Inr (e, evs, zero_summary))"
    using assms by (intro gives_if gives_bind [OF stays_turn_orders(2)] stays_legacy_arrivals) (auto simp: i64_order)
  show ?thesis
    unfolding advance_legacy_def case_prod_beta Let_def
    by (rule gives_bind [OF arrivals] gives_bind [OF stays_storage] gives_bind [OF stays_next_mark(1)]
        gives_bind [OF stays_terminal] moves_mark next_turn | (simp add: storage_rate; fail))+
qed

lemma stays_advance_v2:
  assumes "P e" "Q e"
  shows "stays (advance_v2 e evs opening attr)"
proof -
  have arrivals: "stays (if 0 < cf_max_orders (e_cfg e)
      then bindE (draw_flow e (bits (cf_max_orders (e_cfg e)))) (\<lambda>r.
        foldE (v2_arrival opening next_mark) (fst r, evs, zero_summary, attr, []) [0..<nat (ival (1 + I64 (snd r)))])
      else Inr (e, evs, zero_summary, attr, []))" if "P e" "Q e" for e next_mark
    using that by (intro gives_if gives_bind [OF stays_turn_orders(1)] stays_v2_arrivals) (auto simp: i64_order)
  show ?thesis
    unfolding advance_v2_def case_prod_beta Let_def
    by (rule gives_bind [OF stays_next_mark(2)] gives_bind [OF arrivals] gives_bind [OF stays_storage]
        gives_bind [OF stays_terminal] moves_mark next_turn
        | (simp add: storage_rate safe_player moves_mark next_turn assms; fail) | rule gives_bind_any)+
qed

lemma stays_submit_quote:
  assumes "P e"
  shows "stays (submit_quote_step bid ask e)"
proof -
  have "stays (submit_quote_legacy e bid ask)"
    unfolding submit_quote_legacy_def case_prod_beta Let_def
    by (rule gives_bind [OF stays_player_quote] gives_bind [OF stays_advance_legacy] stays_finish
        | (simp add: safe_player assms; fail) | rule gives_bind_any)+
  moreover have "stays (submit_quote_v2 e bid ask)"
    unfolding submit_quote_v2_def case_prod_beta Let_def
    by (rule gives_bind [OF stays_player_quote] gives_bind [OF stays_advance_v2] stays_finish gives_guard
        | (simp add: safe_player assms; fail) | rule gives_bind_any)+
  ultimately show ?thesis by (simp add: submit_quote_step_def)
qed

end

end
