(* ===== verification/Exchange_Runs.thy ===== *)
theory Exchange_Runs
  imports Exchange_Contract
begin

text \<open>
  Runs of the engine. The contract of \<open>Exchange_Contract\<close> is interpreted on the engine's own
  invariant and on the conservation of cash and instrument; the relations \<open>venue_call\<close> and
  \<open>reachable\<close> say which calls there are and which engines they lead to.
\<close>

subsection \<open>Interpretations\<close>

interpretation inv: venue wf reserved_ok
proof unfold_locales
  fix e e' :: engine and i bo policy b rp ts rate st evs cash position
  show "wf e \<Longrightarrow> wf e" .
  show "wf e \<Longrightarrow> same_core e e' \<Longrightarrow> 0 < ival (e_mark e') \<Longrightarrow> wf e'" by (rule wf_frame)
  show "reserved_ok e \<Longrightarrow> same_core e e' \<Longrightarrow> reserved_ok e'" by (simp add: reserved_ok_def same_core_def)
  show "wf e'" if "wf e" "submit_public (e_book e) bo policy = Inr (b, rp)" "known e (bo_owner bo)"
    "settle_report (e\<lparr>e_book := b\<rparr>) rp = Inr (e', ts)"
    using settle_wf(1) [OF submit_book_wf(1) [OF that(1-3)] that(4)] submit_book_wf(2) [OF that(1-3)] by simp
  show "wf (e\<lparr>e_book := remove_order (e_book e) i\<rparr>)" if "wf e" for i
    using that remove_order_inv [of "e_book e" i]
    by (auto simp: wf_def accounts_ok_def owners_known_def projection_def drop_id_def uncrossed_def)
  show "wf e \<Longrightarrow> reconcile_reservations e = Inr e' \<Longrightarrow> wf e'" by (rule reconcile_wf)
  show "reconcile_reservations e = Inr e' \<Longrightarrow> reserved_ok e'" by (rule reconcile_reserved_ok)
  show "wf e'" if "wf e" "charge_storage e i rate = Inr (e', st, evs)" "0 \<le> ival rate" for i
    by (rule charge_storage_wf(1) [OF that(2,3,1)])
  show "reserved_ok e'" if "wf e" "reserved_ok e" "charge_storage e i rate = Inr (e', st, evs)" "0 \<le> ival rate" for i
    by (rule charge_storage_wf(2) [OF that(3,4,1,2)])
  show "wf e \<Longrightarrow> add_account e i cash position = Inr e' \<Longrightarrow> wf e'" for i by (rule add_account_wf(1))
  show "wf e \<Longrightarrow> reserved_ok e \<Longrightarrow> add_account e i cash position = Inr e' \<Longrightarrow> reserved_ok e'" for i
    by (rule add_account_wf(2))
qed

lemma totals_frame:
  assumes "e_accounts e' = e_accounts e"
  shows "total_cash e' = total_cash e" "total_position e' = total_position e"
  using assms by (simp_all add: total_cash_def total_position_def)

lemma totals_reconcile:
  assumes r: "reconcile_reservations e = Inr e'"
  shows "total_cash e' = total_cash e" "total_position e' = total_position e"
proof -
  have "ac_cash (the (fmlookup (e_accounts e') i)) = ac_cash (the (fmlookup (e_accounts e) i)) \<and>
      ac_position (the (fmlookup (e_accounts e') i)) = ac_position (the (fmlookup (e_accounts e) i))"
    if "i |\<in>| fmdom (e_accounts e)" for i
    using that reconcile_keeps(6) [OF r, of i] by (auto simp: fmlookup_dom_iff)
  then show "total_cash e' = total_cash e" "total_position e' = total_position e"
    unfolding total_cash_def total_position_def reconcile_keeps(5) [OF r]
    by (auto intro!: sum.cong)
qed

interpretation conserve: trading "\<lambda>e. wf e \<and> total_cash e = K \<and> total_position e = M" reserved_ok for K M
proof unfold_locales
  fix e e' :: engine and i bo policy b rp ts
  let ?P = "\<lambda>e. wf e \<and> total_cash e = K \<and> total_position e = M"
  show "?P e \<Longrightarrow> wf e" by simp
  show "?P e \<Longrightarrow> same_core e e' \<Longrightarrow> 0 < ival (e_mark e') \<Longrightarrow> ?P e'"
    using inv.P_frame totals_frame [of e' e] by (auto simp: same_core_def)
  show "reserved_ok e \<Longrightarrow> same_core e e' \<Longrightarrow> reserved_ok e'" by (rule inv.Q_frame)
  show "?P e'" if P: "?P e" and s: "submit_public (e_book e) bo policy = Inr (b, rp)" "known e (bo_owner bo)"
    "settle_report (e\<lparr>e_book := b\<rparr>) rp = Inr (e', ts)"
  proof -
    note ok = submit_book_wf [OF _ s(1,2)]
    show ?thesis
      using settle_wf [OF ok(1) s(3)] ok(2) P totals_frame [of "e\<lparr>e_book := b\<rparr>" e] by simp
  qed
  show "?P e \<Longrightarrow> ?P (e\<lparr>e_book := remove_order (e_book e) i\<rparr>)" for i
    using inv.P_remove [of e i] totals_frame [of "e\<lparr>e_book := remove_order (e_book e) i\<rparr>" e] by simp
  show "?P e \<Longrightarrow> reconcile_reservations e = Inr e' \<Longrightarrow> ?P e'"
    using reconcile_wf totals_reconcile by simp
  show "reconcile_reservations e = Inr e' \<Longrightarrow> reserved_ok e'" by (rule reconcile_reserved_ok)
qed

subsection \<open>Transactions\<close>

lemma clone_engine_id: "wf e \<Longrightarrow> clone_engine e = Inr e"
  by (simp add: clone_engine_def wf_def clone_book_id fmap_of_sorted_list)

text \<open>What a call leaves: it returns, and the engine satisfies \<open>R\<close>.\<close>

definition returns :: "(engine \<Rightarrow> bool) \<Rightarrow> outcome \<Rightarrow> bool" where
  "returns R out \<longleftrightarrow> (case out of Inl _ \<Rightarrow> False | Inr (e, _) \<Rightarrow> R e)"

lemma returnsE:
  assumes "returns R out"
  obtains e r err where "out = Inr (e, r, err)" and "R e"
  using assms by (cases out) (auto simp: returns_def)

lemma returns_refuse: "known e player_account \<Longrightarrow> R e \<Longrightarrow> returns R (refuse e err)"
  by (auto simp: returns_def refuse_def state_of_def get_account_def fmlookup_dom_iff)

lemma returns_transact:
  assumes wf: "wf e" and R: "R e" and step: "gives (\<lambda>r. R (fst r)) (step e)"
  shows "returns R (transact e step)"
proof (cases "step e")
  case (Inl err)
  then show ?thesis
    using step returns_refuse [OF wf_known(1) [OF wf], of R err] R by (simp add: transact_def clone_engine_id [OF wf])
next
  case (Inr r)
  then show ?thesis
    using step by (cases r) (simp add: transact_def clone_engine_id [OF wf] returns_def)
qed

lemma returns_quit:
  assumes wf: "wf e" and R: "R e" and frame: "\<And>e'. quiet e e' \<Longrightarrow> R e'"
  shows "returns R (quit e)"
proof (cases "e_over e")
  case True
  then show ?thesis using returns_refuse [OF wf_known(1) [OF wf], of R] R by (simp add: quit_def)
next
  case False
  let ?e1 = "bump_version (e\<lparr>e_over := True, e_reason := PlayerQuit\<rparr>)"
  have "quiet e (fst (emit ?e1 ev))" for ev
    by (rule quiet_trans [of _ ?e1]) (simp_all add: quiet_def same_core_def bump_version_def)
  moreover have "known e player_account" by (rule wf_known(1) [OF wf])
  ultimately show ?thesis
    using False frame
    by (auto simp: quit_def returns_def case_prod_beta Let_def state_of_def get_account_def fmlookup_dom_iff
        bump_version_def)
qed

text \<open>A refused call leaves the engine exactly as it was.\<close>

lemma transact_error:
  assumes "transact e step = Inr (e', r, Some err)"
  shows "e' = e \<and> rs_events r = [] \<and> rs_ledger r = []"
  using assms by (auto simp: transact_def refuse_def result_of_def split: sum.splits if_splits prod.splits)

subsection \<open>Calls and reachable engines\<close>

text \<open>The calls of the venue; the server reaches the engine only through these.\<close>

inductive venue_call :: "engine \<Rightarrow> outcome \<Rightarrow> bool" where
  command: "venue_call e (execute e c)"
| quote: "venue_call e (update_quote e bid ask q)"
| arrival: "venue_call e (apply_customer_arrival e ca)"
| mark_move: "venue_call e (apply_mark_move e move)"
| carry: "venue_call e (apply_carry e rate)"
| expire: "venue_call e (expire_trading_day e)"
| quit_real_time: "venue_call e (quit_real_time e)"

text \<open>The calls that trade, and neither charge nor open an account.\<close>

inductive trading_call :: "engine \<Rightarrow> outcome \<Rightarrow> bool" where
  place: "trading_call e (place_order_cmd e i s p q f)"
| cancel: "trading_call e (cancel_order_cmd e i oid)"
| replace: "trading_call e (replace_order_cmd e i oid s p q f)"
| quote: "trading_call e (update_quote e bid ask q)"
| arrival: "trading_call e (apply_customer_arrival e ca)"
| mark_move: "trading_call e (apply_mark_move e move)"
| expire: "trading_call e (expire_trading_day e)"
| quit_real_time: "trading_call e (quit_real_time e)"
| quit: "trading_call e (quit e)"

inductive reachable :: "config \<Rightarrow> engine \<Rightarrow> bool" for cfg where
  start: "new_engine cfg = Inr e \<Longrightarrow> reachable cfg e"
| call: "reachable cfg e \<Longrightarrow> venue_call e (Inr (e', r, err)) \<Longrightarrow> reachable cfg e'"

context trading
begin

lemma trading_call_returns:
  assumes "P e" "Q e" "trading_call e out"
  shows "returns (\<lambda>e. P e \<and> Q e) out"
proof -
  have t: "stays (step e) \<Longrightarrow> returns (\<lambda>e. P e \<and> Q e) (transact e step)" for step
    using assms(1,2) by (intro returns_transact [OF P_wf]) auto
  from assms(3) show ?thesis
  proof cases
    case quit
    show ?thesis
      unfolding quit(1) by (rule returns_quit [OF P_wf]) (use assms P_quiet Q_quiet in auto)
  qed (simp_all add: place_order_cmd_def cancel_order_cmd_def replace_order_cmd_def update_quote_def
      apply_customer_arrival_def apply_mark_move_def expire_trading_day_def quit_real_time_def t assms
      stays_place_limit stays_cancel_limit stays_replace_limit stays_update_quote
      stays_customer_arrival stays_mark_move stays_expire)
qed

end

context venue
begin

lemma venue_call_returns:
  assumes "P e" "Q e" "venue_call e out"
  shows "returns (\<lambda>e. P e \<and> Q e) out"
proof -
  have t: "stays (step e) \<Longrightarrow> returns (\<lambda>e. P e \<and> Q e) (transact e step)" for step
    using assms(1,2) by (intro returns_transact [OF P_wf]) auto
  note trade = trading_call_returns [OF assms(1,2)]
  from assms(3) show ?thesis
  proof cases
    case (command c)
    show ?thesis
      unfolding command execute_def submit_quote_cmd_def open_account_cmd_def
      using assms(1,2)
      by (auto simp: t stays_submit_quote stays_open returns_refuse player_known intro: trade trading_call.intros)
  next
    case (carry rate)
    show ?thesis unfolding carry apply_carry_def by (rule t) (rule stays_carry [OF assms(1,2)])
  qed (auto intro: trade trading_call.intros)
qed

end

text \<open>A new engine is well-formed: its only entry is the player's opening.\<close>

lemma new_ledger_bal: "cash_bal new_ledger a = 0" "inst_bal new_ledger a = 0"
  by (simp_all add: cash_bal_def inst_bal_def ledger_balance_def new_ledger_def balance_in_def)

lemma new_engine_state:
  assumes "new_engine cfg = Inr e"
  shows "e_cfg e = cfg" "e_book e = new_book" "e_mark e = cf_mark cfg" "e_over e = False"
    "fmlookup (e_accounts e) i = (if i = player_account then Some (new_account i (cf_cash cfg) (cf_position cfg))
      else if i = flow_account then Some ((new_account i 0 0)\<lparr>ac_external := True\<rparr>) else None)"
proof -
  from assms have p: "post_opening (initial_engine cfg) player_account (cf_cash cfg) (cf_position cfg) = Inr e"
    by (auto simp: new_engine_def)
  note o = opening_bal [OF p]
  show "e_cfg e = cfg" "e_book e = new_book" "e_mark e = cf_mark cfg" "e_over e = False"
    using o(1,7,8) by (simp_all add: same_core_def initial_engine_def)
  show "fmlookup (e_accounts e) i = (if i = player_account then Some (new_account i (cf_cash cfg) (cf_position cfg))
      else if i = flow_account then Some ((new_account i 0 0)\<lparr>ac_external := True\<rparr>) else None)"
    using o(1) by (simp add: same_core_def initial_engine_def)
qed

lemma new_engine_good:
  assumes "new_engine cfg = Inr e"
  shows "wf e" "reserved_ok e" "e_cfg e = cfg"
proof -
  let ?e0 = "initial_engine cfg"
  from assms have cfg: "validate_config cfg = Inr ()"
    and p: "post_opening ?e0 player_account (cf_cash cfg) (cf_position cfg) = Inr e"
    by (auto simp: new_engine_def)
  note o = opening_bal [OF p]
  have core: "e_accounts e = e_accounts ?e0" "e_book e = new_book" "e_cfg e = cfg" "e_ledger ?e0 = new_ledger"
    "e_mark e = cf_mark cfg"
    using o(1,7) by (simp_all add: same_core_def initial_engine_def)
  have acc: "fmlookup (e_accounts e) i = (if i = player_account then Some (new_account i (cf_cash cfg) (cf_position cfg))
      else if i = flow_account then Some ((new_account i 0 0)\<lparr>ac_external := True\<rparr>) else None)" for i
    by (auto simp: core(1) initial_engine_def)
  have "projects (e_ledger e) i (fmlookup (e_accounts e) i)" for i
    unfolding acc using o(3-6) by (simp add: core new_ledger_bal projects_def new_account_def)
  moreover have "accounts_ok e"
    by (auto simp: accounts_ok_def acc fmlookup_dom_iff new_account_def split: if_splits)
  moreover have "ledger_inv (e_ledger e)" using o(2) core(4) ledger_inv_new by simp
  ultimately show "wf e"
    using cfg validate_configD(2) [OF cfg] book_inv_new
    by (simp add: wf_def core projection_def owners_known_def uncrossed_def)
  show "reserved_ok e"
    by (auto simp: reserved_ok_def acc core(2) new_account_def want_cash_def want_buy_def want_sell_def split: if_splits)
  show "e_cfg e = cfg" by (rule core)
qed

lemma reachable_good: "reachable cfg e \<Longrightarrow> wf e \<and> reserved_ok e"
proof (induction rule: reachable.induct)
  case (start e)
  then show ?case using new_engine_good by blast
next
  case (call e e' r err)
  then show ?case using inv.venue_call_returns [of e "Inr (e', r, err)"] by (auto simp: returns_def)
qed

lemma venue_call_reaches:
  assumes r: "reachable cfg e" and c: "venue_call e out"
  obtains e' r err where "out = Inr (e', r, err)" and "reachable cfg e'"
proof -
  have "returns (\<lambda>e. wf e \<and> reserved_ok e) out"
    using reachable_good [OF r] c by (intro inv.venue_call_returns) auto
  then obtain e' r' err where "out = Inr (e', r', err)" by (elim returnsE)
  then show thesis using that reachable.call [OF r] c by simp
qed

subsection \<open>Refusals\<close>

lemma refuse_error: "refuse e err' = Inr (e', r, Some err) \<Longrightarrow> e' = e \<and> rs_events r = [] \<and> rs_ledger r = []"
  by (auto simp: refuse_def result_of_def)

lemma quit_error: "quit e = Inr (e', r, Some err) \<Longrightarrow> e' = e \<and> rs_events r = [] \<and> rs_ledger r = []"
  by (auto simp: quit_def case_prod_beta Let_def dest: refuse_error split: if_splits)

lemmas call_defs = update_quote_def apply_customer_arrival_def apply_mark_move_def apply_carry_def
  expire_trading_day_def quit_real_time_def submit_quote_cmd_def open_account_cmd_def place_order_cmd_def
  cancel_order_cmd_def replace_order_cmd_def

lemma venue_call_error:
  assumes "venue_call e (Inr (e', r, Some err))"
  shows "e' = e \<and> rs_events r = [] \<and> rs_ledger r = []"
  using assms
proof cases
  case (command c)
  then show ?thesis
    by (auto simp: execute_def call_defs dest!: sym [of "Inr _"] dest: transact_error refuse_error quit_error
        split: if_splits)
qed (auto simp: call_defs dest!: sym [of "Inr _"] dest: transact_error)

definition refused :: "outcome \<Rightarrow> bool" where
  "refused out \<longleftrightarrow> (case out of Inl _ \<Rightarrow> True | Inr (_, _, err) \<Rightarrow> err \<noteq> None)"

lemma refused_refuse: "refused (refuse e err)"
  by (cases "state_of e") (auto simp: refused_def refuse_def)

lemma refused_transact: "wf e \<Longrightarrow> isl (step e) \<Longrightarrow> refused (transact e step)"
  using refused_refuse by (cases "step e") (auto simp: transact_def clone_engine_id, simp add: refused_def)

lemma over_steps:
  assumes "e_over e" and "known e player_account"
  shows "place_limit e i s p q f = fails ''game is over''" "cancel_limit e i oid = fails ''game is over''"
    "replace_limit e i oid s p q f = fails ''game is over''" "open_account e i cash position = fails ''game is over''"
    "customer_arrival_step ca e = fails ''game is over''" "mark_move_step move e = fails ''game is over''"
    "carry_step rate e = fails ''game is over''" "expire_step reason e = fails ''game is over''"
    "isl (update_quote_step bid ask q e)" "isl (submit_quote_step bid ask e)"
  using assms
  by (simp_all add: place_limit_def cancel_limit_def replace_limit_def open_account_def customer_arrival_step_def
      mark_move_step_def carry_step_def expire_step_def update_quote_step_def submit_quote_step_def
      submit_quote_v2_def submit_quote_legacy_def validate_player_quote_def Let_def guardE_def fails_def)

lemma over_refused:
  assumes over: "e_over e" and wf: "wf e" and call: "venue_call e out"
  shows "refused out"
proof -
  note steps = over_steps [OF over wf_known(1) [OF wf]]
  note t = refused_transact [OF wf]
  from call show ?thesis
  proof cases
    case (command c)
    have "refused (quit e)" by (simp add: quit_def over refused_refuse)
    then show ?thesis
      unfolding command execute_def call_defs
      by (simp add: t steps refused_refuse fails_def)
  qed (simp_all add: call_defs t steps fails_def)
qed

end
