(* ===== verification/Exchange_Properties.thy ===== *)
theory Exchange_Properties
  imports Exchange_Runs
begin

text \<open>
  What holds of the exchange engine on every run, and a concrete engine on which the theorems are
  exercised.
\<close>

subsection \<open>A sample engine\<close>

definition sample_cfg :: config where
  "sample_cfg = \<lparr>cf_instrument = ''X'', cf_cash = 1000000000000, cf_position = 100000, cf_mark = 1000000,
     cf_storage = 100, cf_turns = 10, cf_initial_bps = 1000, cf_maint_bps = 500, cf_max_position = 10000000,
     cf_max_orders = 3, cf_max_qty = 50000, cf_max_slip = 100, cf_min_move = -100, cf_max_move = 100,
     cf_seed = 42, cf_version = 2, cf_informed = 3000\<rparr>"

definition sample_engine :: engine where
  "sample_engine = (case new_engine sample_cfg of Inl _ \<Rightarrow> initial_engine sample_cfg | Inr e \<Rightarrow> e)"

lemma sample_created: "new_engine sample_cfg = Inr sample_engine"
proof -
  have "\<not> isl (new_engine sample_cfg)" by code_simp
  then show ?thesis by (cases "new_engine sample_cfg") (auto simp: sample_engine_def)
qed

lemma sample_reachable: "reachable sample_cfg sample_engine"
  by (rule reachable.start [OF sample_created])

definition quit_command :: command where
  "quit_command = \<lparr>cm_id = ''c1'', cm_type = ''quit'', cm_version = 0, cm_account = '''', cm_bid = 0, cm_ask = 0,
     cm_side = Buy, cm_price = 0, cm_qty = 0, cm_tif = GTC, cm_order = 0, cm_cash = 0, cm_position = 0\<rparr>"

lemma sample_state:
  "e_cfg sample_engine = sample_cfg" "e_mark sample_engine = 1000000" "e_over sample_engine = False"
  "fmlookup (e_accounts sample_engine) player_account = Some (new_account player_account 1000000000000 100000)"
  using new_engine_state [OF sample_created] by (simp_all add: sample_cfg_def)

lemma sample_quote: "validate_real_time_quote sample_engine 999000 1001000 50000 = Inr ()"
proof -
  have "can_place_account sample_cfg 1000000 (new_account player_account 1000000000000 100000)
      [\<lparr>ro_side = Buy, ro_price = 999000, ro_qty = 50000\<rparr>, \<lparr>ro_side = Sell, ro_price = 1001000, ro_qty = 50000\<rparr>]"
    by code_simp
  moreover have "50000 \<le> cf_max_qty sample_cfg" by code_simp
  ultimately show ?thesis
    by (simp add: validate_real_time_quote_def validate_player_quote_def can_place_quote_pair_def
        can_place_orders_def risk_orders_def get_account_def positive_def i64_order sample_state)
qed

subsection \<open>The properties\<close>

text \<open>C3. The journal explains every balance. In every engine that any sequence of calls can lead to,
  the double-entry ledger is valid, and each account's cash, reserved cash, position and reserved
  position are exactly what the journal posted to its four ledger accounts; accounts the engine does
  not know have nothing posted.\<close>

theorem journal_explains_accounts:
  assumes "reachable cfg e"
  shows "ledger_inv (e_ledger e) \<and> projects (e_ledger e) i (fmlookup (e_accounts e) i)"
  using reachable_good [OF assms] by (simp add: wf_def projection_def)

theorem journal_explains_accounts_witness:
  "projects (e_ledger sample_engine) player_account (fmlookup (e_accounts sample_engine) player_account)"
  using journal_explains_accounts [OF sample_reachable] by simp

text \<open>C5. Reservations are exact. In every reachable engine, each player account's reserved cash is
  the exact sum of price times remaining quantity over its live buy orders, and its open buy and sell
  quantities are the exact sums of their remaining quantities.\<close>

theorem reservations_exact:
  assumes "reachable cfg e" and "fmlookup (e_accounts e) i = Some a" and "\<not> ac_external a"
  shows "ival (ac_reserved a) = want_cash (live (e_book e)) i \<and>
    ival (ac_open_buy a) = want_buy (live (e_book e)) i \<and>
    ival (ac_open_sell a) = want_sell (live (e_book e)) i"
  using reachable_good [OF assms(1)] assms(2,3) unfolding reserved_ok_def by blast

theorem reservations_exact_witness:
  "\<exists>e r err a. update_quote sample_engine 999000 1001000 50000 = Inr (e, r, err) \<and>
     fmlookup (e_accounts e) player_account = Some a \<and>
     ival (ac_reserved a) = want_cash (live (e_book e)) player_account"
proof -
  obtain e r err where c: "update_quote sample_engine 999000 1001000 50000 = Inr (e, r, err)"
    and reach: "reachable sample_cfg e"
    by (rule venue_call_reaches [OF sample_reachable venue_call.quote])
  obtain a where a: "fmlookup (e_accounts e) player_account = Some a" "\<not> ac_external a"
    using reachable_good [OF reach] wf_player by blast
  show ?thesis using c a(1) reservations_exact [OF reach a] by blast
qed

text \<open>C2. The venue never crosses and never panics. Every call on a reachable engine returns (a
  result or an ordinary error, never a run-time panic), leaves again a reachable engine, and in every
  such engine no resting bid is at or above a resting ask and every resting order belongs to a known
  account.\<close>

theorem calls_return:
  assumes "reachable cfg e" and "venue_call e out"
  shows "case out of Inl _ \<Rightarrow> False
    | Inr (e', r, err) \<Rightarrow> reachable cfg e' \<and> uncrossed (live (e_book e')) \<and> owners_known e'"
proof (rule venue_call_reaches [OF assms])
  fix e' r err assume "out = Inr (e', r, err)" and "reachable cfg e'"
  then show ?thesis using reachable_good [of cfg e'] by (simp add: wf_def)
qed

theorem calls_return_witness:
  "case update_quote sample_engine 999000 1001000 50000 of Inl _ \<Rightarrow> False
   | Inr (e', r, err) \<Rightarrow> reachable sample_cfg e' \<and> uncrossed (live (e_book e')) \<and> owners_known e'"
  by (rule calls_return [OF sample_reachable venue_call.quote])

text \<open>C4. Trading creates and destroys nothing. Placing, canceling and replacing orders, quoting,
  customer arrivals, mark moves and the end of the session keep the total cash and the total position
  over all accounts, the liquidity provider's included.\<close>

theorem trading_conserves:
  assumes "reachable cfg e" and "trading_call e (Inr (e', r, err))"
  shows "total_cash e' = total_cash e \<and> total_position e' = total_position e"
proof -
  have "wf e \<and> total_cash e = total_cash e \<and> total_position e = total_position e" "reserved_ok e"
    using reachable_good [OF assms(1)] by simp_all
  from conserve.trading_call_returns [OF this assms(2)] show ?thesis by (simp add: returns_def)
qed

theorem trading_conserves_witness:
  "\<exists>e r err. apply_customer_arrival sample_engine
       \<lparr>ca_side = Buy, ca_qty = 100, ca_slip = 10, ca_informed = False, ca_mark = 0\<rparr> = Inr (e, r, err) \<and>
     total_cash e = total_cash sample_engine"
proof -
  let ?ca = "\<lparr>ca_side = Buy, ca_qty = 100, ca_slip = 10, ca_informed = False, ca_mark = 0\<rparr>"
  obtain e r err where c: "apply_customer_arrival sample_engine ?ca = Inr (e, r, err)"
    by (rule venue_call_reaches [OF sample_reachable venue_call.arrival])
  have "trading_call sample_engine (Inr (e, r, err))" using trading_call.arrival [of sample_engine ?ca] c by simp
  then show ?thesis using c trading_conserves [OF sample_reachable] by blast
qed



text \<open>C8. A finished session is final. Once a reachable engine is over, every call of the venue,
  whatever its arguments, is refused with an error and leaves the engine exactly as it is.\<close>

theorem game_over_is_final:
  assumes "reachable cfg e" and "e_over e" and "venue_call e (Inr (e', r, err))"
  shows "e' = e \<and> err \<noteq> None"
proof -
  have wf: "wf e" using reachable_good [OF assms(1)] by simp
  obtain x where "err = Some x"
    using over_refused [OF assms(2) wf assms(3)] by (auto simp: refused_def)
  then show ?thesis using venue_call_error assms(3) by blast
qed

theorem game_over_is_final_witness:
  "\<exists>e r err. reachable sample_cfg e \<and> e_over e \<and> apply_mark_move e 10 = Inr (e, r, Some err)"
proof -
  have "execute sample_engine quit_command = quit sample_engine"
    by (simp add: execute_def quit_command_def)
  then obtain e r err where e: "quit sample_engine = Inr (e, r, err)" "reachable sample_cfg e"
    using venue_call_reaches [OF sample_reachable venue_call.command] by metis
  then have over: "e_over e"
    by (auto simp: quit_def sample_state case_prod_beta Let_def emit_def bump_version_def)
  obtain e' r' err' where c: "apply_mark_move e 10 = Inr (e', r', err')"
    by (rule venue_call_reaches [OF e(2) venue_call.mark_move])
  have "e' = e \<and> err' \<noteq> None"
    using game_over_is_final [OF e(2) over, of e' r' err'] venue_call.mark_move [of e 10] c by simp
  then show ?thesis using e(2) over c by auto
qed

text \<open>C6. An accepted quote is safe. When the engine accepts a two-sided quote, then whatever part
  \<open>b\<close> of the bid and \<open>s\<close> of the ask is filled at the quoted prices, in exact arithmetic, the player's
  position stays within the limit, the cash does not become negative, and at the current mark the
  equity covers the initial margin.\<close>

theorem accepted_quote_is_safe:
  assumes "reachable cfg e" and "validate_real_time_quote e bid ask q = Inr ()"
    and "fmlookup (e_accounts e) player_account = Some a"
    and "0 \<le> b" "b \<le> ival q" "0 \<le> s" "s \<le> ival q"
  shows "\<bar>ival (ac_position a) + b - s\<bar> \<le> ival (cf_max_position (e_cfg e)) \<and>
    0 \<le> ival (ac_cash a) - ival bid * b + ival ask * s \<and>
    margin_met (cf_initial_bps (e_cfg e))
      (ival (ac_cash a) - ival bid * b + ival ask * s + ival (e_mark e) * (ival (ac_position a) + b - s))
      (ival (e_mark e) * \<bar>ival (ac_position a) + b - s\<bar>)"
proof -
  have wf: "wf e" using reachable_good [OF assms(1)] by simp
  have ext: "\<not> ac_external a" and mark: "0 \<le> ival (e_mark e)"
    using wf assms(3) by (auto simp: wf_def accounts_ok_def)
  from assms(2) have ok: "can_place_account (e_cfg e) (e_mark e) a
      [\<lparr>ro_side = Buy, ro_price = bid, ro_qty = q\<rparr>, \<lparr>ro_side = Sell, ro_price = ask, ro_qty = q\<rparr>]"
    and quote: "0 < ival bid" "ival bid < ival ask" "0 < ival q"
    using assms(3)
    by (auto simp: validate_real_time_quote_def validate_player_quote_def can_place_quote_pair_def
        can_place_orders_def risk_orders_def get_account_def positive_def i64_order)
  show ?thesis
    using quote_pair_safe [OF ok ext mark quote assms(4-7)] by simp
qed

theorem accepted_quote_is_safe_witness:
  "0 \<le> ival (1000000000000 :: i64) - ival 999000 * 50000 + ival (1001000 :: i64) * 20000 \<and>
   \<bar>ival (100000 :: i64) + 50000 - 20000\<bar> \<le> ival (cf_max_position sample_cfg)"
  using accepted_quote_is_safe [OF sample_reachable sample_quote sample_state(4), of 50000 20000]
  by (simp add: sample_state new_account_def)

end
