(* ===== verification/Realtime_Action.thy ===== *)
theory Realtime_Action
  imports Fixed Decimal
begin

text \<open>
  Actions of a real-time session (\<^verbatim>\<open>internal/realtime/action.go\<close>, \<^verbatim>\<open>exchange.go\<close>,
  \<^verbatim>\<open>generator.go\<close> and \<^verbatim>\<open>sequencer.go\<close>): their payloads, their kinds and sources, and the
  validation that every path into the sequencer goes through. The dynamic type of a payload
  (\<^verbatim>\<open>any\<close>) is the constructor of \<open>payload\<close>. Durations are \<open>i64\<close> nanoseconds.
\<close>

type_synonym duration = i64

datatype source = SystemSource | ParticipantSource | OtherSource string

datatype pause_reason = PausePlayer | PauseShutdown | PauseRecovery | OtherPause string

record arrival_payload =
  ap_buy :: bool
  ap_qty :: qty
  ap_slip :: i64
  ap_draw :: u64
  ap_has_mark :: bool
  ap_move :: i64

record quote_payload =
  qp_bid :: price
  qp_ask :: price
  qp_revision :: "u64 option"

datatype payload =
    NoPayload
  | StartSession price price
  | CountdownComplete price price
  | PauseSession pause_reason
  | UpdateQuote quote_payload
  | CustomerArrival arrival_payload
  | MarkMove i64
  | OtherPayload string

record action =
  an_id :: string
  an_kind :: string
  an_source :: source
  an_payload :: payload

record scheduled_action =
  sa_due :: duration
  sa_action :: action

subsection \<open>Kinds\<close>

definition action_start :: string where "action_start = ''start_session''"
definition action_countdown :: string where "action_countdown = ''countdown_complete''"
definition action_pause :: string where "action_pause = ''pause_session''"
definition action_resume :: string where "action_resume = ''resume_session''"
definition action_quit :: string where "action_quit = ''quit''"
definition action_update_quote :: string where "action_update_quote = ''update_quote''"
definition action_arrival :: string where "action_arrival = ''customer_arrival''"
definition action_mark_move :: string where "action_mark_move = ''mark_move''"
definition action_carry :: string where "action_carry = ''carry_charge''"
definition action_expired :: string where "action_expired = ''time_expired''"
definition system_prefix :: string where "system_prefix = ''system/''"

lemmas action_kinds = action_start_def action_countdown_def action_pause_def action_resume_def
  action_quit_def action_update_quote_def action_arrival_def action_mark_move_def action_carry_def
  action_expired_def

subsection \<open>Validation\<close>

definition source_text :: "source \<Rightarrow> string" where
  "source_text s = (case s of SystemSource \<Rightarrow> ''system'' | ParticipantSource \<Rightarrow> ''participant'' | OtherSource t \<Rightarrow> t)"

definition has_prefix :: "string \<Rightarrow> string \<Rightarrow> bool" where
  "has_prefix s p \<longleftrightarrow> take (length p) s = p"

definition validate_action :: "action \<Rightarrow> source \<Rightarrow> unit res" where
  "validate_action a src =
     guardE (an_id a = '''' \<or> an_kind a = '''') ''action id and kind are required''
     (if an_source a \<noteq> src then Inl (Errorf ''action source must be %q'' [source_text src])
      else guardE (src = ParticipantSource \<and> has_prefix (an_id a) system_prefix)
        ''participant action id uses the reserved system namespace'' (Inr ()))"

definition validate_reason :: "pause_reason \<Rightarrow> unit res" where
  "validate_reason r =
     (case r of OtherPause _ \<Rightarrow> fails ''invalid pause reason'' | _ \<Rightarrow> Inr ())"

definition validate_durable_pause :: "source \<Rightarrow> pause_reason \<Rightarrow> unit res" where
  "validate_durable_pause src r =
     bindE (validate_reason r) (\<lambda>_.
     case src of
       ParticipantSource \<Rightarrow> guardE (r \<noteq> PausePlayer) ''participant pause must use player reason'' (Inr ())
     | SystemSource \<Rightarrow> guardE (r \<noteq> PauseShutdown \<and> r \<noteq> PauseRecovery)
         ''system pause must use shutdown or recovery reason'' (Inr ())
     | OtherSource _ \<Rightarrow> fails ''invalid action source'')"

definition validate_payload_type :: "action \<Rightarrow> unit res" where
  "validate_payload_type a =
     (let participant = (an_source a = ParticipantSource); system = (an_source a = SystemSource);
          empty = (an_payload a = NoPayload)
      in
      if an_kind a = action_start
      then guardE (\<not> participant) ''start action must come from a participant''
        (case an_payload a of StartSession _ _ \<Rightarrow> Inr () | _ \<Rightarrow> fails ''invalid start action payload'')
      else if an_kind a = action_countdown
      then guardE (\<not> system) ''countdown action is invalid''
        (case an_payload a of NoPayload \<Rightarrow> Inr () | CountdownComplete _ _ \<Rightarrow> Inr ()
         | _ \<Rightarrow> fails ''invalid countdown action payload'')
      else if an_kind a = action_pause
      then (case an_payload a of PauseSession r \<Rightarrow> validate_durable_pause (an_source a) r
            | _ \<Rightarrow> fails ''invalid pause action payload'')
      else if an_kind a = action_resume
      then guardE (\<not> participant \<or> \<not> empty) ''resume action is invalid'' (Inr ())
      else if an_kind a = action_quit
      then guardE (\<not> participant \<or> \<not> empty) ''quit action is invalid'' (Inr ())
      else if an_kind a = action_update_quote
      then guardE (\<not> participant) ''quote action must come from a participant''
        (case an_payload a of UpdateQuote _ \<Rightarrow> Inr () | _ \<Rightarrow> fails ''invalid quote action payload'')
      else if an_kind a = action_arrival
      then guardE (\<not> system) ''customer action must come from the system''
        (case an_payload a of CustomerArrival _ \<Rightarrow> Inr () | _ \<Rightarrow> fails ''invalid customer action payload'')
      else if an_kind a = action_mark_move
      then guardE (\<not> system) ''mark action must come from the system''
        (case an_payload a of MarkMove _ \<Rightarrow> Inr () | _ \<Rightarrow> fails ''invalid mark action payload'')
      else if an_kind a = action_carry \<or> an_kind a = action_expired
      then guardE (\<not> system \<or> \<not> empty) ''payload-free action is invalid'' (Inr ())
      else fails ''unsupported durable action kind'')"

text \<open>The payload has been checked to be a pause payload; another type panics in the assertion.\<close>

definition validate_pause_source_reason :: "action \<Rightarrow> unit res" where
  "validate_pause_source_reason a =
     (case an_payload a of
        PauseSession r \<Rightarrow>
          guardE (an_source a = ParticipantSource \<and> r \<noteq> PausePlayer)
            ''participant pause reason must be player''
         (guardE (an_source a = SystemSource \<and> r \<noteq> PauseShutdown \<and> r \<noteq> PauseRecovery)
            ''system pause reason must be shutdown or recovery'' (Inr ()))
      | _ \<Rightarrow> panics ''interface conversion'')"

definition validate_lifecycle_action :: "action \<Rightarrow> string \<Rightarrow> bool \<Rightarrow> unit res" where
  "validate_lifecycle_action a kind allow_system =
     (if an_kind a \<noteq> kind then Inl (Errorf ''lifecycle action kind must be %q'' [kind])
      else if an_source a = SystemSource \<and> allow_system
      then bindE (validate_action a SystemSource) (\<lambda>_.
           bindE (validate_payload_type a) (\<lambda>_. validate_pause_source_reason a))
      else bindE (validate_action a ParticipantSource) (\<lambda>_.
           bindE (validate_payload_type a) (\<lambda>_.
           if kind = action_pause then validate_pause_source_reason a else Inr ())))"

definition validate_scheduled_action :: "scheduled_action \<Rightarrow> unit res" where
  "validate_scheduled_action s =
     guardE (sa_due s < 0) ''scheduled time must be non-negative''
       (validate_action (sa_action s) SystemSource)"

subsection \<open>What validation gives\<close>

lemma validate_actionD:
  assumes "validate_action a src = Inr ()"
  shows "an_id a \<noteq> ''''" "an_kind a \<noteq> ''''" "an_source a = src"
    "src = ParticipantSource \<Longrightarrow> \<not> has_prefix (an_id a) system_prefix"
  using assms by (auto simp: validate_action_def split: if_splits)

text \<open>The pause path is the only one that admits a system source, and it never meets another
  payload type: its assertion cannot panic.\<close>

lemma pause_payload:
  assumes "validate_payload_type a = Inr ()" and "an_kind a = action_pause"
  obtains r where "an_payload a = PauseSession r" and "validate_durable_pause (an_source a) r = Inr ()"
  using assms
  by (auto simp: validate_payload_type_def Let_def action_kinds split: payload.splits)

end
