(* ===== verification/Sequencer_Data.thy ===== *)
theory Sequencer_Data
  imports Realtime_Action
begin

text \<open>
  The values that cross the sequencer's interfaces (\<^verbatim>\<open>internal/realtime/sequencer.go\<close>): what an
  executor answers, what an execution records, and the repair of malformed answers. The dynamic
  value of a result (\<^verbatim>\<open>any\<close>) has the type \<open>'r\<close>; \<open>None\<close> is \<^verbatim>\<open>nil\<close>.
\<close>

datatype disposition = DispContinue | DispComplete | DispReject | DispFail | OtherDisp string

record 'r reply_of =
  oc_result :: "'r option"
  oc_disp :: disposition
  oc_err :: "go_error option"

record 'r execution =
  ex_seq :: u64
  ex_elapsed :: duration
  ex_action :: action
  ex_result :: "'r option"
  ex_disp :: disposition
  ex_err :: "go_error option"
  ex_replayed :: bool

datatype status =
    Preparing | Countdown | Running | Paused | Completed | Failed | Closed | OtherStatus string

record snapshot_of =
  sn_status :: status
  sn_elapsed :: duration
  sn_next :: u64
  sn_sequence :: u64
  sn_failure :: "go_error option"

record checkpoint =
  cp_status :: status
  cp_elapsed :: duration
  cp_next :: u64
  cp_sequence :: u64

definition normalize_outcome :: "'r reply_of \<Rightarrow> 'r reply_of" where
  "normalize_outcome out =
     (let failed = (\<lambda>msg. out\<lparr>oc_disp := DispFail, oc_err := Some (ErrorsNew msg)\<rparr>) in
      case oc_disp out of
        DispContinue \<Rightarrow> if oc_err out \<noteq> None then failed ''successful executor outcome contains an error'' else out
      | DispComplete \<Rightarrow> if oc_err out \<noteq> None then failed ''successful executor outcome contains an error'' else out
      | DispReject \<Rightarrow> if oc_err out = None then failed ''failed executor outcome is missing an error'' else out
      | DispFail \<Rightarrow> if oc_err out = None then failed ''failed executor outcome is missing an error'' else out
      | OtherDisp _ \<Rightarrow> failed ''executor returned an invalid disposition'')"

definition normalize_execution :: "'r execution \<Rightarrow> 'r execution" where
  "normalize_execution x =
     (let out = normalize_outcome \<lparr>oc_result = ex_result x, oc_disp = ex_disp x, oc_err = ex_err x\<rparr> in
      x\<lparr>ex_result := oc_result out, ex_disp := oc_disp out, ex_err := oc_err out\<rparr>)"

definition status_text :: "status \<Rightarrow> string" where
  "status_text s = (case s of
     Preparing \<Rightarrow> ''preparing'' | Countdown \<Rightarrow> ''countdown'' | Running \<Rightarrow> ''running'' | Paused \<Rightarrow> ''paused''
   | Completed \<Rightarrow> ''completed'' | Failed \<Rightarrow> ''failed'' | Closed \<Rightarrow> ''closed'' | OtherStatus t \<Rightarrow> t)"

definition validate_checkpoint :: "checkpoint \<Rightarrow> unit res" where
  "validate_checkpoint c =
     guardE (cp_elapsed c < 0) ''checkpoint elapsed time must be non-negative''
    (guardE (cp_next c > cp_sequence c) ''checkpoint next scheduled exceeds sequence''
    (case cp_status c of
       Preparing \<Rightarrow> guardE (cp_elapsed c \<noteq> 0 \<or> cp_next c \<noteq> 0 \<or> cp_sequence c \<noteq> 0)
         ''preparing checkpoint must be empty'' (Inr ())
     | Paused \<Rightarrow> Inr ()
     | Completed \<Rightarrow> guardE (cp_sequence c = 0) ''completed checkpoint must have executed an action'' (Inr ())
     | _ \<Rightarrow> Inl (Errorf ''checkpoint status %q cannot be restored'' [status_text (cp_status c)])))"

text \<open>A well-formed answer: a success has no error and a failure has one.\<close>

definition well_formed_outcome :: "disposition \<Rightarrow> go_error option \<Rightarrow> bool" where
  "well_formed_outcome d err \<longleftrightarrow>
     (case d of DispContinue \<Rightarrow> err = None | DispComplete \<Rightarrow> err = None
      | DispReject \<Rightarrow> err \<noteq> None | DispFail \<Rightarrow> err \<noteq> None | OtherDisp _ \<Rightarrow> False)"

lemma normalize_outcome_ok [simp]:
  "well_formed_outcome (oc_disp (normalize_outcome out)) (oc_err (normalize_outcome out))"
  by (auto simp: normalize_outcome_def well_formed_outcome_def Let_def split: disposition.splits)

lemma normalize_outcome_id: "well_formed_outcome (oc_disp out) (oc_err out) \<Longrightarrow> normalize_outcome out = out"
  by (auto simp: normalize_outcome_def well_formed_outcome_def Let_def split: disposition.splits)

lemma normalize_execution_ok [simp]:
  "well_formed_outcome (ex_disp (normalize_execution x)) (ex_err (normalize_execution x))"
  by (simp add: normalize_execution_def Let_def)

lemma normalize_outcome_idem [simp]: "normalize_outcome (normalize_outcome out) = normalize_outcome out"
  by (rule normalize_outcome_id) simp

end
