(* ===== verification/Sequencer.thy ===== *)
theory Sequencer
  imports Sequencer_Data "HOL-Library.FSet"
begin

text \<open>
  The sequencer of a real-time session (\<^verbatim>\<open>internal/realtime/sequencer.go\<close>): the local state of
  \<^verbatim>\<open>run\<close> and the closures it calls. Everything the sequencer calls - schedule, executor, replay
  lookup, clock, timers, action factory - is a field of \<open>platform\<close>, a function on a world of type
  \<open>'w\<close> that its callees share and that each call may change. A call that panics answers \<open>Inl (Panic _)\<close>;
  the sequencer recovers it, as the code does. Instants are integers (nanoseconds), durations are
  64-bit, and \<^verbatim>\<open>Time.Sub\<close> saturates.

  A step is a function from the state to a value and the state after it. Only the loop over due
  actions may run forever: it is a partial function, and so is what calls it.
\<close>

subsection \<open>What the sequencer is given\<close>

type_synonym instant = int

record ('w, 'r) platform =
  pf_next :: "'w \<Rightarrow> scheduled_action option res \<times> 'w"
  pf_commit :: "scheduled_action \<Rightarrow> 'w \<Rightarrow> unit res \<times> 'w"
  pf_execute :: "action \<Rightarrow> duration \<Rightarrow> 'w \<Rightarrow> 'r reply_of res \<times> 'w"
  pf_replay :: "(action \<Rightarrow> 'w \<Rightarrow> 'r execution option res \<times> 'w) option"
  pf_now :: "'w \<Rightarrow> instant res \<times> 'w"
  pf_timer :: "duration \<Rightarrow> 'w \<Rightarrow> nat option res \<times> 'w"
  pf_channel :: "nat \<Rightarrow> 'w \<Rightarrow> bool res \<times> 'w"
  pf_stop :: "nat \<Rightarrow> 'w \<Rightarrow> unit res \<times> 'w"
  pf_countdown :: duration
  pf_countdown_action :: "(action \<Rightarrow> 'w \<Rightarrow> action res \<times> 'w) option"
  pf_durable :: bool

datatype request_kind =
    ReqStart | ReqStartAction | ReqSubmit | ReqPause | ReqPauseAction | ReqResume | ReqResumeAction
  | ReqCompleteAction | ReqView | ReqSnapshot | ReqClose

record ('w, 'r) request =
  rq_kind :: request_kind
  rq_received :: instant
  rq_action :: action
  rq_project :: "'w \<Rightarrow> 'r res"

text \<open>A projector builds a read model: it reads the world and leaves it as it is.\<close>

text \<open>A field that the code leaves at its zero value is \<open>None\<close>.\<close>

record 'r response =
  rp_execution :: "'r execution option"
  rp_snapshot :: "snapshot_of option"
  rp_view :: "(snapshot_of \<times> 'r) option"
  rp_err :: "go_error option"

record ('w, 'r) sequencer =
  sq_status :: status
  sq_elapsed :: duration
  sq_anchor :: instant
  sq_next :: u64
  sq_sequence :: u64
  sq_failure :: "go_error option"
  sq_timer :: "nat option"
  sq_candidate :: "scheduled_action option"
  sq_last_due :: duration
  sq_ids :: "string fset"
  sq_start :: action
  sq_countdown_anchor :: instant
  sq_accepting :: bool
  sq_pending :: "('w, 'r) request list"
  sq_world :: 'w

definition err_closed :: go_error where "err_closed = ErrorsNew ''sequencer is closed''"
definition err_failed :: string where "err_failed = ''sequencer has failed''"
definition err_invalid_state :: go_error where
  "err_invalid_state = ErrorsNew ''sequencer lifecycle transition is invalid''"

definition zero_action :: action where
  "zero_action = \<lparr>an_id = '''', an_kind = '''', an_source = OtherSource '''', an_payload = NoPayload\<rparr>"

text \<open>\<^verbatim>\<open>errors.Join(ErrFailed, failure)\<close>.\<close>

definition join_failed :: "go_error option \<Rightarrow> go_error" where
  "join_failed f = (case f of None \<Rightarrow> ErrorsNew err_failed | Some e \<Rightarrow> Wrapped err_failed e)"

subsection \<open>Calls with recovery\<close>

fun panic_text :: "go_error \<Rightarrow> string" where
  "panic_text (Panic t) = t"
| "panic_text (Wrapped t e) = panic_text e"
| "panic_text _ = ''''"

definition recovered :: "string \<Rightarrow> 'a res \<Rightarrow> 'a res" where
  "recovered fmt r =
     (case r of Inl e \<Rightarrow> Inl (if is_panic e then Errorf fmt [panic_text e] else e) | Inr x \<Rightarrow> Inr x)"

definition on_world ::
  "('w \<Rightarrow> 'a \<times> 'w) \<Rightarrow> ('w, 'r) sequencer \<Rightarrow> 'a \<times> ('w, 'r) sequencer" where
  "on_world f s = (let (x, w) = f (sq_world s) in (x, s\<lparr>sq_world := w\<rparr>))"

definition current_time :: "('w, 'r) platform \<Rightarrow> 'w \<Rightarrow> instant res \<times> 'w" where
  "current_time p w = (let (r, w1) = pf_now p w in (recovered ''clock now panicked: %v'' r, w1))"

definition create_timer :: "('w, 'r) platform \<Rightarrow> duration \<Rightarrow> 'w \<Rightarrow> nat res \<times> 'w" where
  "create_timer p delay w = (let (r, w1) = pf_timer p delay w in
     (case recovered ''clock timer panicked: %v'' r of
        Inl e \<Rightarrow> Inl e
      | Inr None \<Rightarrow> fails ''clock returned a nil timer''
      | Inr (Some t) \<Rightarrow> Inr t, w1))"

definition timer_channel :: "('w, 'r) platform \<Rightarrow> nat \<Rightarrow> 'w \<Rightarrow> unit res \<times> 'w" where
  "timer_channel p t w = (let (r, w1) = pf_channel p t w in
     (case recovered ''clock timer channel panicked: %v'' r of
        Inl e \<Rightarrow> Inl e
      | Inr ok \<Rightarrow> if ok then Inr () else fails ''clock returned a nil timer channel'', w1))"

definition stop_clock_timer :: "('w, 'r) platform \<Rightarrow> nat \<Rightarrow> 'w \<Rightarrow> unit res \<times> 'w" where
  "stop_clock_timer p t w =
     (let (r, w1) = pf_stop p t w in (recovered ''clock timer stop panicked: %v'' r, w1))"

definition next_scheduled_action :: "('w, 'r) platform \<Rightarrow> 'w \<Rightarrow> scheduled_action option res \<times> 'w" where
  "next_scheduled_action p w =
     (let (r, w1) = pf_next p w in (recovered ''schedule next panicked: %v'' r, w1))"

definition commit_scheduled_action :: "('w, 'r) platform \<Rightarrow> scheduled_action \<Rightarrow> 'w \<Rightarrow> unit res \<times> 'w" where
  "commit_scheduled_action p a w =
     (let (r, w1) = pf_commit p a w in (recovered ''schedule commit panicked: %v'' r, w1))"

subsection \<open>The logical clock\<close>

definition time_sub :: "instant \<Rightarrow> instant \<Rightarrow> duration" where
  "time_sub a b = i64_of (max min_int (min max_int (a - b)))"

definition logical_at :: "('w, 'r) sequencer \<Rightarrow> instant \<Rightarrow> duration" where
  "logical_at s now =
     (if sq_status s \<noteq> Running \<or> now < sq_anchor s then sq_elapsed s
      else sq_elapsed s + time_sub now (sq_anchor s))"

definition snapshot_at :: "('w, 'r) sequencer \<Rightarrow> instant \<Rightarrow> snapshot_of" where
  "snapshot_at s now = \<lparr>sn_status = sq_status s, sn_elapsed = logical_at s now, sn_next = sq_next s,
     sn_sequence = sq_sequence s, sn_failure = sq_failure s\<rparr>"

subsection \<open>Timers and failure\<close>

type_synonym ('w, 'r) action_step = "('w, 'r) sequencer \<Rightarrow> go_error option \<times> ('w, 'r) sequencer"

definition stop_timer :: "('w, 'r) platform \<Rightarrow> ('w, 'r) action_step" where
  "stop_timer p s =
     (case sq_timer s of
        None \<Rightarrow> (None, s)
      | Some t \<Rightarrow> (let (r, s1) = on_world (stop_clock_timer p t) (s\<lparr>sq_timer := None\<rparr>)
                  in (case r of Inl e \<Rightarrow> (Some e, s1) | Inr _ \<Rightarrow> (None, s1))))"

definition fail :: "('w, 'r) platform \<Rightarrow> duration \<Rightarrow> go_error \<Rightarrow> ('w, 'r) sequencer \<Rightarrow> ('w, 'r) sequencer" where
  "fail p at err s =
     snd (stop_timer p (s\<lparr>sq_failure := Some err, sq_elapsed := at, sq_status := Failed\<rparr>))"

text \<open>\<^verbatim>\<open>fail(at, err); return failure\<close>.\<close>

definition failing :: "('w, 'r) platform \<Rightarrow> duration \<Rightarrow> go_error \<Rightarrow> ('w, 'r) action_step" where
  "failing p at err s = (let s1 = fail p at err s in (sq_failure s1, s1))"

definition load_candidate ::
  "('w, 'r) platform \<Rightarrow> ('w, 'r) sequencer \<Rightarrow> scheduled_action option res \<times> ('w, 'r) sequencer" where
  "load_candidate p s =
     (case sq_candidate s of
        Some c \<Rightarrow> (Inr (Some c), s)
      | None \<Rightarrow> (let (r, s1) = on_world (next_scheduled_action p) s in
          (case r of
             Inl e \<Rightarrow> (Inl e, s1)
           | Inr None \<Rightarrow> (Inr None, s1)
           | Inr (Some a) \<Rightarrow>
               (case validate_scheduled_action a of
                  Inl e \<Rightarrow> (Inl e, s1)
                | Inr _ \<Rightarrow>
                    if sq_next s > 0 \<and> sa_due a < sq_last_due s
                    then (fails ''schedule moved backward'', s1)
                    else if an_id (sa_action a) |\<in>| sq_ids s
                    then (Inl (Errorf ''scheduled action id %q is duplicated'' [an_id (sa_action a)]), s1)
                    else (Inr (Some a), s1\<lparr>sq_candidate := Some a\<rparr>)))))"

definition commit_candidate :: "('w, 'r) platform \<Rightarrow> scheduled_action \<Rightarrow> ('w, 'r) action_step" where
  "commit_candidate p item s =
     (if (case sq_candidate s of
            None \<Rightarrow> True
          | Some c \<Rightarrow> sa_due c \<noteq> sa_due item \<or> an_id (sa_action c) \<noteq> an_id (sa_action item))
      then (Some (ErrorsNew ''executed action does not match schedule head''), s)
      else (let (r, s1) = on_world (commit_scheduled_action p item) s in
        (case r of
           Inl e \<Rightarrow> (Some e, s1)
         | Inr _ \<Rightarrow> (None, s1\<lparr>sq_ids := finsert (an_id (sa_action item)) (sq_ids s1),
             sq_last_due := sa_due item, sq_next := sq_next s1 + 1, sq_candidate := None\<rparr>))))"

definition arm_timer_at :: "('w, 'r) platform \<Rightarrow> instant \<Rightarrow> ('w, 'r) action_step" where
  "arm_timer_at p now s =
     (let (stopped, s1) = stop_timer p s in
      case stopped of
        Some e \<Rightarrow> failing p (sq_elapsed s1) e s1
      | None \<Rightarrow>
        if sq_status s1 \<noteq> Running then (None, s1)
        else (let (loaded, s2) = load_candidate p s1 in
          case loaded of
            Inl e \<Rightarrow> failing p (logical_at s2 now) (Wrapped ''load next scheduled action: %w'' e) s2
          | Inr None \<Rightarrow> (None, s2)
          | Inr (Some item) \<Rightarrow>
              (let delay = sa_due item - logical_at s2 now;
                   (created, s3) = on_world (create_timer p (if delay < 0 then 0 else delay)) s2 in
               case created of
                 Inl e \<Rightarrow> failing p (logical_at s3 now) e s3
               | Inr t \<Rightarrow> (None, s3\<lparr>sq_timer := Some t\<rparr>))))"

definition arm_timer :: "('w, 'r) platform \<Rightarrow> ('w, 'r) action_step" where
  "arm_timer p s =
     (let (now, s1) = on_world (current_time p) s in
      case now of
        Inl e \<Rightarrow> failing p (sq_elapsed s1) e s1
      | Inr t \<Rightarrow> arm_timer_at p t s1)"

definition arm_countdown_timer :: "('w, 'r) platform \<Rightarrow> duration \<Rightarrow> ('w, 'r) action_step" where
  "arm_countdown_timer p delay s =
     (let (stopped, s1) = stop_timer p s in
      case stopped of
        Some e \<Rightarrow> failing p 0 e s1
      | None \<Rightarrow>
        (let (created, s2) = on_world (create_timer p delay) s1 in
         case created of
           Inl e \<Rightarrow> failing p 0 e s2
         | Inr t \<Rightarrow> (None, s2\<lparr>sq_timer := Some t\<rparr>)))"

definition rearm_countdown_timer :: "('w, 'r) platform \<Rightarrow> ('w, 'r) action_step" where
  "rearm_countdown_timer p s =
     (let (now, s1) = on_world (current_time p) s in
      case now of
        Inl e \<Rightarrow> failing p 0 e s1
      | Inr t \<Rightarrow>
        (let remaining = time_sub (sq_countdown_anchor s1 + ival (pf_countdown p)) t in
         arm_countdown_timer p (if remaining < 0 then 0 else remaining) s1))"

subsection \<open>Execution\<close>

definition exec_action ::
  "('w, 'r) platform \<Rightarrow> action \<Rightarrow> duration \<Rightarrow> ('w, 'r) sequencer \<Rightarrow> 'r execution \<times> ('w, 'r) sequencer" where
  "exec_action p a at s =
     (let s1 = s\<lparr>sq_sequence := sq_sequence s + 1\<rparr>;
          base = \<lparr>ex_seq = sq_sequence s1, ex_elapsed = at, ex_action = a, ex_result = None,
                  ex_disp = OtherDisp '''', ex_err = None, ex_replayed = False\<rparr>;
          (r, s2) = on_world (pf_execute p a at) s1
      in case r of
           Inl e \<Rightarrow> (base\<lparr>ex_disp := DispFail, ex_err := Some (Errorf ''executor panicked: %v'' [panic_text e])\<rparr>, s2)
         | Inr out \<Rightarrow>
             (let out' = normalize_outcome out in
              (base\<lparr>ex_result := oc_result out', ex_disp := oc_disp out', ex_err := oc_err out'\<rparr>, s2)))"

definition replay ::
  "('w, 'r) platform \<Rightarrow> action \<Rightarrow> ('w, 'r) sequencer \<Rightarrow> 'r execution option \<times> ('w, 'r) sequencer" where
  "replay p a s =
     (case pf_replay p of
        None \<Rightarrow> (None, s)
      | Some lookup \<Rightarrow>
          (let (r, s1) = on_world (lookup a) s in
           (case r of
              Inl e \<Rightarrow> Some (normalize_execution
                \<lparr>ex_seq = 0, ex_elapsed = 0, ex_action = a, ex_result = None, ex_disp = DispFail,
                 ex_err = Some (Errorf ''replay lookup panicked: %v'' [panic_text e]), ex_replayed = False\<rparr>)
            | Inr found \<Rightarrow> map_option normalize_execution found, s1)))"

definition countdown_action_of :: "('w, 'r) platform \<Rightarrow> action \<Rightarrow> 'w \<Rightarrow> action res \<times> 'w" where
  "countdown_action_of p start w =
     (case pf_countdown_action p of
        None \<Rightarrow> (recovered ''countdown action factory panicked: %v'' (panics ''nil function''), w)
      | Some f \<Rightarrow> (let (r, w1) = f start w in (recovered ''countdown action factory panicked: %v'' r, w1)))"

definition check_countdown_action :: "action \<Rightarrow> unit res" where
  "check_countdown_action a =
     (if an_kind a \<noteq> action_countdown
      then Inl (Errorf ''countdown action kind must be %q'' [action_countdown])
      else bindE (validate_action a SystemSource) (\<lambda>_. validate_payload_type a))"

text \<open>\<^verbatim>\<open>cause := execution.Err; if cause == nil { cause = errors.New(msg) }\<close>.\<close>

definition cause_of :: "'r execution \<Rightarrow> string \<Rightarrow> go_error" where
  "cause_of x msg = (case ex_err x of None \<Rightarrow> ErrorsNew msg | Some e \<Rightarrow> e)"

definition action_failed :: "string \<Rightarrow> action \<Rightarrow> go_error \<Rightarrow> go_error" where
  "action_failed what a cause = Wrapped (what @ '' %q failed: %w'' @ an_id a) cause"

definition complete_countdown :: "('w, 'r) platform \<Rightarrow> ('w, 'r) action_step" where
  "complete_countdown p s =
     (let (stopped, s1) = stop_timer p s in
      case stopped of
        Some e \<Rightarrow> failing p 0 e s1
      | None \<Rightarrow>
        (let (made, s2) = on_world (countdown_action_of p (sq_start s1)) s1 in
         case bindE made (\<lambda>a. bindE (check_countdown_action a) (\<lambda>_. Inr a)) of
           Inl e \<Rightarrow> failing p 0 e s2
         | Inr a \<Rightarrow>
             (let (x, s3) = exec_action p a 0 s2 in
              if ex_disp x \<noteq> DispContinue
              then failing p 0 (action_failed ''countdown action'' a (cause_of x ''countdown action must continue'')) s3
              else (let (now, s4) = on_world (current_time p) s3 in
                case now of
                  Inl e \<Rightarrow> failing p 0 e s4
                | Inr t \<Rightarrow> arm_timer_at p t (s4\<lparr>sq_anchor := t, sq_status := Running\<rparr>)))))"

subsection \<open>The due actions\<close>

text \<open>\<open>None\<close>: the schedule keeps offering due actions and the loop does not end.\<close>

partial_function (option) process_due ::
  "('w, 'r) platform \<Rightarrow> duration \<Rightarrow> ('w, 'r) sequencer \<Rightarrow> (go_error option \<times> ('w, 'r) sequencer) option" where
  "process_due p target s =
     (let (loaded, s1) = load_candidate p s in
      case loaded of
        Inl e \<Rightarrow> Some (failing p target (Wrapped ''load next scheduled action: %w'' e) s1)
      | Inr None \<Rightarrow> Some (None, s1)
      | Inr (Some item) \<Rightarrow>
          if sa_due item > target then Some (None, s1)
          else (let (x, s2) = exec_action p (sa_action item) (sa_due item) s1 in
            if ex_disp x = DispReject \<or> ex_disp x = DispFail
            then Some (failing p (sa_due item)
              (action_failed ''scheduled action'' (sa_action item) (cause_of x '''')) s2)
            else (let (committed, s3) = commit_candidate p item s2 in
              case committed of
                Some e \<Rightarrow> Some (failing p (sa_due item)
                  (Wrapped (''commit scheduled action %q: %w'' @ an_id (sa_action item)) e) s3)
              | None \<Rightarrow>
                  if ex_disp x = DispComplete
                  then Some (None, snd (stop_timer p (s3\<lparr>sq_elapsed := sa_due item, sq_status := Completed\<rparr>)))
                  else process_due p target s3)))"

end
