(* ===== verification/Sequencer_Requests.thy ===== *)
theory Sequencer_Requests
  imports Sequencer
begin

text \<open>
  The requests of the sequencer and the loop that serves them (\<^verbatim>\<open>handleRequest\<close> and the \<^verbatim>\<open>select\<close>
  loop of \<^verbatim>\<open>run\<close>, \<^verbatim>\<open>NewConfigured\<close>, \<^verbatim>\<open>request\<close>, \<^verbatim>\<open>dequeue\<close>, \<^verbatim>\<open>stopAdmission\<close>). One definition per
  request kind; \<open>None\<close> stands for a loop over due actions that does not end.
\<close>

type_synonym ('w, 'r) served = "'r response \<times> ('w, 'r) sequencer"

subsection \<open>Replies\<close>

definition no_reply :: "'r response" where
  "no_reply = \<lparr>rp_execution = None, rp_snapshot = None, rp_view = None, rp_err = None\<rparr>"

definition refuse_state :: "('w, 'r) sequencer \<Rightarrow> ('w, 'r) served" where
  "refuse_state s = (no_reply\<lparr>rp_err := Some err_invalid_state\<rparr>, s)"

text \<open>The reply after a failure: \<^verbatim>\<open>errors.Join(ErrFailed, err)\<close> with a snapshot at the receipt.\<close>

definition failed_reply ::
  "('w, 'r) request \<Rightarrow> 'r execution option \<Rightarrow> go_error option \<Rightarrow> ('w, 'r) sequencer \<Rightarrow> ('w, 'r) served" where
  "failed_reply q x err s =
     (no_reply\<lparr>rp_execution := x, rp_snapshot := Some (snapshot_at s (rq_received q)),
        rp_err := Some (join_failed err)\<rparr>, s)"

definition execution_reply :: "'r execution \<Rightarrow> ('w, 'r) sequencer \<Rightarrow> ('w, 'r) served" where
  "execution_reply x s = (no_reply\<lparr>rp_execution := Some x\<rparr>, s)"

definition rejected_reply :: "'r execution \<Rightarrow> ('w, 'r) sequencer \<Rightarrow> ('w, 'r) served" where
  "rejected_reply x s = (no_reply\<lparr>rp_execution := Some x, rp_err := ex_err x\<rparr>, s)"

definition snapshot_reply :: "('w, 'r) request \<Rightarrow> 'r execution option \<Rightarrow> ('w, 'r) sequencer \<Rightarrow> ('w, 'r) served" where
  "snapshot_reply q x s =
     (no_reply\<lparr>rp_execution := x, rp_snapshot := Some (snapshot_at s (rq_received q))\<rparr>, s)"

text \<open>After an action the timer is armed again; if that fails the reply says so.\<close>

definition rearmed ::
  "('w, 'r) request \<Rightarrow> 'r execution option \<Rightarrow> (('w, 'r) sequencer \<Rightarrow> ('w, 'r) served) \<Rightarrow>
   go_error option \<times> ('w, 'r) sequencer \<Rightarrow> ('w, 'r) served" where
  "rearmed q x ok r = (case r of (Some e, s) \<Rightarrow> failed_reply q x (Some e) s | (None, s) \<Rightarrow> ok s)"

text \<open>An execution that the handler cannot accept fails the session.\<close>

definition fail_execution ::
  "('w, 'r) platform \<Rightarrow> ('w, 'r) request \<Rightarrow> string \<Rightarrow> string \<Rightarrow> duration \<Rightarrow> 'r execution \<Rightarrow>
   ('w, 'r) sequencer \<Rightarrow> ('w, 'r) served" where
  "fail_execution p q what msg at x s =
     (let s1 = fail p at (action_failed what (rq_action q) (cause_of x msg)) s
      in failed_reply q (Some x) (sq_failure s1) s1)"

subsection \<open>The handlers\<close>

definition handle_start :: "('w, 'r) platform \<Rightarrow> ('w, 'r) request \<Rightarrow> ('w, 'r) sequencer \<Rightarrow> ('w, 'r) served" where
  "handle_start p q s =
     (if pf_durable p \<or> sq_status s \<noteq> Preparing then refuse_state s
      else rearmed q None (\<lambda>s. (no_reply, s))
        (arm_timer p (s\<lparr>sq_status := Running, sq_elapsed := 0, sq_anchor := rq_received q\<rparr>)))"

definition handle_start_action ::
  "('w, 'r) platform \<Rightarrow> ('w, 'r) request \<Rightarrow> ('w, 'r) sequencer \<Rightarrow> ('w, 'r) served" where
  "handle_start_action p q s =
     (if sq_status s \<noteq> Preparing \<or> pf_countdown p \<le> 0 then refuse_state s
      else (let (x, s1) = exec_action p (rq_action q) 0 s in
        if ex_disp x = DispContinue
        then (let (now, s2) = on_world (current_time p) s1 in
          case now of
            Inl e \<Rightarrow> (let s3 = fail p 0 e s2 in failed_reply q (Some x) (sq_failure s3) s3)
          | Inr t \<Rightarrow> rearmed q (Some x) (execution_reply x)
              (arm_countdown_timer p (pf_countdown p)
                (s2\<lparr>sq_status := Countdown, sq_elapsed := 0, sq_start := rq_action q, sq_countdown_anchor := t\<rparr>)))
        else if ex_disp x = DispReject then rejected_reply x s1
        else fail_execution p q ''start action'' ''start action must continue'' 0 x s1))"

definition handle_submit ::
  "('w, 'r) platform \<Rightarrow> ('w, 'r) request \<Rightarrow> ('w, 'r) sequencer \<Rightarrow> ('w, 'r) served option" where
  "handle_submit p q s =
     (if sq_status s \<noteq> Running then Some (refuse_state s)
      else (let target = logical_at s (rq_received q) in
        map_option (\<lambda>(due, s1).
          case due of
            Some e \<Rightarrow> failed_reply q None (Some e) s1
          | None \<Rightarrow>
            if sq_status s1 = Completed
            then (no_reply\<lparr>rp_snapshot := Some (snapshot_at s1 (rq_received q)), rp_err := Some err_invalid_state\<rparr>, s1)
            else (let (x, s2) = exec_action p (rq_action q) target s1 in
              if ex_disp x = DispContinue then rearmed q (Some x) (execution_reply x) (arm_timer p s2)
              else if ex_disp x = DispComplete
              then snapshot_reply q (Some x)
                (snd (stop_timer p (s2\<lparr>sq_elapsed := target, sq_status := Completed\<rparr>)))
              else if ex_disp x = DispReject then rearmed q (Some x) (rejected_reply x) (arm_timer p s2)
              else fail_execution p q ''participant action'' '''' target x s2))
          (process_due p target s)))"

definition handle_pause ::
  "('w, 'r) platform \<Rightarrow> ('w, 'r) request \<Rightarrow> ('w, 'r) sequencer \<Rightarrow> ('w, 'r) served option" where
  "handle_pause p q s =
     (if pf_durable p \<or> sq_status s \<noteq> Running then Some (refuse_state s)
      else (let target = logical_at s (rq_received q) in
        map_option (\<lambda>(due, s1).
          case due of
            Some e \<Rightarrow> failed_reply q None (Some e) s1
          | None \<Rightarrow>
            if sq_status s1 = Completed then snapshot_reply q None s1
            else snapshot_reply q None (snd (stop_timer p (s1\<lparr>sq_elapsed := target, sq_status := Paused\<rparr>))))
          (process_due p target s)))"

text \<open>Progress of a countdown is given up: the pause is at zero.\<close>

definition pause_now ::
  "('w, 'r) platform \<Rightarrow> ('w, 'r) request \<Rightarrow> duration \<Rightarrow> ('w, 'r) sequencer \<Rightarrow> ('w, 'r) served" where
  "pause_now p q target s =
     (let (x, s1) = exec_action p (rq_action q) target s in
      if ex_disp x = DispContinue
      then (let (stopped, s2) = stop_timer p (s1\<lparr>sq_elapsed := target, sq_status := Paused\<rparr>) in
        case stopped of
          Some e \<Rightarrow> (let s3 = fail p target e s2 in failed_reply q (Some x) (sq_failure s3) s3)
        | None \<Rightarrow> snapshot_reply q (Some x) s2)
      else fail_execution p q ''pause action'' ''pause action executor must continue'' target x s1)"

definition handle_pause_action ::
  "('w, 'r) platform \<Rightarrow> ('w, 'r) request \<Rightarrow> ('w, 'r) sequencer \<Rightarrow> ('w, 'r) served option" where
  "handle_pause_action p q s =
     (if sq_status s \<noteq> Running \<and> sq_status s \<noteq> Countdown then Some (refuse_state s)
      else if sq_status s = Running
      then (let target = logical_at s (rq_received q) in
        map_option (\<lambda>(due, s1).
          case due of
            Some e \<Rightarrow> failed_reply q None (Some e) s1
          | None \<Rightarrow>
            if sq_status s1 = Completed
            then (no_reply\<lparr>rp_snapshot := Some (snapshot_at s1 (rq_received q)), rp_err := Some err_invalid_state\<rparr>, s1)
            else pause_now p q target s1)
          (process_due p target s))
      else Some (pause_now p q 0 s))"

definition handle_resume :: "('w, 'r) platform \<Rightarrow> ('w, 'r) request \<Rightarrow> ('w, 'r) sequencer \<Rightarrow> ('w, 'r) served" where
  "handle_resume p q s =
     (if pf_durable p \<or> sq_status s \<noteq> Paused then refuse_state s
      else rearmed q None (\<lambda>s. (no_reply, s)) (arm_timer p (s\<lparr>sq_status := Running, sq_anchor := rq_received q\<rparr>)))"

definition handle_resume_action ::
  "('w, 'r) platform \<Rightarrow> ('w, 'r) request \<Rightarrow> ('w, 'r) sequencer \<Rightarrow> ('w, 'r) served" where
  "handle_resume_action p q s =
     (if sq_status s \<noteq> Paused then refuse_state s
      else (let (x, s1) = exec_action p (rq_action q) (sq_elapsed s) s in
        if ex_disp x = DispContinue
        then (let (now, s2) = on_world (current_time p) s1 in
          case now of
            Inl e \<Rightarrow> (let s3 = fail p (sq_elapsed s2) e s2 in failed_reply q (Some x) (sq_failure s3) s3)
          | Inr t \<Rightarrow> rearmed q (Some x) (execution_reply x)
              (arm_timer_at p t (s2\<lparr>sq_status := Running, sq_anchor := t\<rparr>)))
        else fail_execution p q ''resume action'' ''resume action executor must continue'' (sq_elapsed s1) x s1))"

definition complete_now ::
  "('w, 'r) platform \<Rightarrow> ('w, 'r) request \<Rightarrow> duration \<Rightarrow> ('w, 'r) sequencer \<Rightarrow> ('w, 'r) served" where
  "complete_now p q target s =
     (let (x, s1) = exec_action p (rq_action q) target s in
      if ex_disp x = DispComplete
      then snapshot_reply q (Some x) (snd (stop_timer p (s1\<lparr>sq_elapsed := target, sq_status := Completed\<rparr>)))
      else if ex_disp x = DispReject
      then if sq_status s1 = Running then rearmed q (Some x) (rejected_reply x) (arm_timer p s1)
           else rejected_reply x s1
      else fail_execution p q ''completion action'' ''completion action executor must complete'' target x s1)"

definition handle_complete_action ::
  "('w, 'r) platform \<Rightarrow> ('w, 'r) request \<Rightarrow> ('w, 'r) sequencer \<Rightarrow> ('w, 'r) served option" where
  "handle_complete_action p q s =
     (if sq_status s \<notin> {Preparing, Countdown, Running, Paused} then Some (refuse_state s)
      else if sq_status s = Running
      then (let target = logical_at s (rq_received q) in
        map_option (\<lambda>(due, s1).
          case due of
            Some e \<Rightarrow> failed_reply q None (Some e) s1
          | None \<Rightarrow>
            if sq_status s1 = Completed
            then (no_reply\<lparr>rp_snapshot := Some (snapshot_at s1 (rq_received q)), rp_err := Some err_invalid_state\<rparr>, s1)
            else complete_now p q target s1)
          (process_due p target s))
      else Some (complete_now p q (sq_elapsed s) s))"

definition project_view :: "('w, 'r) request \<Rightarrow> ('w, 'r) sequencer \<Rightarrow> ('w, 'r) served" where
  "project_view q s =
     (let sn = snapshot_at s (rq_received q) in
      case recovered ''projector panicked: %v'' (rq_project q (sq_world s)) of
        Inl e \<Rightarrow> (no_reply\<lparr>rp_snapshot := Some sn, rp_err := Some e\<rparr>, s)
      | Inr v \<Rightarrow> (no_reply\<lparr>rp_snapshot := Some sn, rp_view := Some (sn, v)\<rparr>, s))"

definition handle_view ::
  "('w, 'r) platform \<Rightarrow> ('w, 'r) request \<Rightarrow> ('w, 'r) sequencer \<Rightarrow> ('w, 'r) served option" where
  "handle_view p q s =
     (if sq_status s = Running
      then map_option (\<lambda>(due, s1).
          case due of
            Some e \<Rightarrow> failed_reply q None (Some e) s1
          | None \<Rightarrow>
            if sq_status s1 = Running then rearmed q None (project_view q) (arm_timer p s1)
            else project_view q s1)
        (process_due p (logical_at s (rq_received q)) s)
      else Some (project_view q s))"

definition stop_admission :: "('w, 'r) sequencer \<Rightarrow> ('w, 'r) request list \<times> ('w, 'r) sequencer" where
  "stop_admission s = (sq_pending s, s\<lparr>sq_accepting := False, sq_pending := []\<rparr>)"

text \<open>\<open>close_now err s\<close>: what follows the status change of a close request.\<close>

definition close_now ::
  "('w, 'r) platform \<Rightarrow> ('w, 'r) request \<Rightarrow> go_error option \<Rightarrow> ('w, 'r) sequencer \<Rightarrow>
   ('r response \<times> ('w, 'r) request list) \<times> ('w, 'r) sequencer" where
  "close_now p q err s =
     (let s1 = snd (stop_timer p s);
          final = snapshot_at s1 (rq_received q);
          (queued, s2) = stop_admission s1
      in ((no_reply\<lparr>rp_snapshot := Some final, rp_err := err\<rparr>, queued), s2\<lparr>sq_status := Closed\<rparr>))"

definition handle_close ::
  "('w, 'r) platform \<Rightarrow> ('w, 'r) request \<Rightarrow> ('w, 'r) sequencer \<Rightarrow>
   (('r response \<times> ('w, 'r) request list) \<times> ('w, 'r) sequencer) option" where
  "handle_close p q s =
     (if sq_status s = Running
      then (let target = logical_at s (rq_received q) in
        map_option (\<lambda>(due, s1).
          case due of
            Some e \<Rightarrow> close_now p q (Some (join_failed (Some e))) s1
          | None \<Rightarrow> close_now p q None
              (if sq_status s1 = Running then s1\<lparr>sq_elapsed := target, sq_status := Paused\<rparr> else s1))
          (process_due p target s))
      else Some (if sq_status s = Countdown then close_now p q None (s\<lparr>sq_status := Paused, sq_elapsed := 0\<rparr>)
        else close_now p q (if sq_status s = Failed then Some (join_failed (sq_failure s)) else None) s))"

subsection \<open>Dispatch\<close>

definition carries_action :: "request_kind \<Rightarrow> bool" where
  "carries_action k \<longleftrightarrow> k \<in> {ReqStartAction, ReqPauseAction, ReqResumeAction, ReqCompleteAction, ReqSubmit}"

definition replayed_reply :: "('w, 'r) request \<Rightarrow> 'r execution \<Rightarrow> ('w, 'r) sequencer \<Rightarrow> ('w, 'r) served" where
  "replayed_reply q x s =
     (no_reply\<lparr>rp_execution := Some (x\<lparr>ex_replayed := True\<rparr>), rp_snapshot := Some (snapshot_at s (rq_received q)),
        rp_err := (if ex_disp x = DispReject \<or> ex_disp x = DispFail then ex_err x else None)\<rparr>, s)"

definition countdown_over :: "('w, 'r) platform \<Rightarrow> ('w, 'r) request \<Rightarrow> ('w, 'r) sequencer \<Rightarrow> bool" where
  "countdown_over p q s \<longleftrightarrow>
     rq_kind q \<in> {ReqPauseAction, ReqCompleteAction, ReqSubmit, ReqView} \<and> sq_status s = Countdown \<and>
     \<not> rq_received q < sq_countdown_anchor s + ival (pf_countdown p)"

definition alone :: "('w, 'r) served \<Rightarrow> ('r response \<times> ('w, 'r) request list) \<times> ('w, 'r) sequencer" where
  "alone r = ((fst r, []), snd r)"

definition serve ::
  "('w, 'r) platform \<Rightarrow> ('w, 'r) request \<Rightarrow> ('w, 'r) sequencer \<Rightarrow>
   (('r response \<times> ('w, 'r) request list) \<times> ('w, 'r) sequencer) option" where
  "serve p q s =
     (case rq_kind q of
        ReqStart \<Rightarrow> Some (alone (handle_start p q s))
      | ReqStartAction \<Rightarrow> Some (alone (handle_start_action p q s))
      | ReqSubmit \<Rightarrow> map_option alone (handle_submit p q s)
      | ReqPause \<Rightarrow> map_option alone (handle_pause p q s)
      | ReqPauseAction \<Rightarrow> map_option alone (handle_pause_action p q s)
      | ReqResume \<Rightarrow> Some (alone (handle_resume p q s))
      | ReqResumeAction \<Rightarrow> Some (alone (handle_resume_action p q s))
      | ReqCompleteAction \<Rightarrow> map_option alone (handle_complete_action p q s)
      | ReqView \<Rightarrow> map_option alone (handle_view p q s)
      | ReqSnapshot \<Rightarrow> Some (alone (snapshot_reply q None s))
      | ReqClose \<Rightarrow> handle_close p q s)"

text \<open>The reply, the queued requests that are answered with \<^verbatim>\<open>ErrClosed\<close>, and the state after it.\<close>

definition handle_request ::
  "('w, 'r) platform \<Rightarrow> ('w, 'r) request \<Rightarrow> ('w, 'r) sequencer \<Rightarrow>
   (('r response \<times> ('w, 'r) request list) \<times> ('w, 'r) sequencer) option" where
  "handle_request p q s =
     (let (found, s1) = (if carries_action (rq_kind q) then replay p (rq_action q) s else (None, s)) in
      case found of
        Some x \<Rightarrow> Some (alone (replayed_reply q x s1))
      | None \<Rightarrow>
        (let s2 = (if countdown_over p q s1 then snd (complete_countdown p s1) else s1) in
         if sq_status s2 = Failed \<and> rq_kind q \<noteq> ReqSnapshot \<and> rq_kind q \<noteq> ReqClose
         then Some (alone (failed_reply q None (sq_failure s2) s2))
         else if sq_status s2 = Completed \<and> rq_kind q \<noteq> ReqSnapshot \<and> rq_kind q \<noteq> ReqView \<and> rq_kind q \<noteq> ReqClose
         then Some (alone (no_reply\<lparr>rp_snapshot := Some (snapshot_at s2 (rq_received q)),
                rp_err := Some err_invalid_state\<rparr>, s2))
         else serve p q s2))"

subsection \<open>Admission\<close>

text \<open>\<open>first\<close> and \<open>second\<close> are what the two \<^verbatim>\<open>ctx.Err()\<close> calls return. A refused request gets its
  error at once; an admitted one waits in the queue for its reply.\<close>

definition admit ::
  "('w, 'r) platform \<Rightarrow> go_error option \<Rightarrow> go_error option \<Rightarrow> ('w, 'r) request \<Rightarrow> ('w, 'r) action_step" where
  "admit p first second q s =
     (case first of
        Some e \<Rightarrow> (Some e, s)
      | None \<Rightarrow>
        if \<not> sq_accepting s then (Some err_closed, s)
        else (case second of
            Some e \<Rightarrow> (Some e, s)
          | None \<Rightarrow> (let (now, s1) = on_world (current_time p) s in
              case now of
                Inl e \<Rightarrow> (Some e, s1)
              | Inr t \<Rightarrow> (None, s1\<lparr>sq_pending := sq_pending s1 @ [q\<lparr>rq_received := t\<rparr>]\<rparr>))))"

definition dequeue :: "('w, 'r) sequencer \<Rightarrow> ('w, 'r) request option \<times> ('w, 'r) sequencer" where
  "dequeue s =
     (case sq_pending s of [] \<Rightarrow> (None, s) | q # qs \<Rightarrow> (Some q, s\<lparr>sq_pending := qs\<rparr>))"

text \<open>What the public methods check before they ask.\<close>

definition check_request :: "('w, 'r) request \<Rightarrow> unit res" where
  "check_request q =
     (case rq_kind q of
        ReqStartAction \<Rightarrow> validate_lifecycle_action (rq_action q) action_start False
      | ReqSubmit \<Rightarrow> validate_action (rq_action q) ParticipantSource
      | ReqPauseAction \<Rightarrow> validate_lifecycle_action (rq_action q) action_pause True
      | ReqResumeAction \<Rightarrow> validate_lifecycle_action (rq_action q) action_resume False
      | ReqCompleteAction \<Rightarrow> validate_lifecycle_action (rq_action q) action_quit False
      | _ \<Rightarrow> Inr ())"

definition ask ::
  "('w, 'r) platform \<Rightarrow> go_error option \<Rightarrow> go_error option \<Rightarrow> ('w, 'r) request \<Rightarrow> ('w, 'r) action_step" where
  "ask p first second q s =
     (case check_request q of Inl e \<Rightarrow> (Some e, s) | Inr _ \<Rightarrow> admit p first second q s)"

subsection \<open>The loop\<close>

text \<open>A turn without a waiting request only polls the timer's channel and waits. \<open>fired\<close>: the timer
  delivers the time \<open>now\<close>; a request that was admitted meanwhile still goes first.\<close>

definition poll_timer :: "('w, 'r) platform \<Rightarrow> ('w, 'r) sequencer \<Rightarrow> ('w, 'r) sequencer" where
  "poll_timer p s =
     (case sq_timer s of
        None \<Rightarrow> s
      | Some t \<Rightarrow> (let (r, s1) = on_world (timer_channel p t) s in
          case r of Inl e \<Rightarrow> fail p (sq_elapsed s1) e s1 | Inr _ \<Rightarrow> s1))"

definition take_turn ::
  "('w, 'r) platform \<Rightarrow> ('w, 'r) sequencer \<Rightarrow>
   (('r response \<times> ('w, 'r) request list) option \<times> ('w, 'r) sequencer) option" where
  "take_turn p s =
     (case dequeue s of
        (Some q, s1) \<Rightarrow> map_option (\<lambda>(r, s2). (Some r, s2)) (handle_request p q s1)
      | (None, s1) \<Rightarrow> Some (None, poll_timer p s1))"

definition fired ::
  "('w, 'r) platform \<Rightarrow> instant \<Rightarrow> ('w, 'r) sequencer \<Rightarrow>
   (('r response \<times> ('w, 'r) request list) option \<times> ('w, 'r) sequencer) option" where
  "fired p now s =
     (case dequeue (s\<lparr>sq_timer := None\<rparr>) of
        (Some q, s1) \<Rightarrow>
          map_option (\<lambda>(r, s2).
            (Some r, if sq_status s2 = Countdown \<and> sq_timer s2 = None
                     then snd (rearm_countdown_timer p s2) else s2))
          (handle_request p q s1)
      | (None, s1) \<Rightarrow>
          if sq_status s1 = Running
          then map_option (\<lambda>(_, s2). (None, snd (arm_timer p s2))) (process_due p (logical_at s1 now) s1)
          else if sq_status s1 = Countdown then Some (None, snd (complete_countdown p s1))
          else Some (None, s1))"

subsection \<open>Creation\<close>

definition new_sequencer ::
  "('w, 'r) platform \<Rightarrow> checkpoint \<Rightarrow> 'w \<Rightarrow> ('w, 'r) sequencer res \<times> 'w" where
  "new_sequencer p c w =
     (if pf_countdown p < 0 then (fails ''countdown must be non-negative'', w)
      else if pf_countdown p > 0 \<and> pf_countdown_action p = None
      then (fails ''countdown action factory is required'', w)
      else if pf_durable p \<and> (pf_countdown p \<le> 0 \<or> pf_replay p = None \<or> pf_countdown_action p = None)
      then (fails ''durable lifecycle requires countdown, replay lookup, and countdown action factory'', w)
      else (let c1 = (if cp_status c = OtherStatus '''' then c\<lparr>cp_status := Preparing\<rparr> else c) in
        case validate_checkpoint c1 of
          Inl e \<Rightarrow> (Inl e, w)
        | Inr _ \<Rightarrow>
          (let (now, w1) = current_time p w in
           (case now of
              Inl e \<Rightarrow> Inl e
            | Inr _ \<Rightarrow> Inr \<lparr>sq_status = cp_status c1, sq_elapsed = cp_elapsed c1, sq_anchor = 0,
                sq_next = cp_next c1, sq_sequence = cp_sequence c1, sq_failure = None, sq_timer = None,
                sq_candidate = None, sq_last_due = 0, sq_ids = {||}, sq_start = zero_action,
                sq_countdown_anchor = 0, sq_accepting = True, sq_pending = [], sq_world = w1\<rparr>, w1))))"

end
