(* ===== verification/Session.thy ===== *)
theory Session
  imports Sequencer_Requests
begin

text \<open>
  What it takes for an invariant to survive the sequencer's loop. The locale \<open>session\<close> lists the
  elementary events of a session (a call to the world, a load from the schedule, an execution, each
  lifecycle transition) as laws on an invariant \<open>I\<close>; its lemmas walk through the code once and
  conclude that every request and every timer keeps \<open>I\<close>. \<open>m\<close> is the instant of the event being
  served, \<open>J t s\<close> says that \<open>I s\<close> holds and the latest execution was at \<open>t\<close>, \<open>ended w\<close> that the
  schedule has nothing more to offer, and \<open>K\<close> is what holds after a close.
\<close>

subsection \<open>Elementary events\<close>

inductive neutral :: "('w, 'r) platform \<Rightarrow> 'w \<Rightarrow> 'w \<Rightarrow> bool" for p where
  timer: "neutral p w (snd (pf_timer p d w))"
| channel: "neutral p w (snd (pf_channel p t w))"
| stop: "neutral p w (snd (pf_stop p t w))"
| replay: "pf_replay p = Some f \<Longrightarrow> neutral p w (snd (f a w))"
| factory: "pf_countdown_action p = Some f \<Longrightarrow> neutral p w (snd (f a w))"
| now: "neutral p w (snd (pf_now p w))"

definition active :: "status \<Rightarrow> bool" where
  "active st \<longleftrightarrow> st \<in> {Preparing, Countdown, Running, Paused}"

text \<open>Nothing that is due by \<open>t\<close> is still to be executed.\<close>

definition clear :: "('w \<Rightarrow> bool) \<Rightarrow> ('w, 'r) sequencer \<Rightarrow> duration \<Rightarrow> bool" where
  "clear ended s t \<longleftrightarrow> (case sq_candidate s of Some c \<Rightarrow> t < sa_due c | None \<Rightarrow> ended (sq_world s))"

definition loadable :: "('w, 'r) sequencer \<Rightarrow> scheduled_action \<Rightarrow> bool" where
  "loadable s a \<longleftrightarrow> validate_scheduled_action a = Inr () \<and> \<not> (sq_next s > 0 \<and> sa_due a < sq_last_due s) \<and>
     an_id (sa_action a) |\<notin>| sq_ids s"

locale session =
  fixes p :: "('w, 'r) platform" and m :: instant
    and I K :: "('w, 'r) sequencer \<Rightarrow> bool" and J :: "duration \<Rightarrow> ('w, 'r) sequencer \<Rightarrow> bool"
    and ended :: "'w \<Rightarrow> bool"
  assumes J_I: "J t s \<Longrightarrow> I s"
    and I_K: "I s \<Longrightarrow> K s"
    and zero: "I s \<Longrightarrow> sq_status s = Preparing \<or> sq_status s = Countdown \<Longrightarrow> sq_elapsed s = 0"
    and timed: "I s \<Longrightarrow> I (s\<lparr>sq_timer := tm\<rparr>)"
    and called: "I s \<Longrightarrow> neutral p (sq_world s) w \<Longrightarrow> I (s\<lparr>sq_world := w\<rparr>)"
    and looked: "I s \<Longrightarrow> sq_candidate s = None \<Longrightarrow> pf_next p (sq_world s) = (offer, w) \<Longrightarrow>
      I (s\<lparr>sq_world := w\<rparr>) \<and> (offer = Inr None \<longrightarrow> ended w)"
    and loaded: "I s \<Longrightarrow> sq_candidate s = None \<Longrightarrow> pf_next p (sq_world s) = (Inr (Some a), w) \<Longrightarrow>
      loadable s a \<Longrightarrow> I (s\<lparr>sq_world := w, sq_candidate := Some a\<rparr>)"
    and failed: "I s \<Longrightarrow> I (s\<lparr>sq_failure := Some e, sq_elapsed := t, sq_status := Failed\<rparr>)"
    and due: "I s \<Longrightarrow> sq_status s = Running \<Longrightarrow> sq_candidate s = Some a \<Longrightarrow> sa_due a \<le> logical_at s m \<Longrightarrow>
      exec_action p (sa_action a) (sa_due a) s = (x, s') \<Longrightarrow> J (sa_due a) s'"
    and committed: "I s \<Longrightarrow> sq_status s = Running \<Longrightarrow> sq_candidate s = Some a \<Longrightarrow> sa_due a \<le> logical_at s m \<Longrightarrow>
      exec_action p (sa_action a) (sa_due a) s = (x, s1) \<Longrightarrow> commit_candidate p a s1 = (err, s') \<Longrightarrow> J (sa_due a) s'"
    and asked: "I s \<Longrightarrow> active (sq_status s) \<Longrightarrow> (sq_status s = Running \<Longrightarrow> clear ended s (logical_at s m)) \<Longrightarrow>
      exec_action p act (logical_at s m) s = (x, s') \<Longrightarrow> J (logical_at s m) s'"
    and begun: "I s \<Longrightarrow> sq_status s = Preparing \<Longrightarrow> I (s\<lparr>sq_status := Running, sq_elapsed := 0, sq_anchor := m\<rparr>)"
    and counting: "I s \<Longrightarrow> sq_status s = Preparing \<Longrightarrow>
      I (s\<lparr>sq_status := Countdown, sq_elapsed := 0, sq_start := act, sq_countdown_anchor := now\<rparr>)"
    and counted: "I s \<Longrightarrow> sq_status s = Countdown \<or> sq_status s = Paused \<Longrightarrow> pf_now p (sq_world s) = (Inr now, w) \<Longrightarrow>
      I (s\<lparr>sq_world := w, sq_anchor := now, sq_status := Running\<rparr>)"
    and resumed: "I s \<Longrightarrow> sq_status s = Paused \<Longrightarrow> I (s\<lparr>sq_status := Running, sq_anchor := m\<rparr>)"
    and paused: "J t s \<Longrightarrow> sq_status s = Running \<or> sq_status s = Countdown \<Longrightarrow>
      I (s\<lparr>sq_elapsed := t, sq_status := Paused\<rparr>)"
    and stopped: "I s \<Longrightarrow> sq_status s = Running \<or> sq_status s = Countdown \<Longrightarrow>
      (sq_status s = Running \<Longrightarrow> clear ended s (logical_at s m)) \<Longrightarrow>
      I (s\<lparr>sq_elapsed := logical_at s m, sq_status := Paused\<rparr>)"
    and completed: "J t s \<Longrightarrow> active (sq_status s) \<Longrightarrow> I (s\<lparr>sq_elapsed := t, sq_status := Completed\<rparr>)"
    and closed: "I s \<Longrightarrow> K (s\<lparr>sq_accepting := False, sq_pending := [], sq_status := Closed\<rparr>)"

subsection \<open>Selectors of the primitives\<close>

lemma on_world_snd: "snd (on_world f s) = s\<lparr>sq_world := snd (f (sq_world s))\<rparr>"
  by (simp add: on_world_def case_prod_beta)

lemma on_world_eq: "on_world f s = (r, s') \<Longrightarrow> s' = s\<lparr>sq_world := snd (f (sq_world s))\<rparr>"
  using on_world_snd [of f s] by simp

lemma same_world: "s\<lparr>sq_world := sq_world s\<rparr> = s"
  by (cases s) simp

lemma exec_sel:
  assumes "exec_action p a at s = (x, s')"
  shows "sq_status s' = sq_status s" "sq_elapsed s' = sq_elapsed s" "sq_anchor s' = sq_anchor s"
    "sq_candidate s' = sq_candidate s" "sq_timer s' = sq_timer s" "sq_next s' = sq_next s"
    "sq_last_due s' = sq_last_due s" "sq_failure s' = sq_failure s" "sq_ids s' = sq_ids s"
    "sq_sequence s' = sq_sequence s + 1" "sq_world s' = snd (pf_execute p a at (sq_world s))"
    "sq_pending s' = sq_pending s" "sq_accepting s' = sq_accepting s" "logical_at s' t = logical_at s t"
  using assms by (auto simp: exec_action_def on_world_def Let_def case_prod_beta logical_at_def split: sum.splits)

lemma commit_sel:
  assumes "commit_candidate p a s = (r, s')"
  shows "sq_status s' = sq_status s" "sq_elapsed s' = sq_elapsed s" "sq_anchor s' = sq_anchor s"
    "sq_timer s' = sq_timer s" "sq_failure s' = sq_failure s" "sq_sequence s' = sq_sequence s"
    "logical_at s' t = logical_at s t"
  using assms
  by (auto simp: commit_candidate_def on_world_def Let_def case_prod_beta logical_at_def
      split: sum.splits if_splits)

lemma stop_sel:
  assumes "stop_timer p s = (r, s')"
  shows "sq_status s' = sq_status s" "sq_elapsed s' = sq_elapsed s" "sq_anchor s' = sq_anchor s"
    "sq_candidate s' = sq_candidate s" "sq_start s' = sq_start s" "sq_failure s' = sq_failure s"
    "sq_pending s' = sq_pending s" "sq_timer s' = None" "logical_at s' t = logical_at s t"
  using assms
  by (auto simp: stop_timer_def on_world_def Let_def case_prod_beta logical_at_def split: option.splits sum.splits)

lemma fail_sel:
  "sq_status (fail p t e s) = Failed" "sq_pending (fail p t e s) = sq_pending s" "sq_failure (fail p t e s) = Some e"
proof -
  obtain r s' where "stop_timer p (s\<lparr>sq_failure := Some e, sq_elapsed := t, sq_status := Failed\<rparr>) = (r, s')"
    by fastforce
  then show "sq_status (fail p t e s) = Failed" "sq_pending (fail p t e s) = sq_pending s"
    "sq_failure (fail p t e s) = Some e"
    using stop_sel(1,6,7) by (fastforce simp: fail_def)+
qed

lemma load_sel:
  assumes "load_candidate p s = (r, s')"
  shows "sq_status s' = sq_status s" "sq_elapsed s' = sq_elapsed s" "sq_anchor s' = sq_anchor s"
    "sq_failure s' = sq_failure s" "sq_pending s' = sq_pending s" "logical_at s' t = logical_at s t"
    "r = Inr (Some a) \<Longrightarrow> sq_candidate s' = Some a" "r = Inr None \<Longrightarrow> sq_candidate s' = None"
  using assms
  by (auto simp: load_candidate_def on_world_def Let_def case_prod_beta logical_at_def fails_def
      split: option.splits sum.splits if_splits)

lemma recovered_ok [simp]: "recovered fmt (Inr x) = Inr x"
  by (simp add: recovered_def)

lemma recovered_Inr [simp]: "recovered fmt r = Inr x \<longleftrightarrow> r = Inr x"
  by (auto simp: recovered_def split: sum.splits)

lemma read_time:
  assumes "on_world (current_time p) s = (r, s')"
  obtains w where "s' = s\<lparr>sq_world := w\<rparr>" and "neutral p (sq_world s) w"
    and "\<And>t. r = Inr t \<Longrightarrow> pf_now p (sq_world s) = (Inr t, w)"
proof
  show "s' = s\<lparr>sq_world := snd (pf_now p (sq_world s))\<rparr>"
    using assms by (auto simp: on_world_def current_time_def Let_def case_prod_beta)
  show "neutral p (sq_world s) (snd (pf_now p (sq_world s)))" by (rule neutral.now)
  show "pf_now p (sq_world s) = (Inr t, snd (pf_now p (sq_world s)))" if "r = Inr t" for t
    using assms that by (auto simp: on_world_def current_time_def Let_def case_prod_beta prod_eq_iff)
qed

subsection \<open>Walking through the code\<close>

context session
begin

lemma called_snd:
  "I s \<Longrightarrow> I (snd (on_world (create_timer p d) s))" "I s \<Longrightarrow> I (snd (on_world (timer_channel p n) s))"
  "I s \<Longrightarrow> I (snd (on_world (stop_clock_timer p n) s))" "I s \<Longrightarrow> I (snd (on_world (current_time p) s))"
  "I s \<Longrightarrow> I (snd (on_world (countdown_action_of p act) s))"
  by (auto simp: on_world_snd create_timer_def timer_channel_def stop_clock_timer_def current_time_def
      countdown_action_of_def case_prod_beta Let_def same_world intro: called neutral.intros split: option.split)

lemma called_eq:
  "I s \<Longrightarrow> on_world (create_timer p d) s = (r1, s') \<Longrightarrow> I s'"
  "I s \<Longrightarrow> on_world (current_time p) s = (r2, s') \<Longrightarrow> I s'"
  "I s \<Longrightarrow> on_world (timer_channel p n) s = (r3, s') \<Longrightarrow> I s'"
  "I s \<Longrightarrow> on_world (countdown_action_of p act) s = (r4, s') \<Longrightarrow> I s'"
  by (metis called_snd snd_conv)+

lemma stop_keeps: "I s \<Longrightarrow> I (snd (stop_timer p s))"
  using called_snd(3) [OF timed]
  by (auto simp: stop_timer_def case_prod_beta Let_def split: option.split sum.split)

lemma stop_eq: "I s \<Longrightarrow> stop_timer p s = (r, s') \<Longrightarrow> I s'"
  by (metis stop_keeps snd_conv)

lemma fail_keeps: "I s \<Longrightarrow> I (fail p t e s)"
  unfolding fail_def by (intro stop_keeps failed)

lemma failing_keeps: "I s \<Longrightarrow> I (snd (failing p t e s))"
  by (simp add: failing_def Let_def fail_keeps)

lemma load_keeps:
  assumes "I s" and "load_candidate p s = (r, s')"
  shows "I s'" and "r = Inr None \<Longrightarrow> ended (sq_world s')"
proof -
  have "I s' \<and> (r = Inr None \<longrightarrow> ended (sq_world s'))"
  proof (cases "sq_candidate s")
    case None
    obtain offer w where n: "pf_next p (sq_world s) = (offer, w)" by fastforce
    note look = looked [OF assms(1) None n]
    have w: "on_world (next_scheduled_action p) s = (recovered ''schedule next panicked: %v'' offer, s\<lparr>sq_world := w\<rparr>)"
      by (simp add: on_world_def next_scheduled_action_def n)
    have load: "I (s\<lparr>sq_world := w, sq_candidate := Some a\<rparr>)" if "offer = Inr (Some a)" "loadable s a" for a
      using loaded [OF assms(1) None] n that by blast
    show ?thesis
    proof (cases "recovered ''schedule next panicked: %v'' offer")
      case (Inl e)
      then show ?thesis using assms(2) None w look by (auto simp: load_candidate_def)
    next
      case (Inr c)
      then have offer: "offer = Inr c" by simp
      then show ?thesis
      proof (cases c)
        case None
        then show ?thesis using assms(2) \<open>sq_candidate s = None\<close> w Inr look offer by (auto simp: load_candidate_def)
      next
        case (Some a)
        then show ?thesis
          using assms(2) \<open>sq_candidate s = None\<close> w Inr look load [of a] offer
          by (auto simp: load_candidate_def loadable_def fails_def split: sum.splits if_splits)
      qed
    qed
  qed (use assms in \<open>auto simp: load_candidate_def\<close>)
  then show "I s'" and "r = Inr None \<Longrightarrow> ended (sq_world s')" by blast+
qed

lemma arm_at_keeps: "I s \<Longrightarrow> I (snd (arm_timer_at p now s))"
proof -
  assume I: "I s"
  obtain r1 s1 where s1: "stop_timer p s = (r1, s1)" by fastforce
  obtain r2 s2 where s2: "load_candidate p s1 = (r2, s2)" by fastforce
  have k: "I s1" "I s2" using stop_eq [OF I s1] load_keeps(1) [OF _ s2] by simp_all
  then show ?thesis
    using s1 s2 called_snd(1) [OF k(2)]
    by (auto simp: arm_timer_at_def case_prod_beta Let_def intro!: failing_keeps timed split: option.split sum.split)
qed

lemma arm_keeps: "I s \<Longrightarrow> I (snd (arm_timer p s))"
  using called_snd(4) [of s]
  by (auto simp: arm_timer_def case_prod_beta Let_def intro!: failing_keeps arm_at_keeps split: sum.split)

lemma arm_countdown_keeps: "I s \<Longrightarrow> I (snd (arm_countdown_timer p d s))"
  using called_snd(1) [OF stop_keeps] 
  by (auto simp: arm_countdown_timer_def case_prod_beta Let_def intro!: failing_keeps stop_keeps timed
      split: sum.split option.split)

lemma rearm_countdown_keeps: "I s \<Longrightarrow> I (snd (rearm_countdown_timer p s))"
  using called_snd(4) [of s]
  by (auto simp: rearm_countdown_timer_def case_prod_beta Let_def intro!: failing_keeps arm_countdown_keeps
      split: sum.split)

lemma replay_keeps: "I s \<Longrightarrow> replay p act s = (r, s') \<Longrightarrow> I s'"
  using called [OF _ neutral.replay]
  by (auto simp: replay_def on_world_def case_prod_beta Let_def split: option.splits)

lemma exec_idle:
  assumes "I s" "sq_status s = Preparing \<or> sq_status s = Countdown \<or> sq_status s = Paused"
    and "exec_action p act (sq_elapsed s) s = (x, s')"
  shows "J (sq_elapsed s) s'" "I s'" "sq_status s' = sq_status s"
proof -
  have "logical_at s m = sq_elapsed s" using assms(2) by (auto simp: logical_at_def)
  then show "J (sq_elapsed s) s'"
    using asked [OF assms(1), of act x s'] assms(2,3) by (auto simp: active_def)
  then show "I s'" by (rule J_I)
  show "sq_status s' = sq_status s" using exec_sel(1) [OF assms(3)] .
qed

lemma complete_countdown_keeps:
  assumes I: "I s" and st: "sq_status s = Countdown"
  shows "I (snd (complete_countdown p s))"
proof -
  obtain r1 s1 where s1: "stop_timer p s = (r1, s1)" by fastforce
  obtain r2 s2 where s2: "on_world (countdown_action_of p (sq_start s1)) s1 = (r2, s2)" by fastforce
  have k1: "I s1" by (rule stop_eq [OF I s1])
  have k2: "I s2" by (rule called_eq(4) [OF k1 s2])
  have c2: "sq_status s2 = Countdown" using st stop_sel(1) [OF s1] on_world_eq [OF s2] by simp
  have z: "sq_elapsed s2 = 0" using zero [OF k2] c2 by simp
  have run: "I (snd (let (x, s3) = exec_action p a 0 s2 in
              if ex_disp x \<noteq> DispContinue
              then failing p 0 (action_failed ''countdown action'' a (cause_of x ''countdown action must continue'')) s3
              else (let (now, s4) = on_world (current_time p) s3 in
                case now of
                  Inl e \<Rightarrow> failing p 0 e s4
                | Inr t \<Rightarrow> arm_timer_at p t (s4\<lparr>sq_anchor := t, sq_status := Running\<rparr>))))" for a
  proof -
    obtain x s3 where x: "exec_action p a 0 s2 = (x, s3)" by fastforce
    then have x': "exec_action p a (sq_elapsed s2) s2 = (x, s3)" using z by simp
    have k3: "I s3" and c3: "sq_status s3 = Countdown" using exec_idle(2,3) [OF k2 _ x'] c2 by simp_all
    obtain r4 s4 where s4: "on_world (current_time p) s3 = (r4, s4)" by fastforce
    have k4: "I s4" by (rule called_eq(2) [OF k3 s4])
    obtain w where w: "s4 = s3\<lparr>sq_world := w\<rparr>" "\<And>t. r4 = Inr t \<Longrightarrow> pf_now p (sq_world s3) = (Inr t, w)"
      using read_time [OF s4] by metis
    have "I (s4\<lparr>sq_anchor := t, sq_status := Running\<rparr>)" if "r4 = Inr t" for t
      using counted [OF k3 _ w(2) [OF that]] c3 w(1) by simp
    then show ?thesis using x s4 k3 k4 by (auto intro: failing_keeps arm_at_keeps split: sum.split)
  qed
  show ?thesis
    using s1 s2 k1 k2 run by (auto simp: complete_countdown_def intro: failing_keeps split: option.split sum.split)
qed

text \<open>The loop over due actions ends completed, or still running with nothing due left, or failed.\<close>

definition settled :: "('w, 'r) sequencer \<Rightarrow> duration \<Rightarrow> go_error option \<times> ('w, 'r) sequencer \<Rightarrow> bool" where
  "settled s t out \<longleftrightarrow> I (snd out) \<and>
     (case fst out of
        Some _ \<Rightarrow> sq_status (snd out) = Failed
      | None \<Rightarrow> sq_status (snd out) = Completed \<or>
          sq_status (snd out) = Running \<and> (\<forall>u. logical_at (snd out) u = logical_at s u) \<and>
          clear ended (snd out) t)"

lemma failing_settled: "I s' \<Longrightarrow> settled s t (failing p d e s')"
  by (simp add: settled_def failing_def Let_def fail_sel fail_keeps)

lemma process_due_settled:
  assumes "process_due p t s = Some out" and "I s" "sq_status s = Running" "t \<le> logical_at s m"
  shows "settled s t out"
proof -
  have "\<lbrakk>p' = p; I s; sq_status s = Running; t \<le> logical_at s m\<rbrakk> \<Longrightarrow> settled s t out"
    if "process_due p' t s = Some out" for p' :: "('w, 'r) platform" and t s out
    using that
  proof (induction rule: process_due.raw_induct [rotated, consumes 1])
    case (1 process_due p' t s out)
    note I = 1(4) and run = 1(5) and le = 1(6)
    have body: "(let (loaded, s1) = load_candidate p s in
      case loaded of
        Inl e \<Rightarrow> Some (failing p t (Wrapped ''load next scheduled action: %w'' e) s1)
      | Inr None \<Rightarrow> Some (None, s1)
      | Inr (Some item) \<Rightarrow>
          if sa_due item > t then Some (None, s1)
          else (let (x, s2) = exec_action p (sa_action item) (sa_due item) s1 in
            if ex_disp x = DispReject \<or> ex_disp x = DispFail
            then Some (failing p (sa_due item)
              (action_failed ''scheduled action'' (sa_action item) (cause_of x [])) s2)
            else (let (committed, s3) = commit_candidate p item s2 in
              case committed of
                Some e \<Rightarrow> Some (failing p (sa_due item)
                  (Wrapped (''commit scheduled action %q: %w'' @ an_id (sa_action item)) e) s3)
              | None \<Rightarrow>
                  if ex_disp x = DispComplete
                  then Some (None, snd (stop_timer p (s3\<lparr>sq_elapsed := sa_due item, sq_status := Completed\<rparr>)))
                  else process_due p t s3))) = Some out"
      using 1(2) unfolding 1(3) .
    obtain r1 s1 where s1: "load_candidate p s = (r1, s1)" by fastforce
    have k1: "I s1" by (rule load_keeps(1) [OF I s1])
    have st1: "sq_status s1 = Running" "\<And>u. logical_at s1 u = logical_at s u"
      using load_sel(1,6) [OF s1] run by simp_all
    note body = body [unfolded Let_def s1 prod.case]
    show ?case
    proof (cases r1)
      case (Inl e)
      then have "out = failing p t (Wrapped ''load next scheduled action: %w'' e) s1" using body by simp
      then show ?thesis using failing_settled [OF k1] by simp
    next
      case (Inr c)
      show ?thesis
      proof (cases c)
        case None
        then have "out = (None, s1)" using body Inr by simp
        then show ?thesis
          using k1 st1 load_keeps(2) [OF I s1] load_sel(8) [OF s1] Inr None by (simp add: settled_def clear_def)
      next
        case (Some item)
        have cand: "sq_candidate s1 = Some item" using load_sel(7) [OF s1] Inr Some by simp
        show ?thesis
        proof (cases "sa_due item > t")
          case True
          then have "out = (None, s1)" using body Inr Some by simp
          then show ?thesis using k1 st1 cand True by (simp add: settled_def clear_def)
        next
          case False
          then have le1: "sa_due item \<le> logical_at s1 m" using le st1 by simp
          obtain x s2 where s2: "exec_action p (sa_action item) (sa_due item) s1 = (x, s2)" by fastforce
          have k2: "I s2" by (rule J_I [OF due [OF k1 st1(1) cand le1 s2]])
          obtain r3 s3 where s3: "commit_candidate p item s2 = (r3, s3)" by fastforce
          have J3: "J (sa_due item) s3" by (rule committed [OF k1 st1(1) cand le1 s2 s3])
          note k3 = J_I [OF J3]
          have st3: "sq_status s3 = Running" "\<And>u. logical_at s3 u = logical_at s u"
            using commit_sel(1,7) [OF s3] exec_sel(1,14) [OF s2] st1 by simp_all
          note body = body [unfolded Inr Some sum.case option.case if_not_P [OF False] s2 s3 prod.case]
          consider (bad) "ex_disp x = DispReject \<or> ex_disp x = DispFail"
            | (uncommitted) e where "\<not> (ex_disp x = DispReject \<or> ex_disp x = DispFail)" "r3 = Some e"
            | (complete) "r3 = None" "ex_disp x = DispComplete"
            | (more) "\<not> (ex_disp x = DispReject \<or> ex_disp x = DispFail)" "r3 = None" "ex_disp x \<noteq> DispComplete"
            by (cases r3) auto
          then show ?thesis
          proof cases
            case bad
            then have "out = failing p (sa_due item)
                (action_failed ''scheduled action'' (sa_action item) (cause_of x [])) s2"
              using body by auto
            then show ?thesis using failing_settled [OF k2] by simp
          next
            case uncommitted
            then have "out = failing p (sa_due item)
                (Wrapped (''commit scheduled action %q: %w'' @ an_id (sa_action item)) e) s3"
              using body by simp
            then show ?thesis using failing_settled [OF k3] by simp
          next
            case complete
            let ?s = "s3\<lparr>sq_elapsed := sa_due item, sq_status := Completed\<rparr>"
            have out: "out = (None, snd (stop_timer p ?s))" using body complete by simp
            have "I ?s" using completed [OF J3] st3(1) by (simp add: active_def)
            moreover have "sq_status (snd (stop_timer p ?s)) = Completed"
              using stop_sel(1) [of p ?s] by (cases "stop_timer p ?s") simp
            ultimately show ?thesis using out stop_keeps by (simp add: settled_def)
          next
            case more
            then have "process_due p t s3 = Some out" using body by simp
            from 1(1) [OF this refl k3 st3(1)] have "settled s3 t out" using le st3(2) by simp
            then show ?thesis using st3(2) by (simp add: settled_def split: option.splits)
          qed
        qed
      qed
    qed
  qed
  then show ?thesis using assms by blast
qed

subsection \<open>The handlers\<close>

lemma reply_state [simp]:
  "snd (refuse_state s) = s" "snd (failed_reply q x1 e s) = s" "snd (execution_reply x s) = s"
  "snd (rejected_reply x s) = s" "snd (snapshot_reply q x1 s) = s" "snd (replayed_reply q x s) = s"
  "snd (project_view q s) = s" "snd (alone (r, s)) = s" "snd (alone r1) = snd r1"
  by (simp_all add: refuse_state_def failed_reply_def execution_reply_def rejected_reply_def snapshot_reply_def
      replayed_reply_def project_view_def alone_def Let_def split: sum.split)

lemma rearmed_keeps: "I (snd r) \<Longrightarrow> (\<And>s. snd (ok s) = s) \<Longrightarrow> I (snd (rearmed q x ok r))"
  by (cases r) (auto simp: rearmed_def split: option.split)

lemma fail_execution_keeps: "I s \<Longrightarrow> I (snd (fail_execution p q what msg t x s))"
  by (simp add: fail_execution_def Let_def fail_keeps)

lemma start_keeps: "I s \<Longrightarrow> rq_received q = m \<Longrightarrow> I (snd (handle_start p q s))"
  using begun [of s] by (simp add: handle_start_def rearmed_keeps arm_keeps)

lemma resume_keeps: "I s \<Longrightarrow> rq_received q = m \<Longrightarrow> I (snd (handle_resume p q s))"
  using resumed [of s] by (simp add: handle_resume_def rearmed_keeps arm_keeps)

lemma start_action_keeps:
  assumes I: "I s"
  shows "I (snd (handle_start_action p q s))"
proof (cases "sq_status s \<noteq> Preparing \<or> pf_countdown p \<le> 0")
  case True
  then show ?thesis using I by (auto simp: handle_start_action_def)
next
  case False
  obtain x s1 where x: "exec_action p (rq_action q) 0 s = (x, s1)" by fastforce
  have z: "sq_elapsed s = 0" using zero [OF I] False by simp
  have k1: "I s1" and c1: "sq_status s1 = Preparing"
    using exec_idle(2,3) [OF I, of "rq_action q" x s1] x z False by simp_all
  obtain r2 s2 where s2: "on_world (current_time p) s1 = (r2, s2)" by fastforce
  have k2: "I s2" by (rule called_eq(2) [OF k1 s2])
  have c2: "sq_status s2 = Preparing" using c1 on_world_eq [OF s2] by simp
  show ?thesis
    using False x s2 k1 k2 c2
    by (auto simp: handle_start_action_def Let_def intro!: fail_keeps fail_execution_keeps rearmed_keeps
        arm_countdown_keeps counting split: sum.split)
qed

lemma resume_action_keeps:
  assumes I: "I s"
  shows "I (snd (handle_resume_action p q s))"
proof (cases "sq_status s \<noteq> Paused")
  case True
  then show ?thesis using I by (auto simp: handle_resume_action_def)
next
  case False
  obtain x s1 where x: "exec_action p (rq_action q) (sq_elapsed s) s = (x, s1)" by fastforce
  have k1: "I s1" and c1: "sq_status s1 = Paused" using exec_idle(2,3) [OF I _ x] False by simp_all
  obtain r2 s2 where s2: "on_world (current_time p) s1 = (r2, s2)" by fastforce
  have k2: "I s2" by (rule called_eq(2) [OF k1 s2])
  obtain w where w: "s2 = s1\<lparr>sq_world := w\<rparr>" "\<And>t. r2 = Inr t \<Longrightarrow> pf_now p (sq_world s1) = (Inr t, w)"
    using read_time [OF s2] by metis
  have "I (s2\<lparr>sq_status := Running, sq_anchor := t\<rparr>)" if "r2 = Inr t" for t
  proof -
    have "s2\<lparr>sq_status := Running, sq_anchor := t\<rparr> = s1\<lparr>sq_world := w, sq_anchor := t, sq_status := Running\<rparr>"
      by (cases s1) (simp add: w(1))
    then show ?thesis using counted [OF k1 _ w(2) [OF that]] c1 by simp
  qed
  then show ?thesis
    using False x s2 k1 k2
    by (auto simp: handle_resume_action_def Let_def intro!: fail_keeps fail_execution_keeps rearmed_keeps
        arm_at_keeps split: sum.split)
qed

text \<open>A handler that first brings the session up to date with its schedule.\<close>

lemma after_due:
  assumes I: "I s" and run: "sq_status s = Running" and q: "rq_received q = m"
    and out: "map_option (\<lambda>(due, s1).
          case due of Some e \<Rightarrow> bad e s1 | None \<Rightarrow> if sq_status s1 = Completed then over s1 else go s1)
        (process_due p (logical_at s (rq_received q)) s) = Some r"
    and bad: "\<And>e s1. I s1 \<Longrightarrow> sq_status s1 = Failed \<Longrightarrow> R (bad e s1)"
    and over: "\<And>s1. I s1 \<Longrightarrow> sq_status s1 = Completed \<Longrightarrow> R (over s1)"
    and go: "\<And>s1. I s1 \<Longrightarrow> sq_status s1 = Running \<Longrightarrow> logical_at s1 m = logical_at s m \<Longrightarrow>
      clear ended s1 (logical_at s1 m) \<Longrightarrow> R (go s1)"
  shows "R r"
proof -
  obtain due s1 where d: "process_due p (logical_at s m) s = Some (due, s1)"
    and r: "r = (case due of Some e \<Rightarrow> bad e s1 | None \<Rightarrow> if sq_status s1 = Completed then over s1 else go s1)"
    using out q by auto
  have set: "settled s (logical_at s m) (due, s1)" by (rule process_due_settled [OF d I run order_refl])
  show ?thesis
    using set r bad over go [of s1] by (auto simp: settled_def split: option.splits)
qed

lemma submit_keeps:
  assumes I: "I s" and q: "rq_received q = m" and out: "handle_submit p q s = Some r"
  shows "I (snd r)"
proof (cases "sq_status s = Running")
  case False
  then show ?thesis using out I by (auto simp: handle_submit_def)
next
  case True
  then have run: "\<not> sq_status s \<noteq> Running" by simp
  note out = out [unfolded handle_submit_def if_not_P [OF run] Let_def]
  show ?thesis
  proof (rule after_due [OF I True q out, where R = "\<lambda>r. I (snd r)"], goal_cases)
    case (3 s1)
    obtain x s2 where x: "exec_action p (rq_action q) (logical_at s m) s1 = (x, s2)" by fastforce
    have J2: "J (logical_at s m) s2"
      using asked [OF 3(1), of "rq_action q" x s2] 3 x by (simp add: active_def)
    have "I (s2\<lparr>sq_elapsed := logical_at s m, sq_status := Completed\<rparr>)"
      using completed [OF J2] exec_sel(1) [OF x] 3(2) by (simp add: active_def)
    then show ?case
      using x q J_I [OF J2] by (simp add: rearmed_keeps arm_keeps stop_keeps fail_execution_keeps)
  qed simp_all
qed

lemma pause_keeps:
  assumes I: "I s" and q: "rq_received q = m" and out: "handle_pause p q s = Some r"
  shows "I (snd r)"
proof (cases "pf_durable p \<or> sq_status s \<noteq> Running")
  case True
  then show ?thesis using out I by (auto simp: handle_pause_def)
next
  case False
  then have run: "sq_status s = Running" by simp
  note out = out [unfolded handle_pause_def if_not_P [OF False] Let_def]
  show ?thesis
  proof (rule after_due [OF I run q out, where R = "\<lambda>r. I (snd r)"], goal_cases)
    case (3 s1)
    then show ?case using stopped [of s1] q by (simp add: stop_keeps)
  qed simp_all
qed

lemma pause_now_keeps:
  assumes J: "\<And>x s1. exec_action p (rq_action q) t s = (x, s1) \<Longrightarrow> J t s1"
    and st: "sq_status s = Running \<or> sq_status s = Countdown"
  shows "I (snd (pause_now p q t s))"
proof -
  obtain x s1 where x: "exec_action p (rq_action q) t s = (x, s1)" by fastforce
  have P: "I (s1\<lparr>sq_elapsed := t, sq_status := Paused\<rparr>)"
    using paused [OF J [OF x]] exec_sel(1) [OF x] st by simp
  obtain r2 s2 where s2: "stop_timer p (s1\<lparr>sq_elapsed := t, sq_status := Paused\<rparr>) = (r2, s2)" by fastforce
  have "I s2" by (rule stop_eq [OF P s2])
  then show ?thesis
    using x s2 J_I [OF J [OF x]]
    by (simp add: pause_now_def Let_def fail_keeps fail_execution_keeps split: option.split)
qed

lemma pause_action_keeps:
  assumes I: "I s" and q: "rq_received q = m" and out: "handle_pause_action p q s = Some r"
  shows "I (snd r)"
proof (cases "sq_status s = Running")
  case True
  then have run: "\<not> (sq_status s \<noteq> Running \<and> sq_status s \<noteq> Countdown)" by simp
  note out = out [unfolded handle_pause_action_def if_not_P [OF run] if_P [OF True] Let_def]
  show ?thesis
  proof (rule after_due [OF I True q out, where R = "\<lambda>r. I (snd r)"], goal_cases)
    case (3 s1)
    have "J (logical_at s m) s2" if "exec_action p (rq_action q) (logical_at s m) s1 = (x, s2)" for x s2
      using asked [OF 3(1), of "rq_action q" x s2] 3 that by (simp add: active_def)
    then show ?case using 3 q by (simp add: pause_now_keeps)
  qed simp_all
next
  case False
  show ?thesis
  proof (cases "sq_status s = Countdown")
    case True
    have "J 0 s1" if "exec_action p (rq_action q) 0 s = (x, s1)" for x s1
      using exec_idle(1) [OF I, of "rq_action q" x s1] zero [OF I] True that by simp
    then show ?thesis using out True by (auto simp: handle_pause_action_def intro!: pause_now_keeps)
  qed (use False out I in \<open>auto simp: handle_pause_action_def\<close>)
qed

lemma complete_now_keeps:
  assumes J: "\<And>x s1. exec_action p (rq_action q) t s = (x, s1) \<Longrightarrow> J t s1" and st: "active (sq_status s)"
  shows "I (snd (complete_now p q t s))"
proof -
  obtain x s1 where x: "exec_action p (rq_action q) t s = (x, s1)" by fastforce
  have "I (s1\<lparr>sq_elapsed := t, sq_status := Completed\<rparr>)"
    using completed [OF J [OF x]] exec_sel(1) [OF x] st by simp
  then show ?thesis
    using x J_I [OF J [OF x]]
    by (simp add: complete_now_def Let_def rearmed_keeps arm_keeps stop_keeps fail_execution_keeps)
qed

lemma complete_action_keeps:
  assumes I: "I s" and q: "rq_received q = m" and out: "handle_complete_action p q s = Some r"
  shows "I (snd r)"
proof (cases "sq_status s = Running")
  case True
  then have run: "\<not> sq_status s \<notin> {Preparing, Countdown, Running, Paused}" by simp
  note out = out [unfolded handle_complete_action_def if_not_P [OF run] if_P [OF True] Let_def]
  show ?thesis
  proof (rule after_due [OF I True q out, where R = "\<lambda>r. I (snd r)"], goal_cases)
    case (3 s1)
    have "J (logical_at s m) s2" if "exec_action p (rq_action q) (logical_at s m) s1 = (x, s2)" for x s2
      using asked [OF 3(1), of "rq_action q" x s2] 3 that by (simp add: active_def)
    then show ?case using 3 q by (simp add: complete_now_keeps active_def)
  qed simp_all
next
  case False
  show ?thesis
  proof (cases "sq_status s \<in> {Preparing, Countdown, Paused}")
    case True
    have "J (sq_elapsed s) s1" if "exec_action p (rq_action q) (sq_elapsed s) s = (x, s1)" for x s1
      using exec_idle(1) [OF I _ that] True by auto
    then show ?thesis using out True
      by (auto simp: handle_complete_action_def active_def intro!: complete_now_keeps)
  qed (use False out I in \<open>auto simp: handle_complete_action_def\<close>)
qed

lemma view_keeps:
  assumes I: "I s" and q: "rq_received q = m" and out: "handle_view p q s = Some r"
  shows "I (snd r)"
proof (cases "sq_status s = Running")
  case True
  obtain due s1 where d: "process_due p (logical_at s m) s = Some (due, s1)"
    using out True q by (auto simp: handle_view_def)
  have set: "I s1" using process_due_settled [OF d I True order_refl] by (simp add: settled_def)
  show ?thesis
    using out True q d set
    by (auto simp: handle_view_def intro!: rearmed_keeps arm_keeps split: option.splits if_splits)
qed (use out I in \<open>auto simp: handle_view_def\<close>)

lemma close_now_keeps: "I s \<Longrightarrow> K (snd (close_now p q err s))"
  using closed [OF stop_keeps]
  by (simp add: close_now_def stop_admission_def Let_def case_prod_beta)

lemma close_keeps:
  assumes I: "I s" and q: "rq_received q = m" and out: "handle_close p q s = Some r"
  shows "K (snd r)"
proof (cases "sq_status s = Running")
  case True
  obtain due s1 where d: "process_due p (logical_at s m) s = Some (due, s1)"
    using out True q by (auto simp: handle_close_def Let_def)
  have set: "settled s (logical_at s m) (due, s1)" by (rule process_due_settled [OF d I True order_refl])
  then have "I (s1\<lparr>sq_elapsed := logical_at s m, sq_status := Paused\<rparr>)" if "due = None" "sq_status s1 = Running"
    using stopped [of s1] that by (simp add: settled_def)
  then show ?thesis
    using out True q d set
    by (auto simp: handle_close_def Let_def settled_def intro!: close_now_keeps split: option.splits if_splits)
next
  case False
  show ?thesis
  proof (cases "sq_status s = Countdown")
    case True
    have same: "s\<lparr>sq_elapsed := 0, sq_status := Paused\<rparr> = s\<lparr>sq_status := Paused, sq_elapsed := 0\<rparr>" by simp
    have "logical_at s m = 0" using zero [OF I] True by (simp add: logical_at_def)
    then have "I (s\<lparr>sq_elapsed := 0, sq_status := Paused\<rparr>)" using stopped [OF I] True by simp
    then have "I (s\<lparr>sq_status := Paused, sq_elapsed := 0\<rparr>)" unfolding same .
    then show ?thesis using out True by (auto simp: handle_close_def intro!: close_now_keeps)
  qed (use False out I in \<open>auto simp: handle_close_def intro!: close_now_keeps\<close>)
qed

text \<open>Every request but a close keeps \<open>I\<close> and refuses no other request.\<close>

lemma serve_open:
  assumes I: "I s" and q: "rq_received q = m" and out: "serve p q s = Some r" and k: "rq_kind q \<noteq> ReqClose"
  shows "I (snd r) \<and> snd (fst r) = []"
  using out I q k
  by (cases "rq_kind q")
    (auto simp: serve_def alone_def start_keeps start_action_keeps resume_keeps resume_action_keeps
      dest: submit_keeps [OF I q] pause_keeps [OF I q] pause_action_keeps [OF I q]
        complete_action_keeps [OF I q] view_keeps [OF I q])

lemma request_open:
  assumes I: "I s" and q: "rq_received q = m" and out: "handle_request p q s = Some r" and k: "rq_kind q \<noteq> ReqClose"
  shows "I (snd r) \<and> snd (fst r) = []"
proof -
  obtain found s1 where f: "(if carries_action (rq_kind q) then replay p (rq_action q) s else (None, s)) = (found, s1)"
    by fastforce
  have I1: "I s1" using f replay_keeps [OF I] I by (auto split: if_splits)
  define s2 where "s2 = (if countdown_over p q s1 then snd (complete_countdown p s1) else s1)"
  have I2: "I s2" using complete_countdown_keeps [OF I1] I1 by (simp add: s2_def countdown_over_def)
  note out = out [unfolded handle_request_def f Let_def prod.case s2_def [symmetric]]
  show ?thesis
    using out I1 I2 serve_open [OF I2 q _ k]
    by (auto simp: alone_def split: option.splits if_splits)
qed

lemma request_close: "rq_kind q = ReqClose \<Longrightarrow> handle_request p q s = handle_close p q s"
  by (simp add: handle_request_def carries_action_def countdown_over_def serve_def)

lemma request_keeps:
  assumes I: "I s" and q: "rq_received q = m" and out: "handle_request p q s = Some r"
  shows "K (snd r)"
proof (cases "rq_kind q = ReqClose")
  case True
  then show ?thesis using close_keeps [OF I q] out request_close by simp
next
  case False
  then show ?thesis using request_open [OF I q out] I_K by simp
qed

text \<open>The timer, without a waiting request.\<close>

lemma poll_keeps: "I s \<Longrightarrow> I (poll_timer p s)"
  using called_eq(3) by (fastforce simp: poll_timer_def Let_def intro: fail_keeps split: option.split sum.split prod.split)

lemma fired_keeps:
  assumes I: "I s" and none: "sq_pending s = []" and now: "logical_at s now \<le> logical_at s m"
    and out: "fired p now s = Some r"
  shows "I (snd r)"
proof -
  let ?s = "s\<lparr>sq_timer := None\<rparr>"
  have I': "I ?s" by (rule timed [OF I])
  have at: "logical_at ?s u = logical_at s u" for u by (simp add: logical_at_def)
  consider (run) "sq_status s = Running" | (count) "sq_status s = Countdown"
    | (other) "sq_status s \<noteq> Running" "sq_status s \<noteq> Countdown" by auto
  then show ?thesis
  proof cases
    case run
    then obtain due s1 where d: "process_due p (logical_at s now) ?s = Some (due, s1)"
      and r: "r = (None, snd (arm_timer p s1))"
      using out none at by (auto simp: fired_def dequeue_def)
    have "I s1" using process_due_settled [OF d I'] run now at by (simp add: settled_def)
    then show ?thesis using r arm_keeps by simp
  next
    case count
    then show ?thesis
      using out none complete_countdown_keeps [OF I'] by (auto simp: fired_def dequeue_def)
  qed (use out none I' in \<open>auto simp: fired_def dequeue_def\<close>)
qed

end

end
