(* ===== verification/Session_Runs.thy ===== *)
theory Session_Runs
  imports Session
begin

text \<open>
  Runs of a sequencer: creation, then in any order and number requests from clients, turns of the
  loop and firings of the timer. The platform is arbitrary; \<open>logged p\<close> is \<open>p\<close> with an executor that
  keeps a list of its calls. The contract of \<open>Session\<close> is interpreted on the structural invariant:
  the lifecycle graph, the numbering of executions and the queue.
\<close>

subsection \<open>A platform that records its executions\<close>

type_synonym 'w recorded = "'w \<times> (action \<times> duration) list"

definition beside :: "('w \<Rightarrow> 'a \<times> 'w) \<Rightarrow> 'w recorded \<Rightarrow> 'a \<times> 'w recorded" where
  "beside f w = (let (r, w') = f (fst w) in (r, (w', snd w)))"

definition logged :: "('w, 'r) platform \<Rightarrow> ('w recorded, 'r) platform" where
  "logged p = \<lparr>pf_next = beside (pf_next p), pf_commit = (\<lambda>a. beside (pf_commit p a)),
     pf_execute = (\<lambda>a t w. let (r, w') = pf_execute p a t (fst w) in (r, (w', snd w @ [(a, t)]))),
     pf_replay = map_option (\<lambda>f a. beside (f a)) (pf_replay p), pf_now = beside (pf_now p),
     pf_timer = (\<lambda>d. beside (pf_timer p d)), pf_channel = (\<lambda>t. beside (pf_channel p t)),
     pf_stop = (\<lambda>t. beside (pf_stop p t)), pf_countdown = pf_countdown p,
     pf_countdown_action = map_option (\<lambda>f a. beside (f a)) (pf_countdown_action p), pf_durable = pf_durable p\<rparr>"

definition executed :: "('w recorded, 'r) sequencer \<Rightarrow> (action \<times> duration) list" where
  "executed s = snd (sq_world s)"

lemma beside_snd [simp]: "snd (snd (beside f w)) = snd w" "fst (snd (beside f w)) = snd (f (fst w))"
  "fst (beside f w) = fst (f (fst w))"
  by (simp_all add: beside_def case_prod_beta Let_def)

lemma neutral_logged: "neutral (logged p) w w' \<Longrightarrow> snd w' = snd w"
  by (cases rule: neutral.cases) (auto simp: logged_def)

lemma logged_next: "pf_next (logged p) w = (r, w') \<Longrightarrow> snd w' = snd w"
  by (drule arg_cong [where f = "\<lambda>out. snd (snd out)"]) (simp add: logged_def)

lemma logged_commit: "commit_candidate (logged p) a s = (r, s') \<Longrightarrow> executed s' = executed s"
  by (auto simp: commit_candidate_def executed_def on_world_def commit_scheduled_action_def logged_def
      case_prod_beta Let_def split: if_splits sum.splits)

lemma logged_exec:
  "exec_action (logged p) a t s = (x, s') \<Longrightarrow> executed s' = executed s @ [(a, t)]"
  by (auto simp: exec_sel(11) executed_def) (simp add: logged_def case_prod_beta Let_def)

subsection \<open>The lifecycle\<close>

inductive lifecycle :: "status \<Rightarrow> status \<Rightarrow> bool" where
  begin_now: "lifecycle Preparing Running"
| count: "lifecycle Preparing Countdown"
| counted: "lifecycle Countdown Running"
| abandon: "lifecycle Countdown Paused"
| pause: "lifecycle Running Paused"
| resume: "lifecycle Paused Running"
| complete: "active st \<Longrightarrow> lifecycle st Completed"
| failure: "st \<noteq> Closed \<Longrightarrow> lifecycle st Failed"
| close: "st \<noteq> Closed \<Longrightarrow> lifecycle st Closed"

inductive_simps lifecycle_from [simp]:
  "lifecycle Completed st" "lifecycle Failed st" "lifecycle Closed st"

lemma active_simps [simp]:
  "active Preparing" "active Countdown" "active Running" "active Paused"
  "\<not> active Completed" "\<not> active Failed" "\<not> active Closed"
  by (simp_all add: active_def)

lemma lifecycle_active: "lifecycle st st' \<Longrightarrow> active st' \<Longrightarrow> active st"
  by (cases rule: lifecycle.cases) auto

lemma lifecycles_active: "lifecycle\<^sup>*\<^sup>* st st' \<Longrightarrow> active st' \<Longrightarrow> active st"
  by (induction rule: rtranclp_induct) (auto dest: lifecycle_active)

lemma lifecycle_on: "lifecycle\<^sup>*\<^sup>* st st' \<Longrightarrow> lifecycle st' st'' \<Longrightarrow> lifecycle\<^sup>*\<^sup>* st st''"
  by (rule rtranclp.rtrancl_into_rtrancl)

subsection \<open>The structural invariant\<close>

definition extends :: "('w recorded, 'r) sequencer \<Rightarrow> ('w recorded, 'r) sequencer \<Rightarrow> bool" where
  "extends base s \<longleftrightarrow> (\<exists>calls. executed s = executed base @ calls \<and>
     sq_sequence s = sq_sequence base + of_nat (length calls) \<and> (active (sq_status base) \<or> calls = []))"

definition sane :: "('w, 'r) sequencer \<Rightarrow> bool" where
  "sane s \<longleftrightarrow> (sq_status s = Preparing \<or> sq_status s = Countdown \<longrightarrow> sq_elapsed s = 0) \<and>
     (sq_status s = Failed \<longrightarrow> sq_failure s \<noteq> None) \<and>
     (sq_status s = Closed \<longrightarrow> \<not> sq_accepting s \<and> sq_pending s = [])"

definition reached :: "('w recorded, 'r) sequencer \<Rightarrow> ('w recorded, 'r) sequencer \<Rightarrow> bool" where
  "reached base s \<longleftrightarrow> sane s \<and> lifecycle\<^sup>*\<^sup>* (sq_status base) (sq_status s) \<and> extends base s"

definition within :: "('w recorded, 'r) sequencer \<Rightarrow> ('w recorded, 'r) sequencer \<Rightarrow> bool" where
  "within base s \<longleftrightarrow> reached base s \<and> sq_status s \<noteq> Closed \<and> sq_pending s = sq_pending base \<and>
     sq_accepting s = sq_accepting base"

lemma extends_same: "extends base s \<Longrightarrow> executed s' = executed s \<Longrightarrow> sq_sequence s' = sq_sequence s \<Longrightarrow> extends base s'"
  by (simp add: extends_def)

lemma extends_exec:
  assumes "extends base s" and "active (sq_status base)" and "exec_action (logged p) a t s = (x, s')"
  shows "extends base s'"
proof -
  obtain calls where "executed s = executed base @ calls" "sq_sequence s = sq_sequence base + of_nat (length calls)"
    using assms(1) by (auto simp: extends_def)
  then have "executed s' = executed base @ calls @ [(a, t)] \<and>
      sq_sequence s' = sq_sequence base + of_nat (length (calls @ [(a, t)]))"
    using logged_exec [OF assms(3)] exec_sel(10) [OF assms(3)] by simp
  then show ?thesis using assms(2) unfolding extends_def by blast
qed

lemma within_exec:
  assumes w: "within base s" and act: "active (sq_status s)" and x: "exec_action (logged p) a t s = (x, s')"
  shows "within base s'"
proof -
  have "active (sq_status base)" using w act lifecycles_active by (auto simp: within_def reached_def)
  then have "extends base s'" using extends_exec [OF _ _ x] w by (auto simp: within_def reached_def)
  then show ?thesis using w exec_sel [OF x] by (simp add: within_def reached_def sane_def)
qed

lemma within_commit:
  assumes w: "within base s" and c: "commit_candidate (logged p) a s = (r, s')"
  shows "within base s'"
proof -
  have "sq_pending s' = sq_pending s" "sq_accepting s' = sq_accepting s"
    using c by (auto simp: commit_candidate_def on_world_def Let_def case_prod_beta split: if_splits sum.splits)
  moreover have "extends base s'"
    using w extends_same logged_commit [OF c] commit_sel(6) [OF c] by (auto simp: within_def reached_def)
  ultimately show ?thesis
    using w commit_sel [OF c] by (simp add: within_def reached_def sane_def)
qed

text \<open>A change of the state that executes nothing and takes an edge of the lifecycle.\<close>

lemma within_change:
  assumes "within base s" and "executed s' = executed s" "sq_sequence s' = sq_sequence s"
    "sq_pending s' = sq_pending s" "sq_accepting s' = sq_accepting s" "sq_status s' \<noteq> Closed"
    and "sq_status s' = Preparing \<or> sq_status s' = Countdown \<Longrightarrow> sq_elapsed s' = 0"
    and "sq_status s' = Failed \<Longrightarrow> sq_failure s' \<noteq> None"
    and "sq_status s' = sq_status s \<or> lifecycle (sq_status s) (sq_status s')"
  shows "within base s'"
  using assms extends_same [of base s s'] by (auto simp: within_def reached_def sane_def intro: lifecycle_on)

interpretation shape: session "logged p" m "within base" "reached base" "\<lambda>_. within base" "\<lambda>_. True"
  for p :: "('w, 'r) platform" and m and base
proof unfold_locales
  fix s s' s1 :: "('w recorded, 'r) sequencer" and t tm w offer a e x err act now r
  show "within base s \<Longrightarrow> within base s" .
  show "within base s \<Longrightarrow> reached base s" by (simp add: within_def)
  show "within base s \<Longrightarrow> sq_status s = Preparing \<or> sq_status s = Countdown \<Longrightarrow> sq_elapsed s = 0"
    by (auto simp: within_def reached_def sane_def)
  note [intro] = lifecycle.intros
  have z: "within base s \<Longrightarrow> sq_status s = Preparing \<or> sq_status s = Countdown \<Longrightarrow> sq_elapsed s = 0"
    and f: "within base s \<Longrightarrow> sq_status s = Failed \<Longrightarrow> sq_failure s \<noteq> None"
    and c: "within base s \<Longrightarrow> sq_status s \<noteq> Closed"
    by (auto simp: within_def reached_def sane_def)
  show "within base s \<Longrightarrow> within base (s\<lparr>sq_timer := tm\<rparr>)"
    by (rule within_change [of base s]) (use z f c in \<open>auto simp: executed_def\<close>)
  show "within base s \<Longrightarrow> neutral (logged p) (sq_world s) w \<Longrightarrow> within base (s\<lparr>sq_world := w\<rparr>)"
    by (rule within_change [of base s]) (use z f c neutral_logged [of p "sq_world s" w] in \<open>auto simp: executed_def\<close>)
  show "within base (s\<lparr>sq_world := w\<rparr>) \<and> (offer = Inr None \<longrightarrow> True)"
    if "within base s" "pf_next (logged p) (sq_world s) = (offer, w)"
  proof -
    have "executed (s\<lparr>sq_world := w\<rparr>) = executed s" using logged_next [OF that(2)] by (simp add: executed_def)
    then show ?thesis using within_change [OF that(1), of "s\<lparr>sq_world := w\<rparr>"] that(1) z f c by simp
  qed
  show "within base (s\<lparr>sq_world := w, sq_candidate := Some a\<rparr>)"
    if "within base s" "pf_next (logged p) (sq_world s) = (Inr (Some a), w)"
  proof -
    have "executed (s\<lparr>sq_world := w, sq_candidate := Some a\<rparr>) = executed s"
      using logged_next [OF that(2)] by (simp add: executed_def)
    then show ?thesis
      using within_change [OF that(1), of "s\<lparr>sq_world := w, sq_candidate := Some a\<rparr>"] that(1) z f c by simp
  qed
  show "within base s \<Longrightarrow> within base (s\<lparr>sq_failure := Some e, sq_elapsed := t, sq_status := Failed\<rparr>)"
    by (rule within_change [of base s]) (use c in \<open>auto simp: executed_def\<close>)
  show "within base s \<Longrightarrow> sq_status s = Running \<Longrightarrow> sq_candidate s = Some a \<Longrightarrow> sa_due a \<le> logical_at s m \<Longrightarrow>
      exec_action (logged p) (sa_action a) (sa_due a) s = (x, s') \<Longrightarrow> within base s'"
    by (rule within_exec [of base s]) auto
  show "within base s'" if "within base s" "sq_status s = Running" "sq_candidate s = Some a" "sa_due a \<le> logical_at s m"
    "exec_action (logged p) (sa_action a) (sa_due a) s = (x, s1)" "commit_candidate (logged p) a s1 = (err, s')"
    by (rule within_commit [OF within_exec [OF that(1) _ that(5)] that(6)]) (use that(2) in simp)
  show "within base s \<Longrightarrow> active (sq_status s) \<Longrightarrow> (sq_status s = Running \<Longrightarrow> clear (\<lambda>_. True) s (logical_at s m)) \<Longrightarrow>
      exec_action (logged p) act (logical_at s m) s = (x, s') \<Longrightarrow> within base s'"
    by (rule within_exec)
  show "within base s \<Longrightarrow> sq_status s = Preparing \<Longrightarrow>
      within base (s\<lparr>sq_status := Running, sq_elapsed := 0, sq_anchor := m\<rparr>)"
    by (rule within_change [of base s]) (auto simp: executed_def)
  show "within base s \<Longrightarrow> sq_status s = Preparing \<Longrightarrow>
      within base (s\<lparr>sq_status := Countdown, sq_elapsed := 0, sq_start := act, sq_countdown_anchor := now\<rparr>)"
    by (rule within_change [of base s]) (auto simp: executed_def)
  show "within base (s\<lparr>sq_world := w, sq_anchor := now, sq_status := Running\<rparr>)"
    if "within base s" "sq_status s = Countdown \<or> sq_status s = Paused" "pf_now (logged p) (sq_world s) = (Inr now, w)"
  proof -
    have "snd w = snd (sq_world s)" using neutral_logged [OF neutral.now, of p "sq_world s"] that(3) by simp
    then have "executed (s\<lparr>sq_world := w, sq_anchor := now, sq_status := Running\<rparr>) = executed s"
      by (simp add: executed_def)
    then show ?thesis
      using within_change [OF that(1), of "s\<lparr>sq_world := w, sq_anchor := now, sq_status := Running\<rparr>"] that(2)
        lifecycle.counted lifecycle.resume
      by auto
  qed
  show "within base s \<Longrightarrow> sq_status s = Paused \<Longrightarrow> within base (s\<lparr>sq_status := Running, sq_anchor := m\<rparr>)"
    by (rule within_change [of base s]) (auto simp: executed_def)
  show "within base s \<Longrightarrow> sq_status s = Running \<or> sq_status s = Countdown \<Longrightarrow>
      within base (s\<lparr>sq_elapsed := t, sq_status := Paused\<rparr>)"
    by (rule within_change [of base s]) (auto simp: executed_def)
  show "within base s \<Longrightarrow> sq_status s = Running \<or> sq_status s = Countdown \<Longrightarrow>
      (sq_status s = Running \<Longrightarrow> clear (\<lambda>_. True) s (logical_at s m)) \<Longrightarrow>
      within base (s\<lparr>sq_elapsed := logical_at s m, sq_status := Paused\<rparr>)"
    by (rule within_change [of base s]) (auto simp: executed_def)
  show "within base s \<Longrightarrow> active (sq_status s) \<Longrightarrow> within base (s\<lparr>sq_elapsed := t, sq_status := Completed\<rparr>)"
    by (rule within_change [of base s]) (auto simp: executed_def)
  show "within base s \<Longrightarrow> reached base (s\<lparr>sq_accepting := False, sq_pending := [], sq_status := Closed\<rparr>)"
    using extends_same [of base s "s\<lparr>sq_accepting := False, sq_pending := [], sq_status := Closed\<rparr>"]
    by (auto simp: within_def reached_def sane_def executed_def intro: lifecycle_on)
qed

subsection \<open>Steps\<close>

inductive step :: "('w, 'r) platform \<Rightarrow> ('w, 'r) sequencer \<Rightarrow> ('w, 'r) sequencer \<Rightarrow> bool" for p where
  asks: "ask p e1 e2 q s = (err, s') \<Longrightarrow> step p s s'"
| turn: "sq_status s \<noteq> Closed \<Longrightarrow> take_turn p s = Some (out, s') \<Longrightarrow> step p s s'"
| fire: "sq_status s \<noteq> Closed \<Longrightarrow> sq_timer s \<noteq> None \<Longrightarrow> fired p now s = Some (out, s') \<Longrightarrow> step p s s'"

definition started :: "('w, 'r) platform \<Rightarrow> checkpoint \<Rightarrow> ('w, 'r) sequencer \<Rightarrow> bool" where
  "started p c s \<longleftrightarrow> (\<exists>w w'. new_sequencer p c w = (Inr s, w'))"

lemma reached_refl: "sane s \<Longrightarrow> reached s s"
  by (simp add: reached_def extends_def)

lemma within_refl: "sane s \<Longrightarrow> sq_status s \<noteq> Closed \<Longrightarrow> within s s"
  by (simp add: within_def reached_refl)

lemma reached_trans: "reached a b \<Longrightarrow> reached b c \<Longrightarrow> reached a c"
proof -
  assume ab: "reached a b" and bc: "reached b c"
  obtain xs where xs: "executed b = executed a @ xs" "sq_sequence b = sq_sequence a + of_nat (length xs)"
    "active (sq_status a) \<or> xs = []" using ab by (auto simp: reached_def extends_def)
  obtain ys where ys: "executed c = executed b @ ys" "sq_sequence c = sq_sequence b + of_nat (length ys)"
    "active (sq_status b) \<or> ys = []" using bc by (auto simp: reached_def extends_def)
  have "active (sq_status b) \<Longrightarrow> active (sq_status a)"
    using ab lifecycles_active by (auto simp: reached_def)
  then have "extends a c"
    using xs ys unfolding extends_def by (intro exI [of _ "xs @ ys"]) (auto simp: algebra_simps)
  then show ?thesis using ab bc by (auto simp: reached_def)
qed

lemma reached_queue: "reached (s\<lparr>sq_pending := qs, sq_timer := tm\<rparr>) s' \<Longrightarrow> reached s s'"
  by (auto simp: reached_def extends_def executed_def)

lemma sane_queue: "sane s \<Longrightarrow> sq_status s \<noteq> Closed \<Longrightarrow> sane (s\<lparr>sq_pending := qs, sq_timer := tm\<rparr>)"
  by (simp add: sane_def)

lemma request_reached:
  assumes "sane s" "sq_status s \<noteq> Closed"
    and "handle_request (logged p) q (s\<lparr>sq_pending := qs, sq_timer := tm\<rparr>) = Some r"
  shows "reached s (snd r)"
proof (rule reached_queue)
  have "within (s\<lparr>sq_pending := qs, sq_timer := tm\<rparr>) (s\<lparr>sq_pending := qs, sq_timer := tm\<rparr>)"
    by (rule within_refl) (use assms(1,2) sane_queue in simp_all)
  then show "reached (s\<lparr>sq_pending := qs, sq_timer := tm\<rparr>) (snd r)"
    by (rule shape.request_keeps [OF _ refl assms(3)])
qed

lemma ask_reached:
  assumes sane: "sane s" and a: "ask (logged p) e1 e2 q s = (err, s')"
  shows "reached s s'"
proof (cases "s' = s")
  case True
  then show ?thesis using sane reached_refl by simp
next
  case False
  obtain r s1 where t: "on_world (current_time (logged p)) s = (r, s1)" by fastforce
  from a False have adm: "admit (logged p) e1 e2 q s = (err, s')"
    by (simp add: ask_def split: sum.splits)
  have none: "e1 = None" and acc: "sq_accepting s" and none': "e2 = None"
    using adm False by (cases e1; cases "sq_accepting s"; cases e2; simp add: admit_def)+
  have s': "s' = s1 \<or> (\<exists>q. s' = s1\<lparr>sq_pending := sq_pending s1 @ [q]\<rparr>)"
    using adm acc t by (cases r) (auto simp: admit_def none none')
  from acc have open': "sq_status s \<noteq> Closed" using sane by (auto simp: sane_def)
  have "within s s1" by (rule shape.called_eq(2) [OF within_refl [OF sane open'] t])
  then show ?thesis using s' by (auto simp: within_def reached_def sane_def extends_def executed_def)
qed

lemma turn_reached:
  assumes sane: "sane s" and opn: "sq_status s \<noteq> Closed" and out: "take_turn (logged p) s = Some (r, s')"
  shows "reached s s'"
proof (cases "sq_pending s")
  case Nil
  have "within s (poll_timer (logged p) s)" by (rule shape.poll_keeps [OF within_refl [OF sane opn]])
  then show ?thesis using out Nil by (auto simp: take_turn_def dequeue_def within_def)
next
  case (Cons q qs)
  obtain r1 where "handle_request (logged p) q (s\<lparr>sq_pending := qs\<rparr>) = Some r1" "s' = snd r1"
    using out Cons by (auto simp: take_turn_def dequeue_def)
  moreover have "s\<lparr>sq_pending := qs\<rparr> = s\<lparr>sq_pending := qs, sq_timer := sq_timer s\<rparr>" by (cases s) simp
  ultimately show ?thesis using request_reached [OF sane opn] by metis
qed

lemma fired_reached:
  assumes sane: "sane s" and opn: "sq_status s \<noteq> Closed" and out: "fired (logged p) now s = Some (r, s')"
  shows "reached s s'"
proof (cases "sq_pending s")
  case Nil
  show ?thesis
    using shape.fired_keeps [OF within_refl [OF sane opn] Nil order_refl out] by (simp add: within_def)
next
  case (Cons q qs)
  have same: "s\<lparr>sq_timer := None, sq_pending := qs\<rparr> = s\<lparr>sq_pending := qs, sq_timer := None\<rparr>" by simp
  obtain r2 s2 where h: "handle_request (logged p) q (s\<lparr>sq_pending := qs, sq_timer := None\<rparr>) = Some (r2, s2)"
    and s': "s' = (if sq_status s2 = Countdown \<and> sq_timer s2 = None
                   then snd (rearm_countdown_timer (logged p) s2) else s2)"
    using out Cons unfolding same [symmetric] by (auto simp: fired_def dequeue_def)
  have s2: "reached s s2" using request_reached [OF sane opn h] by simp
  then have "sane s2" by (simp add: reached_def)
  then have "within s2 (snd (rearm_countdown_timer (logged p) s2))" if "sq_status s2 = Countdown"
    using that by (intro shape.rearm_countdown_keeps within_refl) simp_all
  then show ?thesis using s' s2 reached_trans by (auto simp: within_def)
qed

lemma step_reached: "sane s \<Longrightarrow> step (logged p) s s' \<Longrightarrow> reached s s'"
  by (erule step.cases) (auto intro: ask_reached turn_reached fired_reached)

lemma steps_reached:
  assumes "(step (logged p))\<^sup>*\<^sup>* s s'" and "sane s"
  shows "reached s s'"
  using assms
proof (induction rule: rtranclp_induct)
  case base
  then show ?case by (rule reached_refl)
next
  case (step y z)
  then have "reached s y" "sane y" by (simp_all add: reached_def)
  then show ?case using step_reached [of y p z] step(2) reached_trans by blast
qed

lemma started_sane: "started p c s \<Longrightarrow> sane s"
  by (auto simp: started_def new_sequencer_def sane_def validate_checkpoint_def Let_def case_prod_beta guardE_def
      fails_def split: if_splits sum.splits status.splits)

end
