(* ===== verification/Session_Time.thy ===== *)
theory Session_Time
  imports Session_Runs
begin

text \<open>
  Logical time. On a platform whose clock is monotone (as \<^verbatim>\<open>Clock\<close> documents) and whose schedule, once
  it has nothing to offer, stays so, the executions of a fresh session never go back in logical
  time, and its snapshots can be restored. The contract of \<open>Session\<close> follows from that of the
  platform (a \<open>sublocale\<close>); the bound on the clock, about 146 years, keeps durations from overflowing.
\<close>

subsection \<open>What is required of a platform\<close>

inductive calls :: "('w, 'r) platform \<Rightarrow> 'w \<Rightarrow> 'w \<Rightarrow> bool" for p where
  neutral: "neutral p w w' \<Longrightarrow> calls p w w'"
| look: "calls p w (snd (pf_next p w))"
| commit: "calls p w (snd (pf_commit p a w))"
| exec: "calls p w (snd (pf_execute p a t w))"

definition clock_limit :: int where "clock_limit = 4611686018427387904"

definition monotone_clock :: "('w, 'r) platform \<Rightarrow> ('w \<Rightarrow> int) \<Rightarrow> bool" where
  "monotone_clock p clk \<longleftrightarrow> (\<forall>w. 0 \<le> clk w \<and> clk w < clock_limit) \<and>
     (\<forall>w w'. calls p w w' \<longrightarrow> clk w \<le> clk w') \<and>
     (\<forall>w t w'. pf_now p w = (Inr t, w') \<longrightarrow> clk w \<le> t \<and> t \<le> clk w')"

definition stays_ended :: "('w, 'r) platform \<Rightarrow> ('w \<Rightarrow> bool) \<Rightarrow> bool" where
  "stays_ended p ended \<longleftrightarrow> (\<forall>w w'. pf_next p w = (Inr None, w') \<longrightarrow> ended w') \<and>
     (\<forall>w w'. calls p w w' \<longrightarrow> ended w \<longrightarrow> ended w') \<and>
     (\<forall>w a w'. pf_next p w = (Inr (Some a), w') \<longrightarrow> \<not> ended w)"

locale clocked =
  fixes p :: "('w, 'r) platform" and clk :: "'w \<Rightarrow> int" and ended :: "'w \<Rightarrow> bool"
  assumes clock: "monotone_clock p clk" and ends: "stays_ended p ended"

subsection \<open>The timing invariant\<close>

definition times :: "('w recorded, 'r) sequencer \<Rightarrow> int list" where
  "times s = map (\<lambda>c. ival (snd c)) (executed s)"

definition low :: "('w recorded, 'r) sequencer \<Rightarrow> int \<Rightarrow> bool" where
  "low s t \<longleftrightarrow> (\<forall>u \<in> set (times s). u \<le> t)"

definition small :: "('w recorded, 'r) sequencer \<Rightarrow> bool" where
  "small s \<longleftrightarrow> length (executed s) < 2 ^ 64"

definition reading :: "('w, 'r) sequencer \<Rightarrow> instant \<Rightarrow> int" where
  "reading s m = (if sq_status s \<noteq> Running \<or> m < sq_anchor s then ival (sq_elapsed s)
     else ival (sq_elapsed s) + (m - sq_anchor s))"

text \<open>What is still to be offered comes no earlier than \<open>t\<close>.\<close>

definition room :: "('w \<Rightarrow> bool) \<Rightarrow> ('w recorded, 'r) sequencer \<Rightarrow> int \<Rightarrow> bool" where
  "room ended s t \<longleftrightarrow>
     (case sq_candidate s of
        Some c \<Rightarrow> t \<le> ival (sa_due c)
      | None \<Rightarrow> t \<le> 0 \<or> sq_next s > 0 \<and> t \<le> ival (sq_last_due s) \<or> ended (fst (sq_world s)))"

text \<open>The part that concerns a session that is still going on.\<close>

definition in_time :: "('w \<Rightarrow> int) \<Rightarrow> ('w \<Rightarrow> bool) \<Rightarrow> instant \<Rightarrow> ('w recorded, 'r) sequencer \<Rightarrow> bool" where
  "in_time clk ended m s \<longleftrightarrow>
     0 \<le> m \<and> m \<le> clk (fst (sq_world s)) \<and> 0 \<le> ival (sq_elapsed s) \<and> ival (sq_elapsed s) \<le> m \<and>
     (sq_status s = Running \<longrightarrow> ival (sq_elapsed s) \<le> sq_anchor s) \<and> low s (reading s m) \<and>
     (sq_status s \<noteq> Running \<longrightarrow> room ended s (ival (sq_elapsed s))) \<and>
     (\<forall>u \<in> set (times s). room ended s u) \<and> room ended s 0"

definition timing :: "('w \<Rightarrow> int) \<Rightarrow> ('w \<Rightarrow> bool) \<Rightarrow> instant \<Rightarrow> ('w recorded, 'r) sequencer \<Rightarrow> bool" where
  "timing clk ended m s \<longleftrightarrow> sorted (times s) \<and> (\<forall>t \<in> set (times s). 0 \<le> t) \<and>
     uint (sq_sequence s) = int (length (executed s)) \<and> sq_next s \<le> sq_sequence s \<and>
     (active (sq_status s) \<longrightarrow> in_time clk ended m s) \<and>
     (sq_status s = Completed \<longrightarrow> 0 \<le> ival (sq_elapsed s) \<and> executed s \<noteq> [])"

definition timely ::
  "('w \<Rightarrow> int) \<Rightarrow> ('w \<Rightarrow> bool) \<Rightarrow> ('w recorded, 'r) sequencer \<Rightarrow> instant \<Rightarrow> ('w recorded, 'r) sequencer \<Rightarrow> bool" where
  "timely clk ended base m s \<longleftrightarrow> within base s \<and> clk (fst (sq_world base)) \<le> clk (fst (sq_world s)) \<and>
     (small s \<longrightarrow> timing clk ended m s)"

definition timely_at ::
  "('w \<Rightarrow> int) \<Rightarrow> ('w \<Rightarrow> bool) \<Rightarrow> ('w recorded, 'r) sequencer \<Rightarrow> instant \<Rightarrow> duration \<Rightarrow> ('w recorded, 'r) sequencer \<Rightarrow> bool" where
  "timely_at clk ended base m t s \<longleftrightarrow> timely clk ended base m s \<and>
     (small s \<and> active (sq_status s) \<longrightarrow> 0 \<le> ival t \<and> ival t \<le> m \<and> low s (ival t) \<and>
       room ended s (ival t) \<and> executed s \<noteq> [])"

definition timely_after ::
  "('w \<Rightarrow> int) \<Rightarrow> ('w \<Rightarrow> bool) \<Rightarrow> ('w recorded, 'r) sequencer \<Rightarrow> instant \<Rightarrow> ('w recorded, 'r) sequencer \<Rightarrow> bool" where
  "timely_after clk ended base m s \<longleftrightarrow> reached base s \<and> clk (fst (sq_world base)) \<le> clk (fst (sq_world s)) \<and>
     (sq_status s \<noteq> Closed \<longrightarrow> within base s) \<and> (small s \<longrightarrow> timing clk ended m s)"

subsection \<open>Reading the logical clock\<close>

lemma time_sub_exact: "- clock_limit \<le> a - b \<Longrightarrow> a - b \<le> clock_limit \<Longrightarrow> ival (time_sub a b) = a - b"
  by (simp add: time_sub_def ival_i64_of fits_def clock_limit_def)

lemma reading_exact:
  assumes "in_time clk ended m s" and "m < clock_limit"
  shows "ival (logical_at s m) = reading s m"
proof (cases "sq_status s \<noteq> Running \<or> m < sq_anchor s")
  case False
  then have "ival (time_sub m (sq_anchor s)) = m - sq_anchor s"
    using assms by (intro time_sub_exact) (auto simp: in_time_def)
  then show ?thesis
    using False assms by (simp add: logical_at_def reading_def in_time_def ival_add fits_def clock_limit_def)
qed (auto simp: logical_at_def reading_def)

lemma reading_range: "in_time clk ended m s \<Longrightarrow> ival (sq_elapsed s) \<le> reading s m \<and> reading s m \<le> m"
  by (auto simp: reading_def in_time_def)

lemma reading_mono: "m \<le> m' \<Longrightarrow> reading s m \<le> reading s m'"
  by (auto simp: reading_def)

lemma low_mono: "low s t \<Longrightarrow> t \<le> u \<Longrightarrow> low s u"
  by (force simp: low_def)

lemma room_mono: "room ended s t \<Longrightarrow> u \<le> t \<Longrightarrow> room ended s u"
  by (auto simp: room_def split: option.splits)

lemma times_exec: "exec_action (logged p) a t s = (x, s') \<Longrightarrow> times s' = times s @ [ival t]"
  by (simp add: times_def logged_exec)

lemma small_exec: "exec_action (logged p) a t s = (x, s') \<Longrightarrow> small s' \<Longrightarrow> small s"
  by (simp add: small_def logged_exec)

lemma executed_eq:
  assumes "executed s' = executed s"
  shows "times s' = times s" "small s' = small s" "low s' t = low s t"
  using assms by (simp_all add: times_def small_def low_def)

subsection \<open>Calls to the recorded world\<close>

lemma neutral_calls: "neutral (logged p) w w' \<Longrightarrow> calls p (fst w) (fst w') \<and> snd w' = snd w"
proof (intro conjI)
  assume n: "neutral (logged p) w w'"
  then show "calls p (fst w) (fst w')"
  proof cases
    case (timer d)
    then show ?thesis using calls.neutral [OF neutral.timer [of p "fst w" d]] by (simp add: logged_def)
  next
    case (channel t)
    then show ?thesis using calls.neutral [OF neutral.channel [of p "fst w" t]] by (simp add: logged_def)
  next
    case (stop t)
    then show ?thesis using calls.neutral [OF neutral.stop [of p "fst w" t]] by (simp add: logged_def)
  next
    case (replay f a)
    then obtain g where "pf_replay p = Some g" "f = (\<lambda>a. beside (g a))" by (auto simp: logged_def)
    then show ?thesis using calls.neutral [OF neutral.replay [of p g "fst w" a]] replay by simp
  next
    case (factory f a)
    then obtain g where "pf_countdown_action p = Some g" "f = (\<lambda>a. beside (g a))" by (auto simp: logged_def)
    then show ?thesis using calls.neutral [OF neutral.factory [of p g "fst w" a]] factory by simp
  next
    case now
    then show ?thesis using calls.neutral [OF neutral.now [of p "fst w"]] by (simp add: logged_def)
  qed
  show "snd w' = snd w" by (rule neutral_logged [OF n])
qed

lemma next_calls:
  assumes "pf_next (logged p) w = (r, w')"
  shows "pf_next p (fst w) = (r, fst w')" "calls p (fst w) (fst w')" "snd w' = snd w"
proof -
  have out: "r = fst (pf_next (logged p) w)" "w' = snd (pf_next (logged p) w)" using assms by simp_all
  have "r = fst (pf_next p (fst w))" "fst w' = snd (pf_next p (fst w))" "snd w' = snd w"
    unfolding out by (simp_all add: logged_def)
  then show "pf_next p (fst w) = (r, fst w')" "calls p (fst w) (fst w')" "snd w' = snd w"
    using calls.look [of p "fst w"] by simp_all
qed

lemma now_calls:
  assumes "pf_now (logged p) w = (r, w')"
  shows "pf_now p (fst w) = (r, fst w')" "calls p (fst w) (fst w')" "snd w' = snd w"
proof -
  have out: "r = fst (pf_now (logged p) w)" "w' = snd (pf_now (logged p) w)" using assms by simp_all
  have "r = fst (pf_now p (fst w))" "fst w' = snd (pf_now p (fst w))" "snd w' = snd w"
    unfolding out by (simp_all add: logged_def)
  then show "pf_now p (fst w) = (r, fst w')" "calls p (fst w) (fst w')" "snd w' = snd w"
    using calls.neutral [OF neutral.now [of p "fst w"]] by simp_all
qed

lemma exec_calls: "exec_action (logged p) a t s = (x, s') \<Longrightarrow> calls p (fst (sq_world s)) (fst (sq_world s'))"
  using calls.exec [of p "fst (sq_world s)" a t]
  by (simp add: exec_sel(11)) (simp add: logged_def case_prod_beta Let_def)

lemma commit_shape:
  assumes "commit_candidate (logged p) a s = (err, s')"
  shows "(s' = s \<or> (\<exists>w. calls p (fst (sq_world s)) (fst w) \<and> s' = s\<lparr>sq_world := w\<rparr>)) \<and> err \<noteq> None \<or>
    (\<exists>w. calls p (fst (sq_world s)) (fst w) \<and> err = None \<and>
      s' = s\<lparr>sq_world := w, sq_ids := finsert (an_id (sa_action a)) (sq_ids s), sq_last_due := sa_due a,
             sq_next := sq_next s + 1, sq_candidate := None\<rparr>)"
proof -
  obtain r w where c: "on_world (commit_scheduled_action (logged p) a) s = (r, s\<lparr>sq_world := w\<rparr>)"
    and w: "w = snd (pf_commit (logged p) a (sq_world s))"
    by (simp add: on_world_def commit_scheduled_action_def case_prod_beta Let_def)
  have calls: "calls p (fst (sq_world s)) (fst w)"
    using calls.commit [of p "fst (sq_world s)" a] unfolding w by (simp add: logged_def)
  show ?thesis
  proof (cases "case sq_candidate s of None \<Rightarrow> True
      | Some c \<Rightarrow> sa_due c \<noteq> sa_due a \<or> an_id (sa_action c) \<noteq> an_id (sa_action a)")
    case True
    then show ?thesis using assms by (auto simp: commit_candidate_def)
  next
    case False
    note out = assms [unfolded commit_candidate_def if_not_P [OF False] c Let_def prod.case]
    show ?thesis
    proof (cases r)
      case (Inl e)
      then have "err = Some e" "s' = s\<lparr>sq_world := w\<rparr>" using out by simp_all
      then show ?thesis using calls by blast
    next
      case (Inr u)
      then have "err = None" "s' = s\<lparr>sq_world := w, sq_ids := finsert (an_id (sa_action a)) (sq_ids s),
          sq_last_due := sa_due a, sq_next := sq_next s + 1, sq_candidate := None\<rparr>" using out by simp_all
      then show ?thesis using calls by blast
    qed
  qed
qed

subsection \<open>The contract of a session from that of the platform\<close>

text \<open>A transition: only the lifecycle fields change.\<close>

definition same_course :: "('w recorded, 'r) sequencer \<Rightarrow> ('w recorded, 'r) sequencer \<Rightarrow> bool" where
  "same_course s s' \<longleftrightarrow> sq_world s' = sq_world s \<and> sq_next s' = sq_next s \<and> sq_sequence s' = sq_sequence s \<and>
     sq_candidate s' = sq_candidate s \<and> sq_last_due s' = sq_last_due s"

lemma same_course_eq:
  assumes "same_course s s'"
  shows "executed s' = executed s" "times s' = times s" "low s' t = low s t" "small s' = small s"
    "room ended s' t = room ended s t" "sq_world s' = sq_world s" "sq_next s' = sq_next s"
    "sq_sequence s' = sq_sequence s"
  using assms
  by (simp_all add: same_course_def executed_def times_def low_def small_def room_def split: option.split)

context clocked
begin

lemma clk_range: "0 \<le> clk w" "clk w < clock_limit"
  using clock by (simp_all add: monotone_clock_def)

lemma clk_calls: "calls p w w' \<Longrightarrow> clk w \<le> clk w'"
  using clock by (simp add: monotone_clock_def)

lemma clk_now: "pf_now p w = (Inr t, w') \<Longrightarrow> clk w \<le> t \<and> t \<le> clk w'"
  using clock by (simp add: monotone_clock_def)

lemma ended_calls: "calls p w w' \<Longrightarrow> ended w \<Longrightarrow> ended w'"
  using ends by (simp add: stays_ended_def)

lemma ended_look: "pf_next p w = (Inr None, w') \<Longrightarrow> ended w'" "pf_next p w = (Inr (Some a), w') \<Longrightarrow> \<not> ended w"
  using ends unfolding stays_ended_def by blast+

abbreviation "ok \<equiv> timely clk ended"
abbreviation "just_ran \<equiv> timely_at clk ended"

lemma exact:
  assumes "in_time clk ended m s"
  shows "ival (logical_at s m) = reading s m"
proof (rule reading_exact [OF assms])
  have "m \<le> clk (fst (sq_world s))" using assms by (simp add: in_time_def)
  then show "m < clock_limit" using clk_range(2) by (rule le_less_trans)
qed

text \<open>A change of state without an execution.\<close>

lemma ok_change:
  assumes ok: "ok base m s" and w: "within base s'" and ex: "executed s' = executed s"
    and clk: "clk (fst (sq_world s)) \<le> clk (fst (sq_world s'))"
    and t: "small s \<Longrightarrow> timing clk ended m s \<Longrightarrow> timing clk ended m s'"
  shows "ok base m s'"
  using ok w clk t executed_eq(2) [OF ex] by (auto simp: timely_def)

lemma timing_same:
  assumes t: "timing clk ended m s" and w: "calls p (fst (sq_world s)) w'"
    and s': "s' = s\<lparr>sq_world := (w', snd (sq_world s))\<rparr>"
  shows "timing clk ended m s'"
proof -
  have ex: "executed s' = executed s" by (simp add: s' executed_def)
  have r: "reading s' m = reading s m" by (simp add: s' reading_def)
  have "room ended s u \<Longrightarrow> room ended s' u" for u
    using ended_calls [OF w] by (auto simp: s' room_def split: option.splits)
  then show ?thesis
    using t clk_calls [OF w] unfolding timing_def in_time_def r executed_eq(1,3) [OF ex] ex
    by (auto simp: s')
qed

lemma world_pair: "snd w = snd (sq_world s) \<Longrightarrow> s\<lparr>sq_world := w\<rparr> = s\<lparr>sq_world := (fst w, snd (sq_world s))\<rparr>"
  by (metis prod.collapse)

lemma ok_called:
  assumes ok: "ok base m s" and w: "calls p (fst (sq_world s)) (fst w)" "snd w = snd (sq_world s)"
    and within: "within base (s\<lparr>sq_world := w\<rparr>)"
  shows "ok base m (s\<lparr>sq_world := w\<rparr>)"
  using clk_calls [OF w(1)] timing_same [OF _ w(1) world_pair [OF w(2)]] w(2)
  by (intro ok_change [OF ok within]) (simp_all add: executed_def)

lemma ok_loaded:
  assumes ok: "ok base m s" and c: "sq_candidate s = None" and n: "pf_next (logged p) (sq_world s) = (Inr (Some a), w)"
    and load: "loadable s a" and within: "within base (s\<lparr>sq_world := w, sq_candidate := Some a\<rparr>)"
  shows "ok base m (s\<lparr>sq_world := w, sq_candidate := Some a\<rparr>)"
proof (rule ok_change [OF ok within])
  note call = next_calls [OF n]
  show "executed (s\<lparr>sq_world := w, sq_candidate := Some a\<rparr>) = executed s" by (simp add: executed_def call(3))
  show "clk (fst (sq_world s)) \<le> clk (fst (sq_world (s\<lparr>sq_world := w, sq_candidate := Some a\<rparr>)))"
    using clk_calls [OF call(2)] by simp
  assume t: "timing clk ended m s"
  let ?s = "s\<lparr>sq_world := w, sq_candidate := Some a\<rparr>"
  have ex: "executed ?s = executed s" by (simp add: executed_def call(3))
  have r: "reading ?s m = reading s m" by (simp add: reading_def)
  have "0 \<le> ival (sa_due a)" "sq_next s > 0 \<Longrightarrow> ival (sq_last_due s) \<le> ival (sa_due a)"
    using load by (auto simp: loadable_def validate_scheduled_action_def i64_order guardE_def fails_def split: if_splits)
  moreover have "\<not> ended (fst (sq_world s))" using ended_look(2) call(1) by blast
  ultimately have "room ended s u \<Longrightarrow> room ended ?s u" for u
    using c by (auto simp: room_def)
  then show "timing clk ended m ?s"
    using t clk_calls [OF call(2)] unfolding timing_def in_time_def r executed_eq(1,3) [OF ex] ex
    by auto
qed

text \<open>An execution at a time that no earlier one exceeds.\<close>

lemma ran_exec:
  assumes ok: "ok base m s" and act: "active (sq_status s)" and x: "exec_action (logged p) a t s = (x, s')"
    and within: "within base s'"
    and at: "small s \<Longrightarrow> in_time clk ended m s \<Longrightarrow>
      0 \<le> ival t \<and> low s (ival t) \<and> ival t \<le> reading s m \<and> room ended s (ival t)"
  shows "just_ran base m t s'"
proof -
  note sel = exec_sel [OF x]
  have ex: "executed s' = executed s @ [(a, t)]" by (rule logged_exec [OF x])
  have call: "calls p (fst (sq_world s)) (fst (sq_world s'))" by (rule exec_calls [OF x])
  have "timing clk ended m s' \<and> 0 \<le> ival t \<and> ival t \<le> m \<and> low s' (ival t) \<and> room ended s' (ival t)"
    if small: "small s'"
  proof -
    have small': "small s" by (rule small_exec [OF x small])
    have t: "timing clk ended m s" and in_time: "in_time clk ended m s"
      using ok small' act by (simp_all add: timely_def timing_def)
    note at = at [OF small' in_time]
    have ts: "times s' = times s @ [ival t]" by (rule times_exec [OF x])
    have seq: "uint (sq_sequence s') = int (length (executed s'))"
    proof -
      have "uint (sq_sequence s) + 1 < 2 ^ 64" using t small ex by (simp add: timing_def small_def)
      then show ?thesis using t sel(10) ex by (simp add: timing_def uint_plus_simple_iff uint_word_ariths)
    qed
    have nxt: "sq_next s' \<le> sq_sequence s'"
      using t seq ex sel(6) by (simp add: timing_def word_le_def)
    have room: "room ended s u \<Longrightarrow> room ended s' u" for u
      using ended_calls [OF call] sel(4,6,7) by (auto simp: room_def split: option.splits)
    have r: "reading s' m = reading s m" using sel(1-3) by (simp add: reading_def)
    have low: "low s u \<Longrightarrow> ival t \<le> u \<Longrightarrow> low s' u" for u using ts by (auto simp: low_def)
    have sorted: "sorted (times s')" "\<forall>u \<in> set (times s'). 0 \<le> u"
      using t at ts by (auto simp: timing_def low_def sorted_append)
    have "in_time clk ended m s'"
      using in_time at room low clk_calls [OF call] sel(1-3) ts unfolding in_time_def r by auto
    moreover have "ival t \<le> m" using at reading_range [OF in_time] by simp
    ultimately show ?thesis
      using sorted seq nxt act sel(1) at room low [of "ival t"] by (auto simp: timing_def)
  qed
  moreover have "clk (fst (sq_world base)) \<le> clk (fst (sq_world s'))"
    using ok clk_calls [OF call] by (simp add: timely_def)
  ultimately show ?thesis using within ex by (simp add: timely_at_def timely_def)
qed

lemma ok_transition:
  assumes ok: "ok base m s" and within: "within base s'" and same: "same_course s s'"
    and live: "small s \<Longrightarrow> active (sq_status s') \<Longrightarrow> timing clk ended m s \<Longrightarrow> in_time clk ended m s'"
    and over: "small s \<Longrightarrow> sq_status s' = Completed \<Longrightarrow> 0 \<le> ival (sq_elapsed s') \<and> executed s \<noteq> []"
  shows "ok base m s'"
proof (rule ok_change [OF ok within same_course_eq(1) [OF same]])
  show "clk (fst (sq_world s)) \<le> clk (fst (sq_world s'))" using same_course_eq(6) [OF same] by simp
  assume t: "timing clk ended m s" and small: "small s"
  then show "timing clk ended m s'"
    using live over same_course_eq [OF same] by (auto simp: timing_def)
qed

lemma idle_reading: "sq_status s \<noteq> Running \<Longrightarrow> reading s m = ival (sq_elapsed s)"
  by (simp add: reading_def)

lemma ok_timed:
  assumes ok: "ok base m s" and within: "within base (s\<lparr>sq_timer := tm\<rparr>)"
  shows "ok base m (s\<lparr>sq_timer := tm\<rparr>)"
proof (rule ok_change [OF ok within])
  let ?s = "s\<lparr>sq_timer := tm\<rparr>"
  have same: "same_course s ?s" by (simp add: same_course_def)
  have r: "reading ?s m = reading s m" by (simp add: reading_def)
  show "timing clk ended m s \<Longrightarrow> timing clk ended m ?s"
    unfolding timing_def in_time_def r same_course_eq [OF same] by simp
qed (simp_all add: executed_def)

lemma ok_begun:
  assumes "ok base m s" "sq_status s = Preparing" "sq_elapsed s = 0"
    and "within base (s\<lparr>sq_status := Running, sq_elapsed := 0, sq_anchor := m\<rparr>)"
  shows "ok base m (s\<lparr>sq_status := Running, sq_elapsed := 0, sq_anchor := m\<rparr>)"
proof (rule ok_transition [OF assms(1,4)])
  let ?s = "s\<lparr>sq_status := Running, sq_elapsed := 0, sq_anchor := m\<rparr>"
  show same: "same_course s ?s" by (simp add: same_course_def)
  assume "timing clk ended m s"
  then have "in_time clk ended m s" using assms(2) by (simp add: timing_def)
  then show "in_time clk ended m ?s"
    using assms(2,3) unfolding in_time_def same_course_eq [OF same] by (simp add: reading_def)
qed simp

lemma ok_counting:
  assumes "ok base m s" "sq_status s = Preparing" "sq_elapsed s = 0"
    and "within base (s\<lparr>sq_status := Countdown, sq_elapsed := 0, sq_start := act, sq_countdown_anchor := now\<rparr>)"
  shows "ok base m (s\<lparr>sq_status := Countdown, sq_elapsed := 0, sq_start := act, sq_countdown_anchor := now\<rparr>)"
proof (rule ok_transition [OF assms(1,4)])
  let ?s = "s\<lparr>sq_status := Countdown, sq_elapsed := 0, sq_start := act, sq_countdown_anchor := now\<rparr>"
  show same: "same_course s ?s" by (simp add: same_course_def)
  assume "timing clk ended m s"
  then have "in_time clk ended m s" using assms(2) by (simp add: timing_def)
  then show "in_time clk ended m ?s"
    using assms(2,3) unfolding in_time_def same_course_eq [OF same] by (simp add: reading_def)
qed simp

lemma ok_running:
  assumes ok: "ok base m s" and st: "sq_status s = Countdown \<or> sq_status s = Paused" and now: "m \<le> now"
    and within: "within base (s\<lparr>sq_anchor := now, sq_status := Running\<rparr>)"
  shows "ok base m (s\<lparr>sq_anchor := now, sq_status := Running\<rparr>)"
proof (rule ok_transition [OF ok within])
  let ?s = "s\<lparr>sq_anchor := now, sq_status := Running\<rparr>"
  show same: "same_course s ?s" by (simp add: same_course_def)
  assume "timing clk ended m s"
  then have "in_time clk ended m s" using st by (auto simp: timing_def)
  moreover have "reading s m = ival (sq_elapsed s)" using st by (auto simp: reading_def)
  moreover have "reading ?s m = ival (sq_elapsed s)" using now by (simp add: reading_def)
  ultimately show "in_time clk ended m ?s"
    using now unfolding in_time_def same_course_eq [OF same] by simp
qed simp

lemma ok_paused:
  assumes ok: "ok base m s" and within: "within base (s\<lparr>sq_elapsed := t, sq_status := Paused\<rparr>)"
    and act: "active (sq_status s)"
    and t: "small s \<Longrightarrow> in_time clk ended m s \<Longrightarrow>
      0 \<le> ival t \<and> ival t \<le> m \<and> low s (ival t) \<and> room ended s (ival t)"
  shows "ok base m (s\<lparr>sq_elapsed := t, sq_status := Paused\<rparr>)"
proof (rule ok_transition [OF ok within])
  let ?s = "s\<lparr>sq_elapsed := t, sq_status := Paused\<rparr>"
  show same: "same_course s ?s" by (simp add: same_course_def)
  assume "timing clk ended m s" and small: "small s"
  then have "in_time clk ended m s" using act by (simp add: timing_def)
  then show "in_time clk ended m ?s"
    using t [OF small] unfolding in_time_def same_course_eq [OF same] by (simp add: reading_def)
qed simp

lemma ok_running_clock:
  assumes ok: "ok base m s" and st: "sq_status s = Countdown \<or> sq_status s = Paused"
    and now: "small s \<Longrightarrow> in_time clk ended m s \<Longrightarrow> m \<le> now"
    and within: "within base (s\<lparr>sq_anchor := now, sq_status := Running\<rparr>)"
  shows "ok base m (s\<lparr>sq_anchor := now, sq_status := Running\<rparr>)"
proof (cases "small s")
  case True
  have "active (sq_status s)" using st by auto
  then have "m \<le> now" using now [OF True] ok True by (simp add: timely_def timing_def)
  then show ?thesis by (rule ok_running [OF ok st _ within])
next
  case False
  then show ?thesis using ok within by (simp add: timely_def small_def executed_def)
qed

text \<open>After a commit the next offer is bounded by the action just executed.\<close>

lemma ran_committed:
  assumes ran: "just_ran base m t s" and c: "commit_candidate (logged p) a s = (err, s')" and t: "t = sa_due a"
    and run: "sq_status s = Running" and within: "within base s'" and fresh: "small s \<Longrightarrow> sq_next s < sq_sequence s"
  shows "just_ran base m t s'"
proof -
  have ex: "executed s' = executed s" by (rule logged_commit [OF c])
  have ok: "ok base m s" using ran by (simp add: timely_at_def)
  consider (same) "s' = s"
    | (moved) w where "calls p (fst (sq_world s)) (fst w)" "s' = s\<lparr>sq_world := w\<rparr>"
    | (taken) w where "calls p (fst (sq_world s)) (fst w)"
        "s' = s\<lparr>sq_world := w, sq_ids := finsert (an_id (sa_action a)) (sq_ids s), sq_last_due := sa_due a,
               sq_next := sq_next s + 1, sq_candidate := None\<rparr>"
    using commit_shape [OF c] by blast
  then have "ok base m s' \<and> (small s \<longrightarrow> room ended s' (ival t))"
  proof cases
    case same
    then show ?thesis using ran run by (simp add: timely_at_def)
  next
    case moved
    have "snd w = snd (sq_world s)" using ex moved(2) by (simp add: executed_def)
    then have "ok base m s'" using ok_called [OF ok moved(1)] within moved(2) by simp
    moreover have "room ended s u \<Longrightarrow> room ended s' u" for u
      using ended_calls [OF moved(1)] by (auto simp: moved(2) room_def split: option.splits)
    ultimately show ?thesis using ran run by (simp add: timely_at_def)
  next
    case taken
    have step: "sq_next s' \<le> sq_sequence s' \<and> sq_next s' > 0" if "small s"
    proof -
      have "uint (sq_next s + 1) = uint (sq_next s) + 1"
        using fresh [OF that] uint_lt2p [of "sq_sequence s"] by (simp add: uint_word_ariths word_less_def)
      then show ?thesis
        using fresh [OF that] taken(2) by (simp add: word_le_def word_less_def)
    qed
    have room: "u \<le> ival t \<Longrightarrow> small s \<Longrightarrow> room ended s' u" for u
      using step taken(2) t by (simp add: room_def)
    have "timing clk ended m s'" if small: "small s" and old: "timing clk ended m s"
    proof -
      have low: "low s (ival t)" and pos: "0 \<le> ival t" using ran small run by (simp_all add: timely_at_def)
      have in_time: "in_time clk ended m s" using old run by (simp add: timing_def)
      have r: "reading s' m = reading s m" by (simp add: taken(2) reading_def)
      have "in_time clk ended m s'"
        using in_time clk_calls [OF taken(1)] room small low pos run
        unfolding in_time_def r executed_eq(1,3) [OF ex] by (auto simp: taken(2) low_def)
      then show ?thesis
        using old step [OF small] unfolding timing_def executed_eq(1,3) [OF ex] ex by (simp add: taken(2) run)
    qed
    moreover have "clk (fst (sq_world s)) \<le> clk (fst (sq_world s'))" using clk_calls [OF taken(1)] taken(2) by simp
    ultimately have "ok base m s'" using ok_change [OF ok within ex] by blast
    then show ?thesis using room [of "ival t"] by simp
  qed
  then show ?thesis
    using ran ex executed_eq(2,3) [OF ex] commit_sel(1) [OF c] by (simp add: timely_at_def)
qed

text \<open>With nothing due any more, the present reading is a time that everything to come respects.\<close>

lemma clear_room:
  assumes "clear (\<lambda>w. ended (fst w)) s t"
  shows "room ended s (ival t)"
  using assms by (auto simp: clear_def room_def i64_order split: option.splits)

lemma present:
  assumes "in_time clk ended m s"
    and "sq_status s = Running \<Longrightarrow> clear (\<lambda>w. ended (fst w)) s (logical_at s m)"
  shows "0 \<le> reading s m \<and> low s (reading s m) \<and> reading s m \<le> m \<and> room ended s (reading s m)"
proof (cases "sq_status s = Running")
  case True
  then show ?thesis
    using assms clear_room [of s "logical_at s m"] reading_range [OF assms(1)] exact [OF assms(1)]
    by (auto simp: in_time_def)
next
  case False
  then show ?thesis using assms(1) idle_reading [OF False] by (simp add: in_time_def)
qed

lemma ok_within: "ok base m s \<Longrightarrow> within base s"
  by (simp add: timely_def)

end

sublocale clocked \<subseteq> timed: session "logged p" m "timely clk ended base m" "timely_after clk ended base m"
  "timely_at clk ended base m" "\<lambda>w. ended (fst w)" for m base
proof unfold_locales
  fix s s' s1 :: "('w recorded, 'r) sequencer" and t tm w offer a e x err act now r
  show "just_ran base m t s \<Longrightarrow> ok base m s" by (simp add: timely_at_def)
  show "ok base m s \<Longrightarrow> timely_after clk ended base m s"
    by (simp add: timely_def timely_after_def within_def)
  show "ok base m s \<Longrightarrow> sq_status s = Preparing \<or> sq_status s = Countdown \<Longrightarrow> sq_elapsed s = 0"
    by (auto simp: timely_def within_def reached_def sane_def)
  show "ok base m (s\<lparr>sq_timer := tm\<rparr>)" if "ok base m s"
    by (rule ok_timed [OF that shape.timed [OF ok_within [OF that]]])
  show "ok base m (s\<lparr>sq_world := w\<rparr>)" if "ok base m s" "neutral (logged p) (sq_world s) w"
    using neutral_calls [OF that(2)] shape.called [OF ok_within [OF that(1)] that(2)] by (intro ok_called [OF that(1)]) simp_all
  show "ok base m (s\<lparr>sq_world := w\<rparr>) \<and> (offer = Inr None \<longrightarrow> ended (fst w))"
    if "ok base m s" "sq_candidate s = None" "pf_next (logged p) (sq_world s) = (offer, w)"
    using next_calls [OF that(3)] ended_look(1) shape.looked [OF ok_within [OF that(1)] that(2,3)]
    by (auto intro!: ok_called [OF that(1)])
  show "ok base m (s\<lparr>sq_world := w, sq_candidate := Some a\<rparr>)"
    if "ok base m s" "sq_candidate s = None" "pf_next (logged p) (sq_world s) = (Inr (Some a), w)" "loadable s a"
    using shape.loaded [OF ok_within [OF that(1)] that(2-4)] by (rule ok_loaded [OF that])
  show "ok base m (s\<lparr>sq_failure := Some e, sq_elapsed := t, sq_status := Failed\<rparr>)" if "ok base m s"
    by (rule ok_transition [OF that shape.failed [OF ok_within [OF that]]]) (simp_all add: same_course_def)
  have due: "just_ran base m (sa_due a) s'"
    if "ok base m s" "sq_status s = Running" "sq_candidate s = Some a" "sa_due a \<le> logical_at s m"
      "exec_action (logged p) (sa_action a) (sa_due a) s = (x, s')" for s s' a x
  proof (rule ran_exec [OF that(1) _ that(5)])
    show "active (sq_status s)" using that(2) by simp
    show "within base s'" by (rule shape.due [OF ok_within [OF that(1)] that(2-5)])
    assume i: "in_time clk ended m s"
    then have "0 \<le> ival (sa_due a)" using that(3) by (simp add: in_time_def room_def)
    then show "0 \<le> ival (sa_due a) \<and> low s (ival (sa_due a)) \<and> ival (sa_due a) \<le> reading s m \<and>
        room ended s (ival (sa_due a))"
      using i that(3,4) exact [OF i] by (auto simp: in_time_def room_def low_def i64_order)
  qed
  show "just_ran base m (sa_due a) s'"
    if "ok base m s" "sq_status s = Running" "sq_candidate s = Some a" "sa_due a \<le> logical_at s m"
      "exec_action (logged p) (sa_action a) (sa_due a) s = (x, s')"
    by (rule due [OF that])
  show "just_ran base m (sa_due a) s'"
    if "ok base m s" "sq_status s = Running" "sq_candidate s = Some a" "sa_due a \<le> logical_at s m"
      "exec_action (logged p) (sa_action a) (sa_due a) s = (x, s1)" "commit_candidate (logged p) a s1 = (err, s')"
  proof (rule ran_committed [OF due [OF that(1-5)] that(6) refl])
    show "sq_status s1 = Running" using exec_sel(1) [OF that(5)] that(2) by simp
    show "within base s'"
      by (rule within_commit [OF within_exec [OF ok_within [OF that(1)] _ that(5)] that(6)]) (use that(2) in simp)
    assume small: "small s1"
    then have "timing clk ended m s" using that(1) small_exec [OF that(5)] by (simp add: timely_def)
    moreover have "timing clk ended m s1" using due [OF that(1-5)] small by (simp add: timely_at_def timely_def)
    ultimately show "sq_next s1 < sq_sequence s1"
      using exec_sel(6) [OF that(5)] logged_exec [OF that(5)]
      by (simp add: timing_def word_less_def word_le_def)
  qed
  show "just_ran base m (logical_at s m) s'"
    if "ok base m s" "active (sq_status s)" "sq_status s = Running \<Longrightarrow> clear (\<lambda>w. ended (fst w)) s (logical_at s m)"
      "exec_action (logged p) act (logical_at s m) s = (x, s')"
  proof (rule ran_exec [OF that(1,2,4)])
    show "within base s'" by (rule within_exec [OF ok_within [OF that(1)] that(2,4)])
    assume i: "in_time clk ended m s"
    show "0 \<le> ival (logical_at s m) \<and> low s (ival (logical_at s m)) \<and> ival (logical_at s m) \<le> reading s m \<and>
        room ended s (ival (logical_at s m))"
      using present [OF i that(3)] exact [OF i] by simp
  qed
  show "ok base m (s\<lparr>sq_status := Running, sq_elapsed := 0, sq_anchor := m\<rparr>)"
    if "ok base m s" "sq_status s = Preparing"
    using shape.begun [OF ok_within [OF that(1)] that(2)] shape.zero [OF ok_within [OF that(1)]] that by (intro ok_begun) simp_all
  show "ok base m (s\<lparr>sq_status := Countdown, sq_elapsed := 0, sq_start := act, sq_countdown_anchor := now\<rparr>)"
    if "ok base m s" "sq_status s = Preparing"
    using shape.counting [OF ok_within [OF that(1)] that(2)] shape.zero [OF ok_within [OF that(1)]] that by (intro ok_counting) simp_all
  show "ok base m (s\<lparr>sq_world := w, sq_anchor := now, sq_status := Running\<rparr>)"
    if "ok base m s" "sq_status s = Countdown \<or> sq_status s = Paused" "pf_now (logged p) (sq_world s) = (Inr now, w)"
  proof -
    note c = now_calls [OF that(3)]
    have within: "within base (s\<lparr>sq_world := w\<rparr>)"
      using shape.called [OF ok_within [OF that(1)] neutral.now] that(3) by (metis snd_conv)
    have w: "ok base m (s\<lparr>sq_world := w\<rparr>)" by (rule ok_called [OF that(1) c(2,3) within])
    have "within base (s\<lparr>sq_world := w, sq_anchor := now, sq_status := Running\<rparr>)"
      by (rule shape.counted [OF ok_within [OF that(1)] that(2,3)])
    moreover have "m \<le> now" if "small (s\<lparr>sq_world := w\<rparr>)"
    proof -
      have "small s" using that c(3) by (simp add: small_def executed_def)
      then have "in_time clk ended m s" using \<open>ok base m s\<close> \<open>sq_status s = Countdown \<or> sq_status s = Paused\<close>
        by (auto simp: timely_def timing_def)
      then show ?thesis using clk_now [OF c(1)] by (simp add: in_time_def)
    qed
    ultimately show ?thesis using ok_running_clock [OF w, of now] that(2) by simp
  qed
  show "ok base m (s\<lparr>sq_status := Running, sq_anchor := m\<rparr>)" if "ok base m s" "sq_status s = Paused"
  proof -
    have same: "s\<lparr>sq_anchor := m, sq_status := Running\<rparr> = s\<lparr>sq_status := Running, sq_anchor := m\<rparr>" by simp
    have "within base (s\<lparr>sq_anchor := m, sq_status := Running\<rparr>)"
      unfolding same by (rule shape.resumed [OF ok_within [OF that(1)] that(2)])
    then have "ok base m (s\<lparr>sq_anchor := m, sq_status := Running\<rparr>)" using that by (intro ok_running) simp_all
    then show ?thesis unfolding same .
  qed
  show "ok base m (s\<lparr>sq_elapsed := t, sq_status := Paused\<rparr>)"
    if "just_ran base m t s" "sq_status s = Running \<or> sq_status s = Countdown"
  proof -
    have ok: "ok base m s" and act: "active (sq_status s)" using that by (auto simp: timely_at_def)
    show ?thesis
      by (rule ok_paused [OF ok shape.paused [OF ok_within [OF ok] that(2)] act])
        (use that(1) act in \<open>simp add: timely_at_def\<close>)
  qed
  show "ok base m (s\<lparr>sq_elapsed := logical_at s m, sq_status := Paused\<rparr>)"
    if "ok base m s" "sq_status s = Running \<or> sq_status s = Countdown"
      "sq_status s = Running \<Longrightarrow> clear (\<lambda>w. ended (fst w)) s (logical_at s m)"
  proof -
    have act: "active (sq_status s)" using that(2) by auto
    have "within base (s\<lparr>sq_elapsed := logical_at s m, sq_status := Paused\<rparr>)"
      using shape.paused [OF ok_within [OF that(1)] that(2)] .
    then show ?thesis
    proof (rule ok_paused [OF that(1) _ act])
      assume i: "in_time clk ended m s"
      show "0 \<le> ival (logical_at s m) \<and> ival (logical_at s m) \<le> m \<and> low s (ival (logical_at s m)) \<and>
          room ended s (ival (logical_at s m))"
        using present [OF i that(3)] exact [OF i] by simp
    qed
  qed
  show "ok base m (s\<lparr>sq_elapsed := t, sq_status := Completed\<rparr>)"
    if "just_ran base m t s" "active (sq_status s)"
  proof -
    have ok: "ok base m s" using that by (simp add: timely_at_def)
    show ?thesis
      by (rule ok_transition [OF ok shape.completed [OF ok_within [OF ok] that(2)]])
        (use that in \<open>simp_all add: timely_at_def same_course_def\<close>)
  qed
  show "timely_after clk ended base m (s\<lparr>sq_accepting := False, sq_pending := [], sq_status := Closed\<rparr>)" if "ok base m s"
    using that shape.closed [OF ok_within [OF that]]
    by (auto simp: timely_after_def timely_def timing_def small_def executed_def times_def)
qed

end
