(* ===== verification/Session_Clock.thy ===== *)
theory Session_Clock
  imports Session_Time
begin

text \<open>
  Runs under a clock: the steps of a session between which time passes. The mark of a run is the
  latest instant it has acted on; requests wait in the order of their receipt.
\<close>

subsection \<open>Steps under a clock\<close>

text \<open>Between two steps the world may move on by itself: time passes.\<close>

inductive clock_step ::
  "('w, 'r) platform \<Rightarrow> ('w \<Rightarrow> int) \<Rightarrow> ('w \<Rightarrow> bool) \<Rightarrow> ('w recorded, 'r) sequencer \<Rightarrow> ('w recorded, 'r) sequencer \<Rightarrow> bool"
  for p clk ended where
  asks: "ask (logged p) e1 e2 q s = (err, s') \<Longrightarrow> clock_step p clk ended s s'"
| turn: "sq_status s \<noteq> Closed \<Longrightarrow> take_turn (logged p) s = Some (out, s') \<Longrightarrow> clock_step p clk ended s s'"
| fire: "sq_status s \<noteq> Closed \<Longrightarrow> sq_timer s \<noteq> None \<Longrightarrow> now \<le> clk (fst (sq_world s)) \<Longrightarrow>
    fired (logged p) now s = Some (out, s') \<Longrightarrow> clock_step p clk ended s s'"
| wait: "clk (fst (sq_world s)) \<le> clk w \<Longrightarrow> (ended (fst (sq_world s)) \<Longrightarrow> ended w) \<Longrightarrow>
    clock_step p clk ended s (s\<lparr>sq_world := (w, snd (sq_world s))\<rparr>)"

subsection \<open>The invariant of a run\<close>

definition queued_until :: "instant \<Rightarrow> int \<Rightarrow> ('w, 'r) request list \<Rightarrow> bool" where
  "queued_until m now qs \<longleftrightarrow> sorted (map rq_received qs) \<and> (\<forall>q \<in> set qs. m \<le> rq_received q \<and> rq_received q \<le> now)"

definition punctual ::
  "('w \<Rightarrow> int) \<Rightarrow> ('w \<Rightarrow> bool) \<Rightarrow> instant \<Rightarrow> ('w recorded, 'r) sequencer \<Rightarrow> bool" where
  "punctual clk ended m s \<longleftrightarrow> sane s \<and> 0 \<le> m \<and> m \<le> clk (fst (sq_world s)) \<and>
     (small s \<longrightarrow> timing clk ended m s) \<and> queued_until m (clk (fst (sq_world s))) (sq_pending s)"

lemma queued_Nil [simp]: "queued_until m now []"
  by (simp add: queued_until_def)

lemma queued_mono: "queued_until m now qs \<Longrightarrow> now \<le> now' \<Longrightarrow> queued_until m now' qs"
  by (fastforce simp: queued_until_def)

lemma queued_snoc: "queued_until m now qs \<Longrightarrow> m \<le> now \<Longrightarrow> now \<le> rq_received q \<Longrightarrow> rq_received q \<le> now' \<Longrightarrow>
  queued_until m now' (qs @ [q])"
  by (fastforce simp: queued_until_def sorted_append)

lemma queued_Cons: "queued_until m now (q # qs) \<Longrightarrow>
  m \<le> rq_received q \<and> rq_received q \<le> now \<and> queued_until (rq_received q) now qs"
  by (auto simp: queued_until_def)

text \<open>The mark may be any instant up to the present.\<close>

lemma timing_later:
  assumes "timing clk ended m s" and "m \<le> m'" and "m' \<le> clk (fst (sq_world s))"
  shows "timing clk ended m' s"
proof -
  have "low s (reading s m')" if "low s (reading s m)"
    by (rule low_mono [OF that reading_mono [OF assms(2)]])
  then show ?thesis using assms unfolding timing_def in_time_def by auto
qed

lemma room_queue [simp]: "room ended (s\<lparr>sq_pending := qs, sq_timer := tm\<rparr>) t = room ended s t"
  "room ended (s\<lparr>sq_pending := qs\<rparr>) t = room ended s t"
  by (simp_all add: room_def cong: option.case_cong)

lemma timing_queue: "timing clk ended m (s\<lparr>sq_pending := qs, sq_timer := tm\<rparr>) \<longleftrightarrow> timing clk ended m s"
  by (simp add: timing_def in_time_def times_def executed_def low_def reading_def)

lemma timing_pending: "timing clk ended m (s\<lparr>sq_pending := qs\<rparr>) \<longleftrightarrow> timing clk ended m s"
  by (simp add: timing_def in_time_def times_def executed_def low_def reading_def)

lemma small_queue: "small (s\<lparr>sq_pending := qs, sq_timer := tm\<rparr>) \<longleftrightarrow> small s"
  by (simp add: small_def executed_def)

text \<open>The end of a step that began at \<open>base\<close>, after its first request was taken from the queue.\<close>

lemma punctual_after:
  assumes after: "timely_after clk ended base m s" and queue: "queued_until m (clk (fst (sq_world base))) (sq_pending base)"
    and m: "0 \<le> m" "m \<le> clk (fst (sq_world base))"
  shows "punctual clk ended m s"
proof -
  note a = after [unfolded timely_after_def]
  have "queued_until m (clk (fst (sq_world s))) (sq_pending s)"
  proof (cases "sq_status s = Closed")
    case True
    then have "sq_pending s = []" using a by (auto simp: reached_def sane_def)
    then show ?thesis by simp
  next
    case False
    then have "sq_pending s = sq_pending base" using a by (simp add: within_def)
    then show ?thesis using queue queued_mono a by metis
  qed
  then show ?thesis using a m by (simp add: punctual_def reached_def)
qed

lemma timely_self:
  assumes "sane s" and "sq_status s \<noteq> Closed" and "small s \<Longrightarrow> timing clk ended m s"
  shows "timely clk ended s m s"
  using assms within_refl by (simp add: timely_def)

context clocked
begin

lemma after_timely:
  fixes s :: "('w recorded, 'r) sequencer"
  shows "timely clk ended base m s \<Longrightarrow> timely_after clk ended base m s"
  by (rule timed.I_K)

lemma punctual_asks:
  assumes p: "punctual clk ended m s" and a: "ask (logged p) e1 e2 q s = (err, s')"
  shows "punctual clk ended m s'"
proof (cases "s' = s")
  case False
  obtain r s1 where t: "on_world (current_time (logged p)) s = (r, s1)" by fastforce
  from a False have adm: "admit (logged p) e1 e2 q s = (err, s')"
    by (simp add: ask_def split: sum.splits)
  have none: "e1 = None" and acc: "sq_accepting s" and none': "e2 = None"
    using adm False by (cases e1; cases "sq_accepting s"; cases e2; simp add: admit_def)+
  have opn: "sq_status s \<noteq> Closed" using p acc by (auto simp: punctual_def sane_def)
  have self: "timely clk ended s m s" using p opn by (intro timely_self) (simp_all add: punctual_def)
  have s1: "timely clk ended s m s1" by (rule timed.called_eq(2) [OF self t])
  have queue: "queued_until m (clk (fst (sq_world s))) (sq_pending s)" and m: "0 \<le> m" "m \<le> clk (fst (sq_world s))"
    using p by (simp_all add: punctual_def)
  have p1: "punctual clk ended m s1" by (rule punctual_after [OF after_timely [OF s1] queue m])
  obtain w where w: "s1 = s\<lparr>sq_world := w\<rparr>" "\<And>t. r = Inr t \<Longrightarrow> pf_now (logged p) (sq_world s) = (Inr t, w)"
    using read_time [OF t] by metis
  show ?thesis
  proof (cases r)
    case (Inl e)
    then show ?thesis using adm acc t p1 by (simp add: admit_def none none')
  next
    case (Inr now)
    then have s': "s' = s1\<lparr>sq_pending := sq_pending s1 @ [q\<lparr>rq_received := now\<rparr>]\<rparr>"
      using adm acc t by (simp add: admit_def none none')
    have now: "clk (fst (sq_world s)) \<le> now" "now \<le> clk (fst w)"
      using clk_now now_calls(1) [OF w(2) [OF Inr]] by blast+
    have "queued_until m (clk (fst w)) (sq_pending s @ [q\<lparr>rq_received := now\<rparr>])"
      using queued_snoc [OF queue m(2)] now by simp
    moreover have "sane s'" using p1 opn w(1) s' by (simp add: punctual_def sane_def)
    ultimately show ?thesis
      using p1 w(1) unfolding s' by (simp add: punctual_def timing_pending small_def executed_def)
  qed
qed (use p in simp)

text \<open>Serving the request at the head of the queue.\<close>

lemma punctual_request:
  assumes p: "punctual clk ended m s" and opn: "sq_status s \<noteq> Closed" and q: "sq_pending s = q # qs"
    and out: "handle_request (logged p) q (s\<lparr>sq_pending := qs, sq_timer := tm\<rparr>) = Some r"
  shows "punctual clk ended (rq_received q) (snd r)"
proof -
  let ?s = "s\<lparr>sq_pending := qs, sq_timer := tm\<rparr>"
  have queue: "m \<le> rq_received q" "rq_received q \<le> clk (fst (sq_world s))"
    "queued_until (rq_received q) (clk (fst (sq_world s))) qs"
    using p queued_Cons [of m _ q qs] q by (auto simp: punctual_def)
  have m: "0 \<le> m" using p by (simp add: punctual_def)
  have "timely clk ended ?s (rq_received q) ?s"
  proof (rule timely_self)
    show "sane ?s" using p opn by (simp add: punctual_def sane_queue)
    show "timing clk ended (rq_received q) ?s" if "small ?s"
      using p that timing_later [where clk = clk and s = s, OF _ queue(1,2)] by (simp add: punctual_def timing_queue small_queue)
  qed (use opn in simp)
  then have "timely_after clk ended ?s (rq_received q) (snd r)" by (rule timed.request_keeps [OF _ refl out])
  then show ?thesis by (rule punctual_after) (use queue m in simp_all)
qed

lemma punctual_turn:
  assumes p: "punctual clk ended m s" and opn: "sq_status s \<noteq> Closed" and out: "take_turn (logged p) s = Some (r, s')"
  shows "\<exists>m'. punctual clk ended m' s'"
proof (cases "sq_pending s")
  case Nil
  have "timely clk ended s m s" using p opn by (intro timely_self) (simp_all add: punctual_def)
  then have "timely_after clk ended s m (poll_timer (logged p) s)" by (intro after_timely timed.poll_keeps)
  then have "punctual clk ended m (poll_timer (logged p) s)"
    by (rule punctual_after) (use p in \<open>simp_all add: punctual_def\<close>)
  then show ?thesis using out Nil by (auto simp: take_turn_def dequeue_def)
next
  case (Cons q qs)
  obtain r1 where h: "handle_request (logged p) q (s\<lparr>sq_pending := qs\<rparr>) = Some r1" "s' = snd r1"
    using out Cons by (auto simp: take_turn_def dequeue_def)
  have same: "s\<lparr>sq_pending := qs\<rparr> = s\<lparr>sq_pending := qs, sq_timer := sq_timer s\<rparr>" by (cases s) simp
  have "handle_request (logged p) q (s\<lparr>sq_pending := qs, sq_timer := sq_timer s\<rparr>) = Some r1"
    unfolding same [symmetric] by (rule h(1))
  then show ?thesis using punctual_request [OF p opn Cons] h(2) by blast
qed

text \<open>A time that the timer delivers, up to the present, reads no later than the present.\<close>

lemma reading_before:
  assumes i: "in_time clk ended m s" and now: "now \<le> m"
  shows "logical_at s now \<le> logical_at s m"
proof (cases "sq_status s \<noteq> Running \<or> now < sq_anchor s")
  case True
  then have "ival (logical_at s now) = ival (sq_elapsed s)" by (auto simp: logical_at_def)
  then show ?thesis using reading_range [OF i] exact [OF i] by (simp add: i64_order)
next
  case False
  have m: "m < clock_limit" using i clk_range(2) [of "fst (sq_world s)"] by (simp add: in_time_def)
  have "ival (time_sub now (sq_anchor s)) = now - sq_anchor s"
    using False i m now by (intro time_sub_exact) (auto simp: in_time_def)
  then have "ival (logical_at s now) = reading s now"
    using False i m now by (simp add: logical_at_def reading_def in_time_def ival_add fits_def clock_limit_def)
  then show ?thesis using reading_mono [OF now] exact [OF i] by (simp add: i64_order)
qed

lemma fired_alone:
  assumes p: "punctual clk ended m s" and opn: "sq_status s \<noteq> Closed" and now: "now \<le> clk (fst (sq_world s))"
    and none: "sq_pending s = []" and out: "fired (logged p) now s = Some r"
  shows "timely_after clk ended s (max m now) (snd r)"
proof (cases "small s")
  case True
  have m: "m \<le> max m now" "max m now \<le> clk (fst (sq_world s))" using p now by (simp_all add: punctual_def)
  have t: "timing clk ended (max m now) s" using p True timing_later [where clk = clk and s = s, OF _ m] by (simp add: punctual_def)
  have self: "timely clk ended s (max m now) s"
    using p opn t by (intro timely_self) (simp_all add: punctual_def)
  have "logical_at s now \<le> logical_at s (max m now)"
  proof (cases "sq_status s = Running")
    case True
    then have "in_time clk ended (max m now) s" using t by (simp add: timing_def)
    then show ?thesis by (rule reading_before) simp
  qed (simp add: logical_at_def)
  then show ?thesis by (intro after_timely timed.fired_keeps [OF self none _ out])
next
  case False
  have "timely clk ended s now s" using p opn False by (intro timely_self) (simp_all add: punctual_def)
  then have after: "timely_after clk ended s now (snd r)"
    by (intro after_timely timed.fired_keeps [OF _ none order_refl out])
  then have "\<not> small (snd r)" using False by (auto simp: timely_after_def reached_def extends_def small_def)
  then show ?thesis using after by (simp add: timely_after_def)
qed

lemma punctual_fired:
  assumes p: "punctual clk ended m s" and opn: "sq_status s \<noteq> Closed" and now: "now \<le> clk (fst (sq_world s))"
    and out: "fired (logged p) now s = Some (r, s')"
  shows "\<exists>m'. punctual clk ended m' s'"
proof (cases "sq_pending s")
  case Nil
  have "punctual clk ended (max m now) s'"
    using fired_alone [OF p opn now Nil out, unfolded snd_conv] by (rule punctual_after) (use p now Nil in \<open>auto simp: punctual_def\<close>)
  then show ?thesis by blast
next
  case (Cons q qs)
  have same: "s\<lparr>sq_timer := None, sq_pending := qs\<rparr> = s\<lparr>sq_pending := qs, sq_timer := None\<rparr>" by simp
  obtain r2 s2 where h: "handle_request (logged p) q (s\<lparr>sq_pending := qs, sq_timer := None\<rparr>) = Some (r2, s2)"
    and s': "s' = (if sq_status s2 = Countdown \<and> sq_timer s2 = None
                   then snd (rearm_countdown_timer (logged p) s2) else s2)"
    using out Cons unfolding same [symmetric] by (auto simp: fired_def dequeue_def)
  let ?m = "rq_received q"
  have s2: "punctual clk ended ?m s2" using punctual_request [OF p opn Cons h] by simp
  have "punctual clk ended ?m (snd (rearm_countdown_timer (logged p) s2))" if "sq_status s2 = Countdown"
  proof -
    have "timely clk ended s2 ?m s2" using s2 that by (intro timely_self) (simp_all add: punctual_def)
    then have "timely_after clk ended s2 ?m (snd (rearm_countdown_timer (logged p) s2))"
      by (intro after_timely timed.rearm_countdown_keeps)
    then show ?thesis by (rule punctual_after) (use s2 in \<open>simp_all add: punctual_def\<close>)
  qed
  then show ?thesis using s2 s' by auto
qed

lemma punctual_wait:
  assumes p: "punctual clk ended m s" and w: "clk (fst (sq_world s)) \<le> clk w" "ended (fst (sq_world s)) \<Longrightarrow> ended w"
  shows "punctual clk ended m (s\<lparr>sq_world := (w, snd (sq_world s))\<rparr>)"
proof -
  let ?s = "s\<lparr>sq_world := (w, snd (sq_world s))\<rparr>"
  have ex: "executed ?s = executed s" by (simp add: executed_def)
  have "room ended s t \<Longrightarrow> room ended ?s t" for t using w(2) by (auto simp: room_def split: option.splits)
  moreover have "reading ?s m = reading s m" by (simp add: reading_def)
  ultimately have "timing clk ended m ?s" if "timing clk ended m s"
    using that w(1) unfolding timing_def in_time_def executed_eq(1,3) [OF ex] ex by auto
  then show ?thesis
    using p w(1) queued_mono executed_eq(2) [OF ex] by (auto simp: punctual_def sane_def)
qed

lemma punctual_step:
  assumes "clock_step p clk ended s s'" and "punctual clk ended m s"
  shows "\<exists>m'. punctual clk ended m' s'"
  using assms
proof cases
  case (asks e1 e2 q err)
  then show ?thesis using punctual_asks [OF assms(2)] by blast
next
  case (turn out)
  then show ?thesis using punctual_turn [OF assms(2)] by blast
next
  case (fire now out)
  then show ?thesis using punctual_fired [OF assms(2)] by blast
next
  case (wait w)
  then show ?thesis using punctual_wait [OF assms(2)] by blast
qed

lemma punctual_run:
  assumes "(clock_step p clk ended)\<^sup>*\<^sup>* s s'" and "punctual clk ended m s"
  obtains m' where "punctual clk ended m' s'"
proof -
  have "\<exists>m'. punctual clk ended m' s'"
    using assms by (induction rule: rtranclp_induct) (auto dest: punctual_step)
  then show thesis using that by blast
qed

end

text \<open>A fresh session, created from a checkpoint in preparation.\<close>

lemma started_punctual:
  assumes "started (logged p) c s" and "cp_status c = Preparing" and "executed s = []" and "\<And>w. 0 \<le> clk w"
  shows "punctual clk ended 0 s"
proof -
  have s: "sq_status s = Preparing" "sq_elapsed s = 0" "sq_next s = 0" "sq_sequence s = 0" "sq_candidate s = None"
    "sq_pending s = []"
    using assms(1,2) by (auto simp: started_def new_sequencer_def validate_checkpoint_def Let_def case_prod_beta
        guardE_def fails_def split: if_splits sum.splits)
  then show ?thesis
    using started_sane [OF assms(1)] assms(3,4)
    by (simp add: punctual_def timing_def in_time_def times_def low_def room_def reading_def)
qed

lemma clocked_run:
  assumes "monotone_clock p clk" and "stays_ended p ended" and "started (logged p) c s0" and "cp_status c = Preparing"
    and "executed s0 = []" and "(clock_step p clk ended)\<^sup>*\<^sup>* s0 s"
  shows "\<exists>m. punctual clk ended m s"
proof -
  have c: "clocked p clk ended" by (rule clocked.intro [OF assms(1,2)])
  have "punctual clk ended 0 s0"
    by (rule started_punctual [OF assms(3-5)]) (use assms(1) in \<open>simp add: monotone_clock_def\<close>)
  then show ?thesis using clocked.punctual_run [OF c assms(6)] by blast
qed

end
