(* ===== verification/Session_Returns.thy ===== *)
theory Session_Returns
  imports Session_Time
begin

text \<open>
  The loop over due actions ends on every platform whose schedule can be used up: a measure of the
  world that no call increases and that each successful commit decreases. Then every request is
  served and every firing of the timer returns.
\<close>

locale finite_schedule =
  fixes p :: "('w, 'r) platform" and valid :: "'w \<Rightarrow> bool" and left :: "'w \<Rightarrow> nat"
  assumes call_keeps: "valid w \<Longrightarrow> calls p w w' \<Longrightarrow> valid w' \<and> left w' \<le> left w"
    and commit_less: "valid w \<Longrightarrow> pf_commit p a w = (Inr (), w') \<Longrightarrow> left w' < left w"

definition good_world :: "('w \<Rightarrow> bool) \<Rightarrow> ('w, 'r) sequencer \<Rightarrow> bool" where
  "good_world valid s \<longleftrightarrow> valid (sq_world s) \<and>
     (sq_status s = Preparing \<or> sq_status s = Countdown \<longrightarrow> sq_elapsed s = 0)"

lemma exec_plain_calls: "exec_action p a t s = (x, s') \<Longrightarrow> calls p (sq_world s) (sq_world s')"
  using calls.exec [of p "sq_world s" a t] by (simp add: exec_sel(11))

lemma load_calls:
  assumes "load_candidate p s = (r, s')"
  shows "sq_world s' = sq_world s \<or> calls p (sq_world s) (sq_world s')"
  using assms calls.look [of p "sq_world s"]
  by (auto simp: load_candidate_def on_world_def next_scheduled_action_def Let_def case_prod_beta fails_def
      split: option.splits sum.splits if_splits)

lemma commit_calls:
  assumes "commit_candidate p a s = (r, s')"
  shows "sq_world s' = sq_world s \<and> r \<noteq> None \<or>
    calls p (sq_world s) (sq_world s') \<and> (r = None \<longrightarrow> pf_commit p a (sq_world s) = (Inr (), sq_world s'))"
  using assms calls.commit [of p "sq_world s" a]
  by (auto simp: commit_candidate_def on_world_def commit_scheduled_action_def Let_def case_prod_beta prod_eq_iff
      split: if_splits sum.splits)

sublocale finite_schedule \<subseteq> steady: session p m "good_world valid" "good_world valid" "\<lambda>_. good_world valid" "\<lambda>_. True"
  for m
proof unfold_locales
  fix s s' s1 :: "('w, 'r) sequencer" and t tm w offer a e x err act now r
  show "good_world valid s \<Longrightarrow> good_world valid (s\<lparr>sq_world := w\<rparr>) \<and> (offer = Inr None \<longrightarrow> True)"
    if "pf_next p (sq_world s) = (offer, w)"
    using call_keeps [OF _ calls.look, of "sq_world s"] that by (auto simp: good_world_def)
  show "good_world valid s \<Longrightarrow> good_world valid (s\<lparr>sq_world := w, sq_candidate := Some a\<rparr>)"
    if "pf_next p (sq_world s) = (Inr (Some a), w)"
    using call_keeps [OF _ calls.look, of "sq_world s"] that by (auto simp: good_world_def)
  show "good_world valid s \<Longrightarrow> neutral p (sq_world s) w \<Longrightarrow> good_world valid (s\<lparr>sq_world := w\<rparr>)"
    using call_keeps [OF _ calls.neutral, of "sq_world s"] by (auto simp: good_world_def)
  have ran: "good_world valid s \<Longrightarrow> exec_action p b t s = (x, s') \<Longrightarrow> good_world valid s'" for b t s s' x
    using call_keeps [OF _ exec_plain_calls [of p b t s x s']] exec_sel(1,2) [of p b t s x s']
    by (auto simp: good_world_def)
  show "good_world valid s \<Longrightarrow> exec_action p (sa_action a) (sa_due a) s = (x, s') \<Longrightarrow> good_world valid s'" by (rule ran)
  show "good_world valid s \<Longrightarrow> exec_action p act (logical_at s m) s = (x, s') \<Longrightarrow> good_world valid s'" by (rule ran)
  have committed: "good_world valid s'" if "good_world valid s" "commit_candidate p a s = (err, s')" for s s'
    using call_keeps [of "sq_world s" "sq_world s'"] commit_calls [OF that(2)] commit_sel(1,2) [OF that(2)] that(1)
    by (auto simp: good_world_def)
  show "good_world valid s'" if "good_world valid s" "exec_action p (sa_action a) (sa_due a) s = (x, s1)"
    "commit_candidate p a s1 = (err, s')"
    by (rule committed [OF ran [OF that(1,2)] that(3)])
  show "good_world valid (s\<lparr>sq_world := w, sq_anchor := now, sq_status := Running\<rparr>)"
    if "good_world valid s" "pf_now p (sq_world s) = (Inr now, w)"
    using call_keeps [OF _ calls.neutral [OF neutral.now], of "sq_world s"] that by (simp add: good_world_def)
qed (auto simp: good_world_def)

context finite_schedule
begin

text \<open>Each round of the loop either ends it or uses up a part of the schedule.\<close>

lemma process_due_returns:
  assumes "good_world valid s" and "sq_status s = Running"
  shows "process_due p t s \<noteq> None"
  using assms
proof (induction "left (sq_world s)" arbitrary: s rule: less_induct)
  case less
  obtain r1 s1 where l: "load_candidate p s = (r1, s1)" by fastforce
  have s1: "good_world valid s1" "sq_status s1 = Running"
    using steady.load_keeps(1) [OF less.prems(1) l] load_sel(1) [OF l] less.prems(2) by simp_all
  have v: "valid (sq_world s)" "valid (sq_world s1)" using less.prems(1) s1(1) by (simp_all add: good_world_def)
  have w1: "left (sq_world s1) \<le> left (sq_world s)" using load_calls [OF l] call_keeps [OF v(1)] by auto
  have "process_due p t s3 \<noteq> None"
    if x: "exec_action p (sa_action item) (sa_due item) s1 = (x, s2)" and c: "commit_candidate p item s2 = (None, s3)"
    for item x s2 s3
  proof (rule less.hyps)
    have x2: "calls p (sq_world s1) (sq_world s2)" by (rule exec_plain_calls [OF x])
    have "pf_commit p item (sq_world s2) = (Inr (), sq_world s3)" using commit_calls [OF c] by simp
    then show "left (sq_world s3) < left (sq_world s)"
      using call_keeps [OF v(2) x2] commit_less w1 by fastforce
    have "good_world valid s2" using s1 exec_sel(1) [OF x] call_keeps [OF v(2) x2] by (simp add: good_world_def)
    then show "good_world valid s3"
      using commit_calls [OF c] call_keeps commit_sel(1) [OF c] exec_sel(1) [OF x] s1(2)
      by (auto simp: good_world_def)
    show "sq_status s3 = Running" using commit_sel(1) [OF c] exec_sel(1) [OF x] s1(2) by simp
  qed
  then show ?case
    by (subst process_due.simps)
      (auto simp: l Let_def split: sum.splits option.splits prod.splits if_splits)
qed

lemma serve_returns:
  assumes "good_world valid s"
  shows "serve p q s \<noteq> None"
  using process_due_returns [OF assms]
  by (cases "rq_kind q")
    (auto simp: serve_def handle_submit_def handle_pause_def handle_pause_action_def handle_complete_action_def
      handle_view_def handle_close_def Let_def simp del: not_None_eq)

lemma request_returns:
  assumes "good_world valid s"
  shows "handle_request p q s \<noteq> None"
proof -
  obtain found s1 where f: "(if carries_action (rq_kind q) then replay p (rq_action q) s else (None, s)) = (found, s1)"
    by fastforce
  have s1: "good_world valid s1" using f steady.replay_keeps [OF assms] assms by (auto split: if_splits)
  define s2 where "s2 = (if countdown_over p q s1 then snd (complete_countdown p s1) else s1)"
  have "good_world valid s2"
    using steady.complete_countdown_keeps [OF s1] s1 by (simp add: s2_def countdown_over_def)
  then show ?thesis
    using serve_returns [of s2 q] unfolding handle_request_def f Let_def prod.case s2_def [symmetric]
    by (simp del: not_None_eq split: option.split)
qed

lemma turn_returns:
  assumes "good_world valid s"
  shows "take_turn p s \<noteq> None"
proof -
  have "handle_request p q (s\<lparr>sq_pending := qs\<rparr>) \<noteq> None" for q qs
    by (rule request_returns) (use assms in \<open>simp add: good_world_def\<close>)
  then show ?thesis by (simp add: take_turn_def dequeue_def del: not_None_eq split: list.split)
qed

lemma fired_returns:
  assumes "good_world valid s"
  shows "fired p now s \<noteq> None"
proof -
  have "handle_request p q (s\<lparr>sq_timer := None, sq_pending := qs\<rparr>) \<noteq> None" for q qs
    by (rule request_returns) (use assms in \<open>simp add: good_world_def\<close>)
  moreover have "process_due p t (s\<lparr>sq_timer := None\<rparr>) \<noteq> None" if "sq_status s = Running" for t
    by (rule process_due_returns) (use assms that in \<open>simp_all add: good_world_def\<close>)
  ultimately show ?thesis by (simp add: fired_def dequeue_def del: not_None_eq split: list.split)
qed

text \<open>The measure survives every step, so it is there whenever a request is served.\<close>

lemma good_pending: "good_world valid (s\<lparr>sq_pending := qs\<rparr>) = good_world valid s"
  "good_world valid (s\<lparr>sq_timer := tm, sq_pending := qs\<rparr>) = good_world valid s"
  "good_world valid (s\<lparr>sq_timer := tm\<rparr>) = good_world valid s"
  by (simp_all add: good_world_def)

lemma good_asks:
  assumes "good_world valid s" and "ask p e1 e2 q s = (err, s')"
  shows "good_world valid s'"
proof (cases "s' = s")
  case False
  obtain r s1 where t: "on_world (current_time p) s = (r, s1)" by fastforce
  have "good_world valid s1" by (rule steady.called_eq(2) [OF assms(1) t])
  moreover have "s' = s1 \<or> (\<exists>q. s' = s1\<lparr>sq_pending := sq_pending s1 @ [q]\<rparr>)"
    using assms(2) False t by (auto simp: ask_def admit_def split: sum.splits option.splits if_splits)
  ultimately show ?thesis by (auto simp: good_pending)
qed (use assms in simp)

lemma good_turn:
  assumes "good_world valid s" and "take_turn p s = Some (out, s')"
  shows "good_world valid s'"
proof (cases "sq_pending s")
  case Nil
  then show ?thesis using assms steady.poll_keeps by (auto simp: take_turn_def dequeue_def)
next
  case (Cons q qs)
  then obtain r where "handle_request p q (s\<lparr>sq_pending := qs\<rparr>) = Some r" "s' = snd r"
    using assms(2) by (auto simp: take_turn_def dequeue_def)
  then show ?thesis using steady.request_keeps [OF _ refl, of "s\<lparr>sq_pending := qs\<rparr>" q r] assms(1) by (simp add: good_pending)
qed

lemma good_fired:
  assumes "good_world valid s" and "fired p now s = Some (out, s')"
  shows "good_world valid s'"
proof (cases "sq_pending s")
  case Nil
  then show ?thesis using steady.fired_keeps [OF assms(1) Nil order_refl assms(2)] by simp
next
  case (Cons q qs)
  then obtain r2 s2 where "handle_request p q (s\<lparr>sq_timer := None, sq_pending := qs\<rparr>) = Some (r2, s2)"
    and s': "s' = (if sq_status s2 = Countdown \<and> sq_timer s2 = None then snd (rearm_countdown_timer p s2) else s2)"
    using assms(2) by (auto simp: fired_def dequeue_def)
  then have "good_world valid s2"
    using steady.request_keeps [OF _ refl, of "s\<lparr>sq_timer := None, sq_pending := qs\<rparr>" q "(r2, s2)"] assms(1)
    by (simp add: good_pending)
  then show ?thesis using s' steady.rearm_countdown_keeps by simp
qed

lemma good_steps: "(step p)\<^sup>*\<^sup>* s s' \<Longrightarrow> good_world valid s \<Longrightarrow> good_world valid s'"
  by (induction rule: rtranclp_induct) (auto elim!: step.cases intro: good_asks good_turn good_fired)

lemma good_start:
  assumes "started p c s" and "valid (sq_world s)"
  shows "good_world valid s"
  using started_sane [OF assms(1)] assms(2) by (simp add: good_world_def sane_def)

end

subsection \<open>The queue\<close>

text \<open>Only a close request refuses others: it refuses exactly those that are waiting.\<close>

lemma close_refuses:
  assumes w: "within base s" and out: "handle_close (logged p) q s = Some ((resp, refused), s')"
  shows "refused = sq_pending base \<and> sq_pending s' = []"
proof -
  have close: "refused = sq_pending s1 \<and> sq_pending s' = []"
    if "close_now (logged p) q err s1 = ((resp, refused), s')" for err s1
  proof -
    obtain r2 s2 where s2: "stop_timer (logged p) s1 = (r2, s2)" by fastforce
    then show ?thesis using that stop_sel(7) [OF s2] by (auto simp: close_now_def stop_admission_def Let_def)
  qed
  show ?thesis
  proof (cases "sq_status s = Running")
    case True
    obtain due s1 where d: "process_due (logged p) (logical_at s (rq_received q)) s = Some (due, s1)"
      and c: "\<exists>err s2. close_now (logged p) q err s2 = ((resp, refused), s') \<and> sq_pending s2 = sq_pending s1"
      using out True by (fastforce simp: handle_close_def Let_def split: option.splits if_splits)
    have "within base s1"
      using shape.process_due_settled [OF d w True order_refl] by (simp add: shape.settled_def)
    then show ?thesis using c close by (auto simp: within_def)
  next
    case False
    then show ?thesis
      using out w close by (fastforce simp: handle_close_def within_def split: if_splits)
  qed
qed

lemma request_refuses:
  assumes w: "within base s" and out: "handle_request (logged p) q s = Some ((resp, refused), s')"
  shows "refused @ sq_pending s' = sq_pending base \<and> (sq_status s' = Closed \<longrightarrow> sq_pending s' = []) \<and>
    (sq_status s' \<noteq> Closed \<longrightarrow> refused = [])"
proof (cases "rq_kind q = ReqClose")
  case True
  then have c: "handle_close (logged p) q s = Some ((resp, refused), s')" using out shape.request_close by metis
  then have "sq_status s' = Closed"
    by (auto simp: handle_close_def close_now_def Let_def case_prod_beta split: option.splits if_splits)
  then show ?thesis using close_refuses [OF w c] by simp
next
  case False
  then show ?thesis using shape.request_open [OF w refl out] by (auto simp: within_def)
qed

end
