(* ===== verification/Executor.thy ===== *)
theory Executor
  imports Sequencer_Data Exchange_Runs
begin

text \<open>
  The exchange as the sequencer's executor (\<^verbatim>\<open>internal/realtime/exchange.go\<close>): participant and
  system actions are translated to engine calls, their errors to dispositions, and quotes carry an
  optimistic revision number. A Go panic is the \<open>Inl\<close> of the result.
\<close>

record executor_config =
  xc_qty :: qty
  xc_carry :: price
  xc_informed :: i64

record executor =
  xe_engine :: engine
  xe_cfg :: executor_config
  xe_revision :: u64

type_synonym answer = "(executor \<times> result reply_of) res"

definition quote_revision_conflict :: go_error where
  "quote_revision_conflict = ErrorsNew ''quote revision conflict''"

definition new_executor :: "engine \<Rightarrow> executor_config \<Rightarrow> executor res" where
  "new_executor e c =
     guardE (\<not> positive (xc_qty c) \<or> xc_qty c > cf_max_qty (e_cfg e) \<or> xc_qty c > cf_max_position (e_cfg e) \<or>
             xc_carry c < 0 \<or> xc_informed c < 0 \<or> xc_informed c > 10000)
       ''invalid real-time exchange executor config''
    (orFail (notional (xc_carry c) (cf_max_position (e_cfg e))) ''carry rate exceeds engine numeric limits''
       (\<lambda>_. Inr \<lparr>xe_engine = e, xe_cfg = c, xe_revision = 0\<rparr>))"

definition turn_down :: "executor \<Rightarrow> disposition \<Rightarrow> go_error \<Rightarrow> answer" where
  "turn_down x d err = Inr (x, \<lparr>oc_result = None, oc_disp = d, oc_err = Some err\<rparr>)"

definition accept_result :: "executor \<Rightarrow> disposition \<Rightarrow> result \<Rightarrow> answer" where
  "accept_result x d r = Inr (x, \<lparr>oc_result = Some r, oc_disp = d, oc_err = None\<rparr>)"

definition disposition_of :: "bool \<Rightarrow> disposition" where
  "disposition_of over = (if over then DispComplete else DispContinue)"

definition execute_participant :: "executor \<Rightarrow> action \<Rightarrow> answer" where
  "execute_participant x a =
     (if an_kind a = action_quit
      then if an_payload a \<noteq> NoPayload then turn_down x DispReject (ErrorsNew ''quit does not accept a payload'')
           else bindE (quit_real_time (xe_engine x)) (\<lambda>(e, r, err).
             let x1 = x\<lparr>xe_engine := e\<rparr> in
             case err of Some er \<Rightarrow> turn_down x1 DispReject er | None \<Rightarrow> accept_result x1 DispComplete r)
      else if an_kind a \<noteq> action_update_quote
      then turn_down x DispReject (ErrorsNew ''unsupported participant action'')
      else case an_payload a of
          UpdateQuote q \<Rightarrow>
            if (case qp_revision q of None \<Rightarrow> False | Some n \<Rightarrow> n \<noteq> xe_revision x)
            then turn_down x DispReject quote_revision_conflict
            else bindE (update_quote (xe_engine x) (qp_bid q) (qp_ask q) (xc_qty (xe_cfg x))) (\<lambda>(e, r, err).
              let x1 = x\<lparr>xe_engine := e\<rparr> in
              case err of
                Some er \<Rightarrow> turn_down x1 DispReject er
              | None \<Rightarrow> accept_result (x1\<lparr>xe_revision := xe_revision x + 1\<rparr>)
                  (disposition_of (st_over (rs_state r))) r)
        | _ \<Rightarrow> turn_down x DispReject (ErrorsNew ''invalid quote payload''))"

definition bad_arrival :: "config \<Rightarrow> arrival_payload \<Rightarrow> bool" where
  "bad_arrival c p \<longleftrightarrow> ap_draw p \<ge> 10000 \<or> \<not> ap_has_mark p \<and> ap_move p \<noteq> 0 \<or>
     ap_has_mark p \<and> (ap_move p < cf_min_move c \<or> ap_move p > cf_max_move c)"

text \<open>Which side the customer takes. An informed customer trades towards the mark that is about to be
  set; where that mark does not move it is an ordinary one.\<close>

definition informed_arrival :: "executor \<Rightarrow> arrival_payload \<Rightarrow> customer_arrival res" where
  "informed_arrival x p =
     (let s = (if ap_buy p then Buy else Sell);
          plain = \<lparr>ca_side = s, ca_qty = ap_qty p, ca_slip = ap_slip p, ca_informed = False, ca_mark = 0\<rparr>
      in if ap_has_mark p \<and> ap_draw p < bits (xc_informed (xe_cfg x))
         then bindE (state_of (xe_engine x)) (\<lambda>st.
           orFail (scale_price (st_mark st) (10000 + ap_move p) 10000) ''upcoming mark movement is invalid'' (\<lambda>next.
           guardE (\<not> positive next) ''upcoming mark movement is invalid''
             (Inr (if next \<noteq> st_mark st
                   then plain\<lparr>ca_informed := True, ca_mark := next,
                              ca_side := (if next > st_mark st then Buy else Sell)\<rparr>
                   else plain))))
         else Inr plain)"

definition finish_system :: "executor \<Rightarrow> bool \<Rightarrow> outcome \<Rightarrow> answer" where
  "finish_system x expired out = bindE out (\<lambda>(e, r, err).
     let x1 = x\<lparr>xe_engine := e\<rparr> in
     case err of
       Some er \<Rightarrow> turn_down x1 DispFail er
     | None \<Rightarrow> accept_result x1 (disposition_of (st_over (rs_state r) \<or> expired)) r)"

definition execute_system :: "executor \<Rightarrow> action \<Rightarrow> answer" where
  "execute_system x a =
     (let e = xe_engine x in
      if an_kind a = action_arrival
      then (case an_payload a of
          CustomerArrival p \<Rightarrow>
            if bad_arrival (e_cfg e) p then turn_down x DispFail (ErrorsNew ''invalid customer payload'')
            else (case informed_arrival x p of
                Inl err \<Rightarrow> if is_panic err then Inl err else turn_down x DispFail err
              | Inr ca \<Rightarrow> finish_system x False (apply_customer_arrival e ca))
        | _ \<Rightarrow> turn_down x DispFail (ErrorsNew ''invalid customer payload''))
      else if an_kind a = action_mark_move
      then (case an_payload a of
          MarkMove m \<Rightarrow> finish_system x False (apply_mark_move e m)
        | _ \<Rightarrow> turn_down x DispFail (ErrorsNew ''invalid mark payload''))
      else if an_kind a = action_carry
      then if an_payload a \<noteq> NoPayload
           then turn_down x DispFail (ErrorsNew ''carry action does not accept a payload'')
           else finish_system x False (apply_carry e (xc_carry (xe_cfg x)))
      else if an_kind a = action_expired
      then if an_payload a \<noteq> NoPayload
           then turn_down x DispFail (ErrorsNew ''expiry action does not accept a payload'')
           else finish_system x True (expire_trading_day e)
      else turn_down x DispFail (ErrorsNew ''unsupported system action''))"

definition execute_action :: "executor \<Rightarrow> action \<Rightarrow> answer" where
  "execute_action x a =
     (if an_source a = ParticipantSource then execute_participant x a
      else if an_source a \<noteq> SystemSource
      then turn_down x DispFail (ErrorsNew ''unsupported action source'')
      else execute_system x a)"

subsection \<open>What the engine reports is what it is\<close>

lemma state_over: "state_of e = Inr st \<Longrightarrow> st_over st = e_over e"
  by (auto simp: state_of_def)

lemma step_reports:
  "update_quote_step bid ask q e = Inr (e', r) \<Longrightarrow> state_of e' = Inr (rs_state r)"
  "customer_arrival_step ca e = Inr (e', r) \<Longrightarrow> state_of e' = Inr (rs_state r)"
  "mark_move_step m e = Inr (e', r) \<Longrightarrow> state_of e' = Inr (rs_state r)"
  "carry_step rate e = Inr (e', r) \<Longrightarrow> state_of e' = Inr (rs_state r)"
  "expire_step reason e = Inr (e', r) \<Longrightarrow> state_of e' = Inr (rs_state r) \<and> e_over e'"
  by (auto simp: update_quote_step_def customer_arrival_step_def mark_move_step_def carry_step_def
      expire_step_def end_session_def emit_def bump_version_def finish_def result_of_def case_prod_beta Let_def)

lemma transact_reports:
  assumes "transact e step = Inr (e', r, None)" and "\<And>c c' r. step c = Inr (c', r) \<Longrightarrow> Q c' (rs_state r)"
  shows "Q e' (rs_state r)"
  using assms by (auto simp: transact_def refuse_def split: sum.splits if_splits)

lemma call_reports:
  "update_quote e bid ask q = Inr (e', r, None) \<Longrightarrow> state_of e' = Inr (rs_state r)"
  "apply_customer_arrival e ca = Inr (e', r, None) \<Longrightarrow> state_of e' = Inr (rs_state r)"
  "apply_mark_move e m = Inr (e', r, None) \<Longrightarrow> state_of e' = Inr (rs_state r)"
  "apply_carry e rate = Inr (e', r, None) \<Longrightarrow> state_of e' = Inr (rs_state r)"
  "expire_trading_day e = Inr (e', r, None) \<Longrightarrow> state_of e' = Inr (rs_state r) \<and> e_over e'"
  "quit_real_time e = Inr (e', r, None) \<Longrightarrow> state_of e' = Inr (rs_state r) \<and> e_over e'"
  unfolding call_defs
  by (erule transact_reports, erule step_reports)+

subsection \<open>The shape of an answer\<close>

text \<open>\<open>answers cfg x out\<close>: no panic; the engine stays reachable and the answer is well formed; a
  refusal changes nothing; a success carries the result, and completes exactly if the game is over.\<close>

definition answers :: "config \<Rightarrow> executor \<Rightarrow> answer \<Rightarrow> bool" where
  "answers cfg x out \<longleftrightarrow>
     (case out of Inl _ \<Rightarrow> False
      | Inr (x', rp) \<Rightarrow> reachable cfg (xe_engine x') \<and> xe_cfg x' = xe_cfg x \<and>
          well_formed_outcome (oc_disp rp) (oc_err rp) \<and>
          (case oc_err rp of
             Some _ \<Rightarrow> x' = x \<and> oc_result rp = None
           | None \<Rightarrow> (\<exists>r. oc_result rp = Some r \<and> state_of (xe_engine x') = Inr (rs_state r)) \<and>
               (oc_disp rp = DispComplete \<longleftrightarrow> e_over (xe_engine x'))))"

lemma answers_turn_down:
  "reachable cfg (xe_engine x) \<Longrightarrow> d = DispReject \<or> d = DispFail \<Longrightarrow> answers cfg x (turn_down x d err)"
  by (auto simp: answers_def turn_down_def well_formed_outcome_def)

lemma answers_accept:
  "reachable cfg e \<Longrightarrow> state_of e = Inr (rs_state r) \<Longrightarrow> over = e_over e \<Longrightarrow> xe_engine x' = e \<Longrightarrow>
   xe_cfg x' = xe_cfg x \<Longrightarrow> answers cfg x (accept_result x' (disposition_of over) r)"
  by (auto simp: answers_def accept_result_def well_formed_outcome_def disposition_of_def)

lemma answers_call:
  assumes x: "reachable cfg (xe_engine x)" and call: "venue_call (xe_engine x) out"
    and ok: "\<And>e r. out = Inr (e, r, None) \<Longrightarrow> reachable cfg e \<Longrightarrow> answers cfg x (good e r)"
    and d: "d = DispReject \<or> d = DispFail"
  shows "answers cfg x (bindE out (\<lambda>(e, r, err).
    case err of Some er \<Rightarrow> turn_down (x\<lparr>xe_engine := e\<rparr>) d er | None \<Rightarrow> good e r))"
proof (rule venue_call_reaches [OF x call])
  fix e r err assume out: "out = Inr (e, r, err)" and e: "reachable cfg e"
  show ?thesis
  proof (cases err)
    case (Some er)
    then have "e = xe_engine x" using venue_call_error [of "xe_engine x" e r er] call out by simp
    then have "x\<lparr>xe_engine := e\<rparr> = x" by simp
    then show ?thesis using out Some answers_turn_down [OF x d] by simp
  qed (use out ok e in simp)
qed

lemma answers_finish:
  assumes x: "reachable cfg (xe_engine x)" and call: "venue_call (xe_engine x) out"
    and ok: "\<And>e r. out = Inr (e, r, None) \<Longrightarrow> state_of e = Inr (rs_state r) \<and> (expired \<longrightarrow> e_over e)"
  shows "answers cfg x (finish_system x expired out)"
  unfolding finish_system_def Let_def
  by (rule answers_call [OF x call]) (use ok state_over in \<open>auto intro!: answers_accept\<close>)

lemma informed_arrival_safe:
  assumes "reachable cfg (xe_engine x)" and "informed_arrival x p = Inl err"
  shows "\<not> is_panic err"
proof -
  have "known (xe_engine x) player_account" using reachable_good [OF assms(1)] wf_known by blast
  then obtain st where "state_of (xe_engine x) = Inr st"
    by (auto simp: state_of_def get_account_def fmlookup_dom_iff)
  then show ?thesis
    using assms(2)
    by (auto simp: informed_arrival_def Let_def orFail_def guardE_def fails_def split: if_splits sum.splits)
qed

lemma answers_system:
  assumes x: "reachable cfg (xe_engine x)"
  shows "answers cfg x (execute_system x a)"
proof -
  note down = answers_turn_down [OF x, of DispFail]
  have calls: "answers cfg x (finish_system x False (apply_mark_move (xe_engine x) m))"
    "answers cfg x (finish_system x False (apply_carry (xe_engine x) rate))"
    "answers cfg x (finish_system x True (expire_trading_day (xe_engine x)))" for m rate
    by (rule answers_finish [OF x], rule venue_call.intros, auto dest: call_reports)+
  have "answers cfg x (case informed_arrival x p of
      Inl err \<Rightarrow> if is_panic err then Inl err else turn_down x DispFail err
    | Inr ca \<Rightarrow> finish_system x False (apply_customer_arrival (xe_engine x) ca))" for p
    using informed_arrival_safe [OF x, of p]
    by (cases "informed_arrival x p")
      (auto intro!: down answers_finish [OF x venue_call.arrival] dest: call_reports(2))
  then show ?thesis
    using calls by (simp add: execute_system_def Let_def down split: payload.split)
qed

lemma answers_participant:
  assumes x: "reachable cfg (xe_engine x)"
  shows "answers cfg x (execute_participant x a)"
proof -
  note down = answers_turn_down [OF x, of DispReject]
  have quit: "answers cfg x (bindE (quit_real_time (xe_engine x)) (\<lambda>(e, r, err).
      case err of Some er \<Rightarrow> turn_down (x\<lparr>xe_engine := e\<rparr>) DispReject er
      | None \<Rightarrow> accept_result (x\<lparr>xe_engine := e\<rparr>) DispComplete r))"
    by (rule answers_call [OF x venue_call.quit_real_time])
      (auto dest: call_reports(6) simp: answers_def accept_result_def well_formed_outcome_def)
  have quote: "answers cfg x (bindE (update_quote (xe_engine x) bid ask q) (\<lambda>(e, r, err).
      case err of Some er \<Rightarrow> turn_down (x\<lparr>xe_engine := e\<rparr>) DispReject er
      | None \<Rightarrow> accept_result (x\<lparr>xe_engine := e, xe_revision := xe_revision x + 1\<rparr>)
          (disposition_of (st_over (rs_state r))) r))" for bid ask q
    by (rule answers_call [OF x venue_call.quote])
      (auto dest: call_reports(1) intro!: answers_accept state_over)
  show ?thesis
    using quit quote by (simp add: execute_participant_def Let_def down split: payload.split)
qed

lemma answers_action: "reachable cfg (xe_engine x) \<Longrightarrow> answers cfg x (execute_action x a)"
  by (simp add: execute_action_def answers_system answers_participant answers_turn_down)

end
