(* ===== verification/Generator.thy ===== *)
theory Generator
  imports Realtime_Action Rng Sha256 Game_Mode
begin

text \<open>
  The deterministic generator of a real-time session's schedule
  (\<^verbatim>\<open>internal/realtime/generator.go\<close>). Each kind of system action has at most one pending
  candidate; \<^verbatim>\<open>Next\<close> offers the earliest, \<^verbatim>\<open>Commit\<close> consumes it and draws its successor.
\<close>

subsection \<open>Configuration\<close>

record interval =
  iv_min :: duration
  iv_max :: duration

record gen_config =
  gc_version :: "32 word"
  gc_seed :: u64
  gc_duration :: duration
  gc_customer :: interval
  gc_mark :: interval
  gc_carry :: duration
  gc_max_qty :: qty
  gc_max_slip :: i64
  gc_min_move :: i64
  gc_max_move :: i64
  gc_customer_domain :: string
  gc_mark_domain :: string
  gc_informed_domain :: string

definition generator_version :: "32 word" where "generator_version = 1"
definition lifecycle_version :: "32 word" where "lifecycle_version = 1"
definition one_day :: duration where "one_day = 86400000000000"

definition validate_interval :: "string \<Rightarrow> interval \<Rightarrow> duration \<Rightarrow> unit res" where
  "validate_interval name iv d =
     (if iv_min iv \<le> 0 \<or> iv_min iv > iv_max iv \<or> iv_max iv > d
      then Inl (Errorf ''%s interval must be ordered and fit within duration'' [name]) else Inr ())"

definition validate_generator_config :: "gen_config \<Rightarrow> unit res" where
  "validate_generator_config c =
     guardE (gc_version c \<noteq> generator_version \<or> gc_seed c = 0 \<or> gc_duration c \<le> 0 \<or> gc_duration c > one_day)
       ''unsupported generator version or invalid seed or duration''
     (bindE (validate_interval ''customer'' (gc_customer c) (gc_duration c)) (\<lambda>_.
      bindE (validate_interval ''mark'' (gc_mark c) (gc_duration c)) (\<lambda>_.
      guardE (gc_carry c \<le> 0 \<or> gc_carry c > gc_duration c) ''carry cadence must fit within duration''
     (guardE (\<not> positive (gc_max_qty c) \<or> gc_max_slip c < 0 \<or> gc_max_slip c > 10000)
        ''invalid customer order limits''
     (guardE (gc_min_move c > gc_max_move c \<or> gc_min_move c \<le> -10000 \<or> gc_max_move c > 10000)
        ''invalid mark movement range''
     (guardE (gc_customer_domain c = '''' \<or> gc_mark_domain c = '''' \<or> gc_informed_domain c = '''' \<or>
              gc_customer_domain c = gc_mark_domain c \<or> gc_customer_domain c = gc_informed_domain c \<or>
              gc_mark_domain c = gc_informed_domain c)
        ''generator domains must be non-empty and distinct'' (Inr ()))))))) "

definition derive_stream_seed :: "u64 \<Rightarrow> string \<Rightarrow> u64" where
  "derive_stream_seed seed domain = get_uint64 (take 8 (sha256 (put_uint64 seed @ bytes_of domain)))"

subsection \<open>Streams\<close>

definition stream_next :: "u64 \<Rightarrow> u64 \<times> u64" where
  "stream_next s =
     (let s' = s + 0x9e3779b97f4a7c15;
          v1 = (s' XOR drop_bit 30 s') * 0xbf58476d1ce4e5b9;
          v2 = (v1 XOR drop_bit 27 v1) * 0x94d049bb133111eb
      in (v2 XOR drop_bit 31 v2, s'))"

text \<open>The stream is the engine's SplitMix64 again, so its rejection loop is the same loop.\<close>

lemma stream_next_eq: "stream_next s = split_next s"
  by (simp add: stream_next_def split_next_def mix64_def golden_def Let_def)

definition stream_bounded :: "u64 \<Rightarrow> u64 \<Rightarrow> (u64 \<times> u64) res" where
  "stream_bounded s bound =
     (if bound = 0 then panics ''integer divide by zero''
      else Inr (bounded_loop bound ((- bound) mod bound) s))"

lemma stream_bounded_loop:
  "bounded_loop bound threshold s =
     (let (v, s') = stream_next s in if v \<ge> threshold then (v mod bound, s') else bounded_loop bound threshold s')"
  by (subst bounded_loop.simps) (simp add: stream_next_eq)

definition draw_interval :: "u64 \<Rightarrow> interval \<Rightarrow> (duration \<times> u64) res" where
  "draw_interval s iv =
     bindE (stream_bounded s (bits (iv_max iv - iv_min iv + 1))) (\<lambda>(v, s'). Inr (iv_min iv + I64 v, s'))"

subsection \<open>State\<close>

record candidate =
  cd_due :: duration
  cd_seq :: u64
  cd_kind :: string
  cd_payload :: payload
  cd_id :: string

record generator =
  gn_cfg :: gen_config
  gn_customer :: u64
  gn_mark :: u64
  gn_informed :: u64
  gn_generated :: u64
  gn_committed :: u64
  gn_last_customer :: duration
  gn_last_mark :: duration
  gn_last_carry :: duration
  gn_candidates :: "(string, candidate) fmap"

definition candidate_id :: "string \<Rightarrow> u64 \<Rightarrow> string" where
  "candidate_id kind n = system_prefix @ kind @ ''/'' @ show_dec (uint n)"

definition add_candidate :: "generator \<Rightarrow> duration \<Rightarrow> string \<Rightarrow> payload \<Rightarrow> generator" where
  "add_candidate g due kind p =
     (let n = gn_generated g + 1 in
      g\<lparr>gn_generated := n,
        gn_candidates := fmupd kind
          \<lparr>cd_due = due, cd_seq = n, cd_kind = kind, cd_payload = p, cd_id = candidate_id kind n\<rparr>
          (gn_candidates g)\<rparr>)"

definition generate_customer :: "generator \<Rightarrow> generator res" where
  "generate_customer g =
     bindE (draw_interval (gn_customer g) (gc_customer (gn_cfg g))) (\<lambda>(d, s1).
     let due = gn_last_customer g + d; g1 = g\<lparr>gn_customer := s1\<rparr> in
     if due \<ge> gc_duration (gn_cfg g) then Inr g1
     else
       bindE (stream_bounded s1 2) (\<lambda>(buy, s2).
       bindE (stream_bounded s2 (bits (gc_max_qty (gn_cfg g)))) (\<lambda>(q, s3).
       bindE (stream_bounded s3 (bits (gc_max_slip (gn_cfg g) + 1))) (\<lambda>(slip, s4).
       bindE (stream_bounded (gn_informed g1) 10000) (\<lambda>(draw, i1).
       Inr (add_candidate (g1\<lparr>gn_customer := s4, gn_informed := i1\<rparr>) due action_arrival
         (CustomerArrival \<lparr>ap_buy = (buy = 0), ap_qty = I64 (1 + q), ap_slip = I64 slip, ap_draw = draw,
            ap_has_mark = False, ap_move = 0\<rparr>)))))))"

definition generate_mark :: "generator \<Rightarrow> generator res" where
  "generate_mark g =
     bindE (draw_interval (gn_mark g) (gc_mark (gn_cfg g))) (\<lambda>(d, s1).
     let due = gn_last_mark g + d; g1 = g\<lparr>gn_mark := s1\<rparr> in
     if due \<ge> gc_duration (gn_cfg g) then Inr g1
     else
       bindE (stream_bounded s1 (bits (gc_max_move (gn_cfg g) - gc_min_move (gn_cfg g) + 1))) (\<lambda>(v, s2).
       Inr (add_candidate (g1\<lparr>gn_mark := s2\<rparr>) due action_mark_move
         (MarkMove (gc_min_move (gn_cfg g) + I64 v)))))"

definition generate_carry :: "generator \<Rightarrow> generator" where
  "generate_carry g =
     (let due = gn_last_carry g + gc_carry (gn_cfg g) in
      if due \<ge> gc_duration (gn_cfg g) then g else add_candidate g due action_carry NoPayload)"

definition new_generator :: "gen_config \<Rightarrow> generator res" where
  "new_generator c =
     bindE (validate_generator_config c) (\<lambda>_.
     bindE (generate_customer
       \<lparr>gn_cfg = c, gn_customer = derive_stream_seed (gc_seed c) (gc_customer_domain c),
        gn_mark = derive_stream_seed (gc_seed c) (gc_mark_domain c),
        gn_informed = derive_stream_seed (gc_seed c) (gc_informed_domain c),
        gn_generated = 0, gn_committed = 0, gn_last_customer = 0, gn_last_mark = 0, gn_last_carry = 0,
        gn_candidates = fmempty\<rparr>) (\<lambda>g1.
     bindE (generate_mark g1) (\<lambda>g2.
     Inr (add_candidate (generate_carry g2) (gc_duration c) action_expired NoPayload))))"

subsection \<open>Next and Commit\<close>

definition earlier :: "candidate \<Rightarrow> candidate \<Rightarrow> bool" where
  "earlier c d \<longleftrightarrow> cd_due c < cd_due d \<or> cd_due c = cd_due d \<and> cd_seq c < cd_seq d"

definition best_of :: "candidate option \<Rightarrow> candidate \<Rightarrow> candidate option" where
  "best_of best c = (case best of None \<Rightarrow> Some c | Some b \<Rightarrow> if earlier c b then Some c else Some b)"

definition next_candidate :: "generator \<Rightarrow> candidate option" where
  "next_candidate g = foldl best_of None (fm_values (gn_candidates g))"

text \<open>A customer arrival is offered together with the mark move that is pending at that moment.\<close>

definition offered_payload :: "generator \<Rightarrow> candidate \<Rightarrow> payload res" where
  "offered_payload g c =
     (if cd_kind c = action_arrival
      then (case cd_payload c of
          CustomerArrival p \<Rightarrow>
            (case fmlookup (gn_candidates g) action_mark_move of
               None \<Rightarrow> Inr (CustomerArrival p)
             | Some m \<Rightarrow> (case cd_payload m of
                 MarkMove move \<Rightarrow> Inr (CustomerArrival (p\<lparr>ap_has_mark := True, ap_move := move\<rparr>))
               | _ \<Rightarrow> panics ''interface conversion''))
        | _ \<Rightarrow> panics ''interface conversion'')
      else Inr (cd_payload c))"

definition generator_next :: "generator \<Rightarrow> scheduled_action option res" where
  "generator_next g =
     (case next_candidate g of
        None \<Rightarrow> Inr None
      | Some c \<Rightarrow> bindE (offered_payload g c) (\<lambda>p.
          Inr (Some \<lparr>sa_due = cd_due c,
            sa_action = \<lparr>an_id = cd_id c, an_kind = cd_kind c, an_source = SystemSource, an_payload = p\<rparr>\<rparr>)))"

definition generator_commit :: "generator \<Rightarrow> scheduled_action \<Rightarrow> generator res" where
  "generator_commit g a =
     bindE (generator_next g) (\<lambda>next.
     case next_candidate g of
       None \<Rightarrow> fails ''committed action does not match generator head''
     | Some c \<Rightarrow>
       guardE (next \<noteq> Some a) ''committed action does not match generator head''
      (guardE (cd_kind c \<notin> {action_arrival, action_mark_move, action_carry, action_expired})
         ''generator contains unknown action kind''
      (let g1 = g\<lparr>gn_candidates := fmdrop (cd_kind c) (gn_candidates g),
                  gn_committed := gn_committed g + 1\<rparr>
       in if cd_kind c = action_arrival then generate_customer (g1\<lparr>gn_last_customer := cd_due c\<rparr>)
          else if cd_kind c = action_mark_move then generate_mark (g1\<lparr>gn_last_mark := cd_due c\<rparr>)
          else if cd_kind c = action_carry then Inr (generate_carry (g1\<lparr>gn_last_carry := cd_due c\<rparr>))
          else Inr g1)))"

record generator_snapshot =
  gs_generated :: u64
  gs_committed :: u64

definition snapshot_generator :: "generator \<Rightarrow> generator_snapshot" where
  "snapshot_generator g = \<lparr>gs_generated = gn_generated g, gs_committed = gn_committed g\<rparr>"

end
