(* ===== verification/Generator_Inv.thy ===== *)
theory Generator_Inv
  imports Generator Steps
begin

text \<open>
  The generator's invariant: every pending candidate lies within its cadence and the session's
  duration and carries a payload within the configured limits; numbers are unique and never wrap;
  the expiry is pending until it is committed, after which nothing is.
\<close>

subsection \<open>Draws\<close>

lemma gives_stream: "b \<noteq> 0 \<Longrightarrow> gives (\<lambda>r. fst r < b) (stream_bounded s b)"
  using bounded_loop_range [of b "(- b) mod b" s] by (simp add: stream_bounded_def)

lemma gen_configD:
  assumes "validate_generator_config c = Inr ()"
  shows "0 < ival (gc_duration c)" "ival (gc_duration c) \<le> 86400000000000"
    "0 < ival (iv_min (gc_customer c))" "ival (iv_min (gc_customer c)) \<le> ival (iv_max (gc_customer c))"
    "ival (iv_max (gc_customer c)) \<le> ival (gc_duration c)"
    "0 < ival (iv_min (gc_mark c))" "ival (iv_min (gc_mark c)) \<le> ival (iv_max (gc_mark c))"
    "ival (iv_max (gc_mark c)) \<le> ival (gc_duration c)"
    "0 < ival (gc_carry c)" "ival (gc_carry c) \<le> ival (gc_duration c)"
    "0 < ival (gc_max_qty c)" "0 \<le> ival (gc_max_slip c)" "ival (gc_max_slip c) \<le> 10000"
    "ival (gc_min_move c) \<le> ival (gc_max_move c)" "- 10000 < ival (gc_min_move c)"
    "ival (gc_max_move c) \<le> 10000"
  using assms unfolding validate_generator_config_def validate_interval_def one_day_def
  by (auto simp: positive_def i64_order not_le not_less split: if_splits)

lemma positive_bits': "0 < ival n \<Longrightarrow> bits n \<noteq> 0"
  by (auto simp: ival_def)

lemma below_bits:
  assumes "0 < ival n" and "v < bits n"
  shows "0 \<le> ival (I64 v)" "ival (I64 v) < ival n"
proof -
  have "int (unat (bits n)) = ival n"
    using assms(1) ival_range(2) [of n] uint_bits [of n] by simp
  then have "int (unat v) < ival n" using assms(2) unfolding word_less_nat_alt by linarith
  moreover from this have "ival (I64 v) = int (unat v)"
    using ival_range(2) [of n] by (intro ival_I64_small) linarith
  ultimately show "0 \<le> ival (I64 v)" "ival (I64 v) < ival n" by simp_all
qed

lemma gives_interval:
  assumes "0 < ival (iv_min iv)" "ival (iv_min iv) \<le> ival (iv_max iv)" "ival (iv_max iv) \<le> 86400000000000"
  shows "gives (\<lambda>r. ival (iv_min iv) \<le> ival (fst r) \<and> ival (fst r) \<le> ival (iv_max iv)) (draw_interval s iv)"
proof -
  have d: "ival (iv_max iv - iv_min iv) = ival (iv_max iv) - ival (iv_min iv)"
    using assms by (intro ival_sub) (simp add: fits_def)
  then have width: "ival (iv_max iv - iv_min iv + 1) = ival (iv_max iv) - ival (iv_min iv) + 1"
    using assms by (subst ival_add) (auto simp: fits_def)
  then have pos: "0 < ival (iv_max iv - iv_min iv + 1)" using assms by simp
  have "ival (iv_min iv) \<le> ival (iv_min iv + I64 v) \<and> ival (iv_min iv + I64 v) \<le> ival (iv_max iv)"
    if "v < bits (iv_max iv - iv_min iv + 1)" for v
    using below_bits [OF pos that] width assms by (subst (1 2) ival_add) (auto simp: fits_def)
  then show ?thesis
    unfolding draw_interval_def case_prod_beta
    by (auto intro!: gives_bind [OF gives_stream [OF positive_bits' [OF pos]]])
qed

subsection \<open>The invariant\<close>

definition offer_ok :: "gen_config \<Rightarrow> string \<Rightarrow> payload \<Rightarrow> bool" where
  "offer_ok c kind p \<longleftrightarrow>
     (case p of
        CustomerArrival a \<Rightarrow> kind = action_arrival \<and>
          1 \<le> ival (ap_qty a) \<and> ival (ap_qty a) \<le> ival (gc_max_qty c) \<and>
          0 \<le> ival (ap_slip a) \<and> ival (ap_slip a) \<le> ival (gc_max_slip c) \<and> ap_draw a < 10000 \<and>
          \<not> ap_has_mark a \<and> ap_move a = 0
      | MarkMove m \<Rightarrow> kind = action_mark_move \<and>
          ival (gc_min_move c) \<le> ival m \<and> ival m \<le> ival (gc_max_move c)
      | NoPayload \<Rightarrow> kind = action_carry \<or> kind = action_expired
      | _ \<Rightarrow> False)"

definition due_ok :: "generator \<Rightarrow> string \<Rightarrow> duration \<Rightarrow> bool" where
  "due_ok g kind due \<longleftrightarrow>
     (let d = ival due; D = ival (gc_duration (gn_cfg g)) in
      if kind = action_arrival
      then ival (gn_last_customer g) + ival (iv_min (gc_customer (gn_cfg g))) \<le> d \<and>
           d \<le> ival (gn_last_customer g) + ival (iv_max (gc_customer (gn_cfg g))) \<and> d < D
      else if kind = action_mark_move
      then ival (gn_last_mark g) + ival (iv_min (gc_mark (gn_cfg g))) \<le> d \<and>
           d \<le> ival (gn_last_mark g) + ival (iv_max (gc_mark (gn_cfg g))) \<and> d < D
      else if kind = action_carry
      then d = ival (gn_last_carry g) + ival (gc_carry (gn_cfg g)) \<and> d < D
      else kind = action_expired \<and> d = D)"

definition lasts :: "generator \<Rightarrow> int" where
  "lasts g = ival (gn_last_customer g) + ival (gn_last_mark g) + ival (gn_last_carry g)"

definition gen_core :: "int \<Rightarrow> generator \<Rightarrow> bool" where
  "gen_core n g \<longleftrightarrow> validate_generator_config (gn_cfg g) = Inr () \<and>
     list_all (\<lambda>t. 0 \<le> ival t \<and> ival t < ival (gc_duration (gn_cfg g)))
       [gn_last_customer g, gn_last_mark g, gn_last_carry g] \<and>
     uint (gn_generated g) + n \<le> 4 + lasts g \<and>
     (\<forall>k c. fmlookup (gn_candidates g) k = Some c \<longrightarrow> cd_kind c = k \<and> due_ok g k (cd_due c) \<and>
        offer_ok (gn_cfg g) k (cd_payload c) \<and> cd_id c = candidate_id k (cd_seq c) \<and>
        cd_seq c \<le> gn_generated g) \<and>
     (\<forall>k k' c c'. fmlookup (gn_candidates g) k = Some c \<longrightarrow> fmlookup (gn_candidates g) k' = Some c' \<longrightarrow>
        cd_seq c = cd_seq c' \<longrightarrow> k = k')"

definition gen_inv :: "generator \<Rightarrow> bool" where
  "gen_inv g \<longleftrightarrow> gen_core 0 g \<and>
     (action_expired |\<notin>| fmdom (gn_candidates g) \<longrightarrow> gn_candidates g = fmempty)"

lemma gen_coreD:
  assumes "gen_core n g"
  shows "validate_generator_config (gn_cfg g) = Inr ()"
    "0 \<le> ival (gn_last_customer g)" "ival (gn_last_customer g) < ival (gc_duration (gn_cfg g))"
    "0 \<le> ival (gn_last_mark g)" "ival (gn_last_mark g) < ival (gc_duration (gn_cfg g))"
    "0 \<le> ival (gn_last_carry g)" "ival (gn_last_carry g) < ival (gc_duration (gn_cfg g))"
    "uint (gn_generated g) + n \<le> 4 + lasts g"
  using assms by (simp_all add: gen_core_def)

lemma gen_core_candidate:
  assumes "gen_core n g" and "fmlookup (gn_candidates g) k = Some c"
  shows "cd_kind c = k" "due_ok g k (cd_due c)" "offer_ok (gn_cfg g) k (cd_payload c)"
    "cd_id c = candidate_id k (cd_seq c)" "cd_seq c \<le> gn_generated g"
  using assms unfolding gen_core_def by blast+

text \<open>Adding a candidate of a kind that is not pending.\<close>

lemma generated_succ:
  assumes "gen_core n g" and "1 \<le> n"
  shows "uint (gn_generated g + 1) = uint (gn_generated g) + 1"
proof -
  have "uint (gn_generated g) < 4 + lasts g" using gen_coreD(8) [OF assms(1)] assms(2) by linarith
  also have "\<dots> < 2 ^ 60"
    using gen_coreD(3,5,7) [OF assms(1)] gen_configD(2) [OF gen_coreD(1) [OF assms(1)]] by (simp add: lasts_def)
  finally show ?thesis by (simp add: uint_word_ariths)
qed

lemma core_add:
  assumes core: "gen_core n g" and n: "1 \<le> n" and fresh: "fmlookup (gn_candidates g) kind = None"
    and due: "due_ok g kind due" and offer: "offer_ok (gn_cfg g) kind p"
  shows "gen_core (n - 1) (add_candidate g due kind p)"
proof -
  note succ = generated_succ [OF core n]
  have less: "cd_seq c < gn_generated g + 1" if "fmlookup (gn_candidates g) k = Some c" for k c
    using gen_core_candidate(5) [OF core that] succ by (simp add: word_le_def word_less_def)
  have same: "due_ok (add_candidate g due kind p) k d = due_ok g k d" for k d
    by (simp add: due_ok_def add_candidate_def Let_def)
  have old: "cd_kind c = k \<and> due_ok g k (cd_due c) \<and> offer_ok (gn_cfg g) k (cd_payload c) \<and>
      cd_id c = candidate_id k (cd_seq c) \<and> cd_seq c \<le> gn_generated g + 1"
    if "fmlookup (gn_candidates g) k = Some c" for k c
    using gen_core_candidate [OF core that] less [OF that] by simp
  have uniq: "k = k'" if "fmlookup (gn_candidates g) k = Some c" "fmlookup (gn_candidates g) k' = Some c'"
    "cd_seq c = cd_seq c'" for k k' c c'
    using core that unfolding gen_core_def by blast
  show ?thesis
    unfolding gen_core_def same
  proof (intro conjI allI impI)
    show "validate_generator_config (gn_cfg (add_candidate g due kind p)) = Inr ()"
      "uint (gn_generated (add_candidate g due kind p)) + (n - 1) \<le> 4 + lasts (add_candidate g due kind p)"
      using gen_coreD [OF core] succ by (simp_all add: add_candidate_def Let_def lasts_def)
    show "list_all (\<lambda>t. 0 \<le> ival t \<and> ival t < ival (gc_duration (gn_cfg (add_candidate g due kind p))))
       [gn_last_customer (add_candidate g due kind p), gn_last_mark (add_candidate g due kind p),
        gn_last_carry (add_candidate g due kind p)]"
      using gen_coreD [OF core] by (simp add: add_candidate_def Let_def)
  next
    fix k c assume "fmlookup (gn_candidates (add_candidate g due kind p)) k = Some c"
    then show "cd_kind c = k" "due_ok g k (cd_due c)"
      "offer_ok (gn_cfg (add_candidate g due kind p)) k (cd_payload c)" "cd_id c = candidate_id k (cd_seq c)"
      "cd_seq c \<le> gn_generated (add_candidate g due kind p)"
      using old [of k c] due offer by (auto simp: add_candidate_def Let_def split: if_splits)
  next
    fix k k' c c'
    assume "fmlookup (gn_candidates (add_candidate g due kind p)) k = Some c"
      "fmlookup (gn_candidates (add_candidate g due kind p)) k' = Some c'" "cd_seq c = cd_seq c'"
    then show "k = k'"
      using less [of k c] less [of k' c'] uniq [of k c k' c'] by (auto simp: add_candidate_def Let_def split: if_splits)
  qed
qed

subsection \<open>Generation\<close>

text \<open>\<open>grown kind t g g'\<close>: only the candidate of \<open>kind\<close> may have changed, and it is due after \<open>t\<close>.\<close>

definition grown :: "string \<Rightarrow> int \<Rightarrow> generator \<Rightarrow> generator \<Rightarrow> bool" where
  "grown kind t g g' \<longleftrightarrow> gn_cfg g' = gn_cfg g \<and> gn_committed g' = gn_committed g \<and>
     gn_last_customer g' = gn_last_customer g \<and> gn_last_mark g' = gn_last_mark g \<and>
     gn_last_carry g' = gn_last_carry g \<and> gn_generated g \<le> gn_generated g' \<and>
     (\<forall>k. k \<noteq> kind \<longrightarrow> fmlookup (gn_candidates g') k = fmlookup (gn_candidates g) k) \<and>
     (\<forall>c. fmlookup (gn_candidates g') kind = Some c \<longrightarrow> t < ival (cd_due c) \<and> gn_generated g < cd_seq c)"

lemma core_stream [simp]:
  "gen_core n (g\<lparr>gn_customer := s\<rparr>) = gen_core n g" "gen_core n (g\<lparr>gn_mark := s\<rparr>) = gen_core n g"
  "gen_core n (g\<lparr>gn_informed := s\<rparr>) = gen_core n g"
  by (simp_all add: gen_core_def due_ok_def lasts_def)

lemma core_weaken: "gen_core n g \<Longrightarrow> m \<le> n \<Longrightarrow> gen_core m g"
  by (auto simp: gen_core_def)

lemma due_sum:
  assumes "0 \<le> ival a" "ival a \<le> 86400000000000" "0 < ival b" "ival b \<le> 86400000000000"
  shows "ival (a + b) = ival a + ival b"
  using assms by (intro ival_add) (simp add: fits_def)

lemma one_plus_draw:
  assumes "0 < ival n" "v < bits n"
  shows "1 \<le> ival (I64 (1 + v))" "ival (I64 (1 + v)) \<le> ival n"
proof -
  have e: "I64 (1 + v) = 1 + I64 v" by (simp add: plus_i64_def)
  have "ival (1 + I64 v) = 1 + ival (I64 v)"
    using below_bits [OF assms] ival_range(2) [of n] by (subst ival_add) (auto simp: fits_def)
  then show "1 \<le> ival (I64 (1 + v))" "ival (I64 (1 + v)) \<le> ival n"
    using below_bits [OF assms] unfolding e by simp_all
qed

lemma kinds_distinct [simp]:
  "action_arrival \<noteq> action_mark_move" "action_arrival \<noteq> action_carry" "action_arrival \<noteq> action_expired"
  "action_mark_move \<noteq> action_arrival" "action_mark_move \<noteq> action_carry" "action_mark_move \<noteq> action_expired"
  "action_carry \<noteq> action_arrival" "action_carry \<noteq> action_mark_move" "action_carry \<noteq> action_expired"
  "action_expired \<noteq> action_arrival" "action_expired \<noteq> action_mark_move" "action_expired \<noteq> action_carry"
  by (simp_all add: action_kinds)

lemma grown_add:
  assumes "gen_core n g" "1 \<le> n" "t < ival due"
  shows "grown kind t g (add_candidate g due kind p)"
proof -
  have "gn_generated g < gn_generated g + 1"
    using generated_succ [OF assms(1,2)] by (simp add: word_less_def)
  then show ?thesis using assms(3) by (simp add: grown_def add_candidate_def Let_def)
qed

lemma core_customer:
  assumes core: "gen_core n g" and n: "1 \<le> n" and fresh: "fmlookup (gn_candidates g) action_arrival = None"
  shows "gives (\<lambda>g'. gen_core (n - 1) g' \<and> grown action_arrival (ival (gn_last_customer g)) g g') (generate_customer g)"
proof -
  let ?c = "gn_cfg g"
  note cfg = gen_configD [OF gen_coreD(1) [OF core]] and b = gen_coreD(2-7) [OF core]
  have slip: "ival (gc_max_slip ?c + 1) = ival (gc_max_slip ?c) + 1"
    using cfg by (subst ival_add) (auto simp: fits_def)
  have nz: "bits (gc_max_qty ?c) \<noteq> 0" "bits (gc_max_slip ?c + 1) \<noteq> 0"
    using cfg slip by (auto intro!: positive_bits')
  note draw = gives_interval [of "gc_customer ?c" "gn_customer g"]
  show ?thesis
    unfolding generate_customer_def case_prod_beta Let_def
  proof (rule gives_bind [OF draw])
    fix r :: "i64 \<times> u64"
    assume r: "ival (iv_min (gc_customer ?c)) \<le> ival (fst r) \<and> ival (fst r) \<le> ival (iv_max (gc_customer ?c))"
    let ?due = "gn_last_customer g + fst r"
    have due: "ival ?due = ival (gn_last_customer g) + ival (fst r)"
      using r cfg b by (intro due_sum) linarith+
    have ok: "gen_core (n - 1) (add_candidate g1 ?due action_arrival (CustomerArrival p)) \<and>
        grown action_arrival (ival (gn_last_customer g)) g (add_candidate g1 ?due action_arrival (CustomerArrival p))"
      if "\<not> gc_duration ?c \<le> ?due" and g1: "g1 = g\<lparr>gn_customer := s, gn_informed := i\<rparr>"
        and p: "offer_ok ?c action_arrival (CustomerArrival p)" for g1 s i p
    proof
      have "due_ok g1 action_arrival ?due"
        using that(1) r due by (simp add: g1 due_ok_def Let_def i64_order)
      then show "gen_core (n - 1) (add_candidate g1 ?due action_arrival (CustomerArrival p))"
        using core n fresh p by (intro core_add) (simp_all add: g1)
      show "grown action_arrival (ival (gn_last_customer g)) g (add_candidate g1 ?due action_arrival (CustomerArrival p))"
        using grown_add [of n g1 "ival (gn_last_customer g)" ?due action_arrival] core n r due cfg(3)
        by (simp add: grown_def g1)
    qed
    have offer: "offer_ok ?c action_arrival (CustomerArrival \<lparr>ap_buy = x, ap_qty = I64 (1 + q), ap_slip = I64 s,
        ap_draw = d, ap_has_mark = False, ap_move = 0\<rparr>)"
      if "q < bits (gc_max_qty ?c)" "s < bits (gc_max_slip ?c + 1)" "d < 10000" for x q s d
      using one_plus_draw [OF cfg(11) that(1)] below_bits [OF _ that(2)] slip cfg that(3)
      by (simp add: offer_ok_def)
    show "gives (\<lambda>g'. gen_core (n - 1) g' \<and> grown action_arrival (ival (gn_last_customer g)) g g')
      (if gc_duration ?c \<le> ?due then Inr (g\<lparr>gn_customer := snd r\<rparr>)
       else bindE (stream_bounded (snd r) 2) (\<lambda>p.
            bindE (stream_bounded (snd p) (bits (gc_max_qty ?c))) (\<lambda>pa.
            bindE (stream_bounded (snd pa) (bits (gc_max_slip ?c + 1))) (\<lambda>pb.
            bindE (stream_bounded (gn_informed (g\<lparr>gn_customer := snd r\<rparr>)) 10000) (\<lambda>pc.
            Inr (add_candidate (g\<lparr>gn_customer := snd r, gn_customer := snd pb, gn_informed := snd pc\<rparr>) ?due
              action_arrival
              (CustomerArrival \<lparr>ap_buy = fst p = 0, ap_qty = I64 (1 + fst pa), ap_slip = I64 (fst pb),
                 ap_draw = fst pc, ap_has_mark = False, ap_move = 0\<rparr>)))))))"
    proof (cases "gc_duration ?c \<le> ?due")
      case True
      then show ?thesis using core fresh by (simp add: core_weaken grown_def)
    next
      case False
      show ?thesis
        unfolding if_not_P [OF False]
        by (rule gives_bind [OF gives_stream], simp, rule gives_bind [OF gives_stream [OF nz(1)]],
            rule gives_bind [OF gives_stream [OF nz(2)]], rule gives_bind [OF gives_stream], simp)
          (auto intro!: ok [OF False] offer)
    qed
  qed (use cfg in auto)
qed

lemma core_mark:
  assumes core: "gen_core n g" and n: "1 \<le> n" and fresh: "fmlookup (gn_candidates g) action_mark_move = None"
  shows "gives (\<lambda>g'. gen_core (n - 1) g' \<and> grown action_mark_move (ival (gn_last_mark g)) g g') (generate_mark g)"
proof -
  let ?c = "gn_cfg g"
  note cfg = gen_configD [OF gen_coreD(1) [OF core]] and b = gen_coreD(2-7) [OF core]
  have "ival (gc_max_move ?c - gc_min_move ?c) = ival (gc_max_move ?c) - ival (gc_min_move ?c)"
    using cfg by (intro ival_sub) (simp add: fits_def)
  then have width: "ival (gc_max_move ?c - gc_min_move ?c + 1) = ival (gc_max_move ?c) - ival (gc_min_move ?c) + 1"
    using cfg by (subst ival_add) (auto simp: fits_def)
  then have pos: "0 < ival (gc_max_move ?c - gc_min_move ?c + 1)" using cfg by simp
  have move: "ival (gc_min_move ?c) \<le> ival (gc_min_move ?c + I64 v) \<and> ival (gc_min_move ?c + I64 v) \<le> ival (gc_max_move ?c)"
    if "v < bits (gc_max_move ?c - gc_min_move ?c + 1)" for v
    using below_bits [OF pos that] width cfg by (subst (1 2) ival_add) (auto simp: fits_def)
  note draw = gives_interval [of "gc_mark ?c" "gn_mark g"]
  show ?thesis
    unfolding generate_mark_def case_prod_beta Let_def
  proof (rule gives_bind [OF draw])
    fix r :: "i64 \<times> u64"
    assume r: "ival (iv_min (gc_mark ?c)) \<le> ival (fst r) \<and> ival (fst r) \<le> ival (iv_max (gc_mark ?c))"
    let ?due = "gn_last_mark g + fst r"
    have due: "ival ?due = ival (gn_last_mark g) + ival (fst r)"
      using r cfg b by (intro due_sum) linarith+
    have ok: "gen_core (n - 1) (add_candidate (g\<lparr>gn_mark := s\<rparr>) ?due action_mark_move (MarkMove m)) \<and>
        grown action_mark_move (ival (gn_last_mark g)) g (add_candidate (g\<lparr>gn_mark := s\<rparr>) ?due action_mark_move (MarkMove m))"
      if "\<not> gc_duration ?c \<le> ?due" "ival (gc_min_move ?c) \<le> ival m" "ival m \<le> ival (gc_max_move ?c)" for s m
    proof
      have "due_ok (g\<lparr>gn_mark := s\<rparr>) action_mark_move ?due"
        using that(1) r due by (simp add: due_ok_def Let_def i64_order)
      then show "gen_core (n - 1) (add_candidate (g\<lparr>gn_mark := s\<rparr>) ?due action_mark_move (MarkMove m))"
        using core n fresh that(2,3) by (intro core_add) (simp_all add: offer_ok_def)
      show "grown action_mark_move (ival (gn_last_mark g)) g (add_candidate (g\<lparr>gn_mark := s\<rparr>) ?due action_mark_move (MarkMove m))"
        using grown_add [of n "g\<lparr>gn_mark := s\<rparr>" "ival (gn_last_mark g)" ?due action_mark_move] core n r due cfg(6)
        by (simp add: grown_def)
    qed
    show "gives (\<lambda>g'. gen_core (n - 1) g' \<and> grown action_mark_move (ival (gn_last_mark g)) g g')
      (if gc_duration ?c \<le> ?due then Inr (g\<lparr>gn_mark := snd r\<rparr>)
       else bindE (stream_bounded (snd r) (bits (gc_max_move ?c - gc_min_move ?c + 1))) (\<lambda>p.
         Inr (add_candidate (g\<lparr>gn_mark := snd r, gn_mark := snd p\<rparr>) ?due action_mark_move
           (MarkMove (gc_min_move ?c + I64 (fst p))))))"
    proof (cases "gc_duration ?c \<le> ?due")
      case True
      then show ?thesis using core fresh by (simp add: core_weaken grown_def)
    next
      case False
      show ?thesis
        unfolding if_not_P [OF False]
        by (rule gives_bind [OF gives_stream [OF positive_bits' [OF pos]]]) (simp add: ok [OF False] move)
    qed
  qed (use cfg in auto)
qed

lemma core_carry:
  assumes core: "gen_core n g" and n: "1 \<le> n" and fresh: "fmlookup (gn_candidates g) action_carry = None"
  shows "gen_core (n - 1) (generate_carry g)" "grown action_carry (ival (gn_last_carry g)) g (generate_carry g)"
proof -
  let ?c = "gn_cfg g" and ?due = "gn_last_carry g + gc_carry (gn_cfg g)"
  note cfg = gen_configD [OF gen_coreD(1) [OF core]] and b = gen_coreD(2-7) [OF core]
  have due: "ival ?due = ival (gn_last_carry g) + ival (gc_carry ?c)"
    using cfg b by (intro due_sum) linarith+
  show "gen_core (n - 1) (generate_carry g)"
    using core_weaken [OF core, of "n - 1"] due n
    by (auto simp: generate_carry_def Let_def due_ok_def offer_ok_def i64_order intro!: core_add [OF core n fresh])
  show "grown action_carry (ival (gn_last_carry g)) g (generate_carry g)"
    using due cfg(9) fresh by (auto simp: generate_carry_def Let_def intro!: grown_add [OF core n]) (simp add: grown_def)
qed

subsection \<open>The head\<close>

text \<open>\<^verbatim>\<open>nextCandidate\<close> finds the least candidate in whatever order the map is walked.\<close>

lemma earlier_trans: "earlier a b \<Longrightarrow> earlier b c \<Longrightarrow> earlier a c"
  by (auto simp: earlier_def)

lemma not_earlier_trans: "\<not> earlier a b \<Longrightarrow> \<not> earlier b c \<Longrightarrow> \<not> earlier a c"
  by (auto simp: earlier_def)

lemma earlier_irrefl [simp]: "\<not> earlier c c"
  by (simp add: earlier_def)

lemma best_least:
  assumes "foldl best_of b cs = Some c"
  shows "(c \<in> set cs \<or> b = Some c) \<and> (\<forall>d \<in> set cs. \<not> earlier d c) \<and> (\<forall>d. b = Some d \<longrightarrow> \<not> earlier d c)"
  using assms
proof (induction cs arbitrary: b)
  case (Cons x cs)
  have rest: "foldl best_of (best_of b x) cs = Some c" using Cons.prems by simp
  note IH = Cons.IH [OF rest]
  show ?case
  proof (cases b)
    case None
    then show ?thesis using IH by (auto simp: best_of_def)
  next
    case b: (Some y)
    show ?thesis
    proof (cases "earlier x y")
      case True
      then show ?thesis using IH b earlier_trans [OF True, of c] by (auto simp: best_of_def)
    next
      case False
      then show ?thesis using IH b not_earlier_trans [OF False, of c] by (auto simp: best_of_def)
    qed
  qed
qed simp

lemma best_none: "foldl best_of b cs = None \<longleftrightarrow> b = None \<and> cs = []"
proof (induction cs arbitrary: b)
  case (Cons x cs)
  then show ?case by (cases b) (simp_all add: best_of_def)
qed simp

lemma next_candidate_None: "next_candidate g = None \<longleftrightarrow> gn_candidates g = fmempty"
proof
  assume "next_candidate g = None"
  then have "set (fm_values (gn_candidates g)) = {}" by (simp add: next_candidate_def best_none)
  then have "fmlookup (gn_candidates g) k = None" for k
    by (cases "fmlookup (gn_candidates g) k") (auto dest: fmran'I)
  then show "gn_candidates g = fmempty" by (intro fmap_ext) simp
qed (simp add: next_candidate_def)

lemma next_candidate_Some:
  assumes "next_candidate g = Some c"
  shows "\<exists>k. fmlookup (gn_candidates g) k = Some c"
    and "fmlookup (gn_candidates g) k = Some d \<Longrightarrow> \<not> earlier d c"
  using best_least [OF assms [unfolded next_candidate_def]]
  by (auto simp: fmlookup_ran'_iff)

text \<open>What \<^verbatim>\<open>Next\<close> offers.\<close>

definition offers :: "generator \<Rightarrow> candidate \<Rightarrow> scheduled_action \<Rightarrow> bool" where
  "offers g c a \<longleftrightarrow> sa_due a = cd_due c \<and> an_id (sa_action a) = cd_id c \<and> an_kind (sa_action a) = cd_kind c \<and>
     an_source (sa_action a) = SystemSource \<and> offered_payload g c = Inr (an_payload (sa_action a))"

lemma offered_total:
  assumes "gen_core n g" and "fmlookup (gn_candidates g) k = Some c"
  shows "\<exists>p. offered_payload g c = Inr p"
proof -
  have k: "cd_kind c = k" and c: "offer_ok (gn_cfg g) k (cd_payload c)"
    using gen_core_candidate [OF assms] by simp_all
  have m: "offer_ok (gn_cfg g) action_mark_move (cd_payload m)" if "fmlookup (gn_candidates g) action_mark_move = Some m" for m
    using gen_core_candidate(3) [OF assms(1) that] .
  show ?thesis
  proof (cases "k = action_arrival")
    case False
    then show ?thesis using k by (simp add: offered_payload_def)
  next
    case True
    then obtain p where p: "cd_payload c = CustomerArrival p"
      using c by (cases "cd_payload c") (auto simp: offer_ok_def)
    show ?thesis
    proof (cases "fmlookup (gn_candidates g) action_mark_move")
      case None
      then show ?thesis using k True p by (simp add: offered_payload_def)
    next
      case (Some d)
      then obtain move where "cd_payload d = MarkMove move"
        using m [OF Some] by (cases "cd_payload d") (auto simp: offer_ok_def)
      then show ?thesis using k True p Some by (simp add: offered_payload_def)
    qed
  qed
qed

lemma generator_next_spec:
  assumes core: "gen_core n g"
  shows "next_candidate g = None \<Longrightarrow> generator_next g = Inr None"
    and "next_candidate g = Some c \<Longrightarrow> \<exists>a. generator_next g = Inr (Some a) \<and> offers g c a"
proof -
  show "next_candidate g = None \<Longrightarrow> generator_next g = Inr None" by (simp add: generator_next_def)
  assume c: "next_candidate g = Some c"
  then obtain p where "offered_payload g c = Inr p"
    using offered_total [OF core] next_candidate_Some(1) [OF c] by blast
  then show "\<exists>a. generator_next g = Inr (Some a) \<and> offers g c a"
    using c by (simp add: generator_next_def offers_def)
qed

lemma head_least:
  assumes "next_candidate g = Some c" and "fmlookup (gn_candidates g) k = Some d"
  shows "ival (cd_due c) \<le> ival (cd_due d)"
  using next_candidate_Some(2) [OF assms] by (auto simp: earlier_def i64_order)

subsection \<open>Commit\<close>

definition progress :: "generator \<Rightarrow> int" where
  "progress g = 3 * ival (gc_duration (gn_cfg g)) - lasts g +
     (if fmlookup (gn_candidates g) action_expired = None then 0 else 1)"

lemma progress_nonneg: "gen_core n g \<Longrightarrow> 0 \<le> progress g"
  using gen_coreD(3,5,7) [of n g] by (simp add: progress_def lasts_def)

lemma stream_panics: "stream_bounded s b = Inl err \<Longrightarrow> is_panic err"
  by (auto simp: stream_bounded_def panics_def split: if_splits)

lemma generate_panics:
  "generate_customer g = Inl err \<Longrightarrow> is_panic err" "generate_mark g = Inl err \<Longrightarrow> is_panic err"
  by (auto simp: generate_customer_def generate_mark_def draw_interval_def bindE_Inl_iff Let_def
      dest: stream_panics split: if_splits)

lemma gives_success: "gives R m \<Longrightarrow> (\<And>err. m = Inl err \<Longrightarrow> is_panic err) \<Longrightarrow> \<exists>x. m = Inr x \<and> R x"
  by (cases m) auto

text \<open>Consuming a candidate of a kind makes room for its successor.\<close>

lemma core_change:
  assumes core: "gen_core n g"
    and same: "gn_cfg g' = gn_cfg g" "gn_generated g' = gn_generated g" "gn_candidates g' = fmdrop k (gn_candidates g)"
    and due: "\<And>j d. j \<noteq> k \<Longrightarrow> due_ok g' j d = due_ok g j d"
    and last: "list_all (\<lambda>t. 0 \<le> ival t \<and> ival t < ival (gc_duration (gn_cfg g)))
       [gn_last_customer g', gn_last_mark g', gn_last_carry g']"
    and budget: "uint (gn_generated g) + m \<le> 4 + lasts g'"
  shows "gen_core m g'"
proof -
  have old: "cd_kind d = j \<and> due_ok g j (cd_due d) \<and> offer_ok (gn_cfg g) j (cd_payload d) \<and>
      cd_id d = candidate_id j (cd_seq d) \<and> cd_seq d \<le> gn_generated g"
    if "fmlookup (gn_candidates g) j = Some d" for j d
    using gen_core_candidate [OF core that] by simp
  have uniq: "i = j" if "fmlookup (gn_candidates g) i = Some d" "fmlookup (gn_candidates g) j = Some d'"
    "cd_seq d = cd_seq d'" for i j d d'
    using core that unfolding gen_core_def by blast
  show ?thesis
    unfolding gen_core_def same
    using gen_coreD(1) [OF core] last budget
  proof (intro conjI allI impI)
    fix j d assume "fmlookup (fmdrop k (gn_candidates g)) j = Some d"
    then have "j \<noteq> k" "fmlookup (gn_candidates g) j = Some d" by (auto split: if_splits)
    then show "cd_kind d = j" "due_ok g' j (cd_due d)" "offer_ok (gn_cfg g) j (cd_payload d)"
      "cd_id d = candidate_id j (cd_seq d)" "cd_seq d \<le> gn_generated g"
      using old due by simp_all
  next
    fix i j d d' assume "fmlookup (fmdrop k (gn_candidates g)) i = Some d"
      "fmlookup (fmdrop k (gn_candidates g)) j = Some d'" "cd_seq d = cd_seq d'"
    then show "i = j" using uniq by (auto split: if_splits)
  qed
qed

lemma core_drop:
  assumes core: "gen_core 0 g" and c: "fmlookup (gn_candidates g) k = Some c"
    and g1: "g1 = g\<lparr>gn_candidates := fmdrop k (gn_candidates g), gn_committed := m\<rparr>"
  shows "k = action_arrival \<Longrightarrow> gen_core 1 (g1\<lparr>gn_last_customer := cd_due c\<rparr>)"
    and "k = action_mark_move \<Longrightarrow> gen_core 1 (g1\<lparr>gn_last_mark := cd_due c\<rparr>)"
    and "k = action_carry \<Longrightarrow> gen_core 1 (g1\<lparr>gn_last_carry := cd_due c\<rparr>)"
    and "gen_core 0 g1"
proof -
  note cfg = gen_configD [OF gen_coreD(1) [OF core]] and b = gen_coreD(2-8) [OF core]
  note due = gen_core_candidate(2) [OF core c]
  show "gen_core 1 (g1\<lparr>gn_last_customer := cd_due c\<rparr>)" if "k = action_arrival"
    using that due cfg(3) b by (intro core_change [OF core]) (auto simp: g1 lasts_def due_ok_def Let_def)
  show "gen_core 1 (g1\<lparr>gn_last_mark := cd_due c\<rparr>)" if "k = action_mark_move"
    using that due cfg(6) b by (intro core_change [OF core]) (auto simp: g1 lasts_def due_ok_def Let_def)
  show "gen_core 1 (g1\<lparr>gn_last_carry := cd_due c\<rparr>)" if "k = action_carry"
    using that due cfg(9) b by (intro core_change [OF core]) (auto simp: g1 lasts_def due_ok_def Let_def)
  show "gen_core 0 g1"
    using b by (intro core_change [OF core]) (auto simp: g1 lasts_def due_ok_def Let_def)
qed

text \<open>Committing the offered action succeeds, keeps the invariant, leaves no candidate due before it,
  and makes progress.\<close>

definition committed :: "generator \<Rightarrow> candidate \<Rightarrow> generator \<Rightarrow> bool" where
  "committed g c g' \<longleftrightarrow> gen_inv g' \<and> gn_cfg g' = gn_cfg g \<and> gn_committed g' = gn_committed g + 1 \<and>
     progress g' < progress g \<and> gn_generated g \<le> gn_generated g' \<and>
     (\<forall>k d. fmlookup (gn_candidates g') k = Some d \<longrightarrow>
        k \<noteq> cd_kind c \<and> fmlookup (gn_candidates g) k = Some d \<or> gn_generated g < cd_seq d) \<and>
     (\<forall>k d. fmlookup (gn_candidates g') k = Some d \<longrightarrow> ival (cd_due c) \<le> ival (cd_due d)) \<and>
     (cd_kind c = action_expired \<longleftrightarrow> gn_candidates g' = fmempty)"

lemma committed_grown:
  assumes inv: "gen_inv g" and c: "next_candidate g = Some c" "fmlookup (gn_candidates g) k = Some c"
    and k: "k \<noteq> action_expired" and core: "gen_core 0 g'"
    and grown: "grown k (ival (cd_due c)) base g'" and base: "gn_cfg base = gn_cfg g"
      "gn_committed base = gn_committed g + 1" "gn_candidates base = fmdrop k (gn_candidates g)" "lasts g < lasts base"
      "gn_generated base = gn_generated g"
  shows "committed g c g'"
proof -
  have pending: "fmlookup (gn_candidates g) action_expired \<noteq> None"
    using inv c(2) by (auto simp: gen_inv_def fmdom_notI)
  have g': "gn_cfg g' = gn_cfg g" "gn_committed g' = gn_committed g + 1" "lasts g' = lasts base"
    using grown base by (simp_all add: grown_def lasts_def)
  have other: "fmlookup (gn_candidates g') j = fmlookup (gn_candidates g) j" if "j \<noteq> k" for j
    using grown base that by (simp add: grown_def)
  have exp: "fmlookup (gn_candidates g') action_expired \<noteq> None" using pending other k by simp
  then have "gn_candidates g' \<noteq> fmempty" by (metis fmempty_lookup)
  moreover have kind: "cd_kind c = k"
    using gen_core_candidate(1) [OF _ c(2)] inv by (auto simp: gen_inv_def)
  moreover have "k \<noteq> j \<and> fmlookup (gn_candidates g) j = Some d \<or> gn_generated g < cd_seq d"
    if "fmlookup (gn_candidates g') j = Some d" for j d
    using grown base(5) other [of j] that by (cases "j = k") (auto simp: grown_def)
  moreover have "gn_generated g \<le> gn_generated g'" using grown base(5) by (simp add: grown_def)
  moreover have "ival (cd_due c) \<le> ival (cd_due d)" if "fmlookup (gn_candidates g') j = Some d" for j d
  proof (cases "j = k")
    case True
    then show ?thesis using grown that by (simp add: grown_def)
  next
    case False
    then show ?thesis using head_least [OF c(1), of j d] other that by simp
  qed
  ultimately show ?thesis
    using core g' exp pending k base(4) kind
    by (auto simp: committed_def gen_inv_def progress_def fmdomI)
qed

lemma commit_spec:
  assumes inv: "gen_inv g" and c: "next_candidate g = Some c" and off: "generator_next g = Inr (Some a)"
  shows "\<exists>g'. generator_commit g a = Inr g' \<and> committed g c g'"
proof -
  have core: "gen_core 0 g" using inv by (simp add: gen_inv_def)
  obtain k where k: "fmlookup (gn_candidates g) k = Some c" using next_candidate_Some(1) [OF c] ..
  note due = gen_core_candidate(2) [OF core k] and kind = gen_core_candidate(1) [OF core k]
  note cfg = gen_configD [OF gen_coreD(1) [OF core]]
  let ?g1 = "g\<lparr>gn_candidates := fmdrop k (gn_candidates g), gn_committed := gn_committed g + 1\<rparr>"
  note drop = core_drop [OF core k refl, of "gn_committed g + 1"]
  note rule = committed_grown [OF inv c k]
  consider "k = action_arrival" | "k = action_mark_move" | "k = action_carry" | "k = action_expired"
    using due by (auto simp: due_ok_def Let_def split: if_splits)
  then show ?thesis
  proof cases
    case 1
    let ?g2 = "?g1\<lparr>gn_last_customer := cd_due c\<rparr>"
    have "\<exists>g'. generate_customer ?g2 = Inr g' \<and> gen_core (1 - 1) g' \<and>
        grown action_arrival (ival (gn_last_customer ?g2)) ?g2 g'"
      using 1 drop(1) by (intro gives_success [OF core_customer] generate_panics(1)) auto
    then obtain g' where g': "generate_customer ?g2 = Inr g'" "gen_core 0 g'"
      "grown action_arrival (ival (cd_due c)) ?g2 g'" by auto
    have "committed g c g'"
      using 1 due cfg(3) g' by (intro rule [where base = ?g2]) (auto simp: due_ok_def Let_def lasts_def)
    then show ?thesis using g'(1) 1 c off kind by (auto simp: generator_commit_def)
  next
    case 2
    let ?g2 = "?g1\<lparr>gn_last_mark := cd_due c\<rparr>"
    have "\<exists>g'. generate_mark ?g2 = Inr g' \<and> gen_core (1 - 1) g' \<and>
        grown action_mark_move (ival (gn_last_mark ?g2)) ?g2 g'"
      using 2 drop(2) by (intro gives_success [OF core_mark] generate_panics(2)) auto
    then obtain g' where g': "generate_mark ?g2 = Inr g'" "gen_core 0 g'"
      "grown action_mark_move (ival (cd_due c)) ?g2 g'" by auto
    have "committed g c g'"
      using 2 due cfg(6) g' by (intro rule [where base = ?g2]) (auto simp: due_ok_def Let_def lasts_def)
    then show ?thesis using g'(1) 2 c off kind by (auto simp: generator_commit_def)
  next
    case 3
    let ?g2 = "?g1\<lparr>gn_last_carry := cd_due c\<rparr>"
    have g': "gen_core (1 - 1) (generate_carry ?g2)" "grown action_carry (ival (cd_due c)) ?g2 (generate_carry ?g2)"
      using core_carry [of 1 ?g2] drop(3) 3 by simp_all
    have "committed g c (generate_carry ?g2)"
      using 3 due cfg(9) g' by (intro rule [where base = ?g2]) (auto simp: due_ok_def Let_def lasts_def)
    then show ?thesis using 3 c off kind by (auto simp: generator_commit_def)
  next
    case 4
    have none: "fmlookup (gn_candidates g) j = None" if "j \<noteq> k" for j
    proof (rule ccontr)
      assume "fmlookup (gn_candidates g) j \<noteq> None"
      then obtain d where d: "fmlookup (gn_candidates g) j = Some d" by auto
      then have "ival (cd_due d) < ival (cd_due c)"
        using gen_core_candidate(2) [OF core d] due 4 that by (auto simp: due_ok_def Let_def split: if_splits)
      then show False using head_least [OF c d] by simp
    qed
    have empty: "fmdrop k (gn_candidates g) = fmempty"
      by (intro fmap_ext) (use none in auto)
    have "committed g c ?g1"
      using drop(4) empty k 4 kind by (auto simp: committed_def gen_inv_def progress_def lasts_def)
    then show ?thesis using 4 c off kind by (auto simp: generator_commit_def)
  qed
qed

end
