(* ===== verification/Schedule.thy ===== *)
theory Schedule
  imports Generator_Inv
begin

text \<open>
  The \<^verbatim>\<open>Schedule\<close> interface of \<^verbatim>\<open>internal/realtime/sequencer.go\<close>: what the sequencer relies on, as a
  locale over the history of committed actions, and its two implementations, the static schedule
  and the deterministic generator.
\<close>

subsection \<open>The interface\<close>

definition action_id :: "scheduled_action \<Rightarrow> string" where
  "action_id a = an_id (sa_action a)"

text \<open>\<open>follows h a\<close>: \<open>a\<close> may be scheduled after the actions \<open>h\<close>.\<close>

definition follows :: "scheduled_action list \<Rightarrow> scheduled_action \<Rightarrow> bool" where
  "follows h a \<longleftrightarrow> validate_scheduled_action a = Inr () \<and>
     list_all (\<lambda>b. ival (sa_due b) \<le> ival (sa_due a) \<and> action_id b \<noteq> action_id a) h"

fun timeline :: "scheduled_action list \<Rightarrow> scheduled_action list \<Rightarrow> bool" where
  "timeline h [] \<longleftrightarrow> True"
| "timeline h (a # as) \<longleftrightarrow> follows h a \<and> timeline (h @ [a]) as"

lemma timeline_from:
  assumes "timeline h as"
  shows "sorted (map (\<lambda>a. ival (sa_due a)) as) \<and> distinct (map action_id as) \<and>
    (\<forall>a \<in> set as. validate_scheduled_action a = Inr () \<and>
       (\<forall>b \<in> set h. ival (sa_due b) \<le> ival (sa_due a) \<and> action_id b \<noteq> action_id a))"
  using assms
proof (induction as arbitrary: h)
  case (Cons a as)
  then have "follows h a" "timeline (h @ [a]) as" by simp_all
  then show ?case using Cons.IH [of "h @ [a]"] by (auto simp: follows_def list_all_iff)
qed simp

lemma timeline_to:
  assumes "sorted (map (\<lambda>a. ival (sa_due a)) as)" "distinct (map action_id as)"
    "\<forall>a \<in> set as. validate_scheduled_action a = Inr () \<and>
       (\<forall>b \<in> set h. ival (sa_due b) \<le> ival (sa_due a) \<and> action_id b \<noteq> action_id a)"
  shows "timeline h as"
  using assms
proof (induction as arbitrary: h)
  case (Cons a as)
  have "timeline (h @ [a]) as"
    using Cons.prems by (intro Cons.IH) (auto simp: image_iff)
  then show ?case using Cons.prems by (auto simp: follows_def list_all_iff)
qed simp

lemma timeline_iff:
  "timeline [] as \<longleftrightarrow> sorted (map (\<lambda>a. ival (sa_due a)) as) \<and> distinct (map action_id as) \<and>
     list_all (\<lambda>a. validate_scheduled_action a = Inr ()) as"
  using timeline_from [of "[]" as] timeline_to [of as "[]"] by (auto simp: list_all_iff)

text \<open>Draining a schedule: offering and committing until nothing is left.\<close>

fun drain :: "('s \<Rightarrow> scheduled_action option res) \<Rightarrow> ('s \<Rightarrow> scheduled_action \<Rightarrow> 's res) \<Rightarrow>
    nat \<Rightarrow> 's \<Rightarrow> (scheduled_action list \<times> 's) res" where
  "drain next_of commit_of 0 s = Inr ([], s)"
| "drain next_of commit_of (Suc n) s =
     bindE (next_of s) (\<lambda>out. case out of
       None \<Rightarrow> Inr ([], s)
     | Some a \<Rightarrow> bindE (commit_of s a) (\<lambda>s'.
         bindE (drain next_of commit_of n s') (\<lambda>(rest, s''). Inr (a # rest, s''))))"

locale schedule =
  fixes inv :: "'s \<Rightarrow> scheduled_action list \<Rightarrow> bool"
    and next_of :: "'s \<Rightarrow> scheduled_action option res"
    and commit_of :: "'s \<Rightarrow> scheduled_action \<Rightarrow> 's res"
    and left :: "'s \<Rightarrow> nat"
  assumes next_total: "inv s h \<Longrightarrow> \<exists>out. next_of s = Inr out"
    and next_follows: "inv s h \<Longrightarrow> next_of s = Inr (Some a) \<Longrightarrow> follows h a"
    and commit_total: "inv s h \<Longrightarrow> next_of s = Inr (Some a) \<Longrightarrow>
      \<exists>s'. commit_of s a = Inr s' \<and> inv s' (h @ [a]) \<and> left s' < left s"
begin

lemma drain_all:
  assumes "inv s h" and "left s < n"
  shows "\<exists>as s'. drain next_of commit_of n s = Inr (as, s') \<and> next_of s' = Inr None \<and> inv s' (h @ as) \<and>
    timeline h as"
  using assms
proof (induction n arbitrary: s h)
  case (Suc n)
  obtain out where out: "next_of s = Inr out" using next_total [OF Suc.prems(1)] ..
  show ?case
  proof (cases out)
    case None
    then show ?thesis using out Suc.prems by auto
  next
    case (Some a)
    obtain s1 where s1: "commit_of s a = Inr s1" "inv s1 (h @ [a])" "left s1 < left s"
      using commit_total [OF Suc.prems(1), of a] out Some by auto
    obtain as s' where rest: "drain next_of commit_of n s1 = Inr (as, s')" "next_of s' = Inr None"
      "inv s' ((h @ [a]) @ as)" "timeline (h @ [a]) as"
      using Suc.IH [OF s1(2)] s1(3) Suc.prems(2) by auto
    have "follows h a" using next_follows [OF Suc.prems(1)] out Some by simp
    then show ?thesis using out Some s1(1) rest by auto
  qed
qed simp

end

subsection \<open>The static schedule\<close>

record static_schedule =
  ss_actions :: "scheduled_action list"
  ss_next :: nat

definition check_scheduled ::
  "nat \<times> string fset \<times> scheduled_action option \<Rightarrow> scheduled_action \<Rightarrow>
   (nat \<times> string fset \<times> scheduled_action option) res" where
  "check_scheduled st a = (case st of (i, ids, prev) \<Rightarrow>
     (case validate_scheduled_action a of
        Inl err \<Rightarrow> Inl (Wrapped (''scheduled action '' @ show_nat i @ '': %w'') err)
      | Inr _ \<Rightarrow>
        if action_id a |\<in>| ids then Inl (Errorf ''scheduled action id %q is duplicated'' [action_id a])
        else guardE (case prev of None \<Rightarrow> False | Some b \<Rightarrow> sa_due a < sa_due b)
          ''schedule must be ordered by due time'' (Inr (i + 1, finsert (action_id a) ids, Some a))))"

definition new_static_schedule :: "scheduled_action list \<Rightarrow> static_schedule res" where
  "new_static_schedule actions =
     bindE (foldE check_scheduled (0, {||}, None) actions) (\<lambda>_.
     Inr \<lparr>ss_actions = actions, ss_next = 0\<rparr>)"

definition static_next :: "static_schedule \<Rightarrow> scheduled_action option res" where
  "static_next s =
     Inr (if ss_next s \<ge> length (ss_actions s) then None else Some (ss_actions s ! ss_next s))"

definition static_commit :: "static_schedule \<Rightarrow> scheduled_action \<Rightarrow> static_schedule res" where
  "static_commit s a =
     guardE (ss_next s \<ge> length (ss_actions s) \<or> sa_due (ss_actions s ! ss_next s) \<noteq> sa_due a \<or>
             action_id (ss_actions s ! ss_next s) \<noteq> action_id a)
       ''committed action does not match schedule head'' (Inr (s\<lparr>ss_next := ss_next s + 1\<rparr>))"

definition static_inv :: "static_schedule \<Rightarrow> scheduled_action list \<Rightarrow> bool" where
  "static_inv s h \<longleftrightarrow> timeline [] (ss_actions s) \<and> ss_next s \<le> length (ss_actions s) \<and>
     h = take (ss_next s) (ss_actions s)"

lemma timeline_nth: "timeline h as \<Longrightarrow> i < length as \<Longrightarrow> follows (h @ take i as) (as ! i)"
proof (induction as arbitrary: h i)
  case (Cons a as)
  then show ?case using Cons.IH [of "h @ [a]" "i - 1"] by (cases i) auto
qed simp

interpretation static: schedule static_inv static_next static_commit "\<lambda>s. length (ss_actions s) - ss_next s"
proof unfold_locales
  fix s h a
  assume inv: "static_inv s h"
  show "\<exists>out. static_next s = Inr out" by (simp add: static_next_def)
  assume next_a: "static_next s = Inr (Some a)"
  then have i: "ss_next s < length (ss_actions s)" and a: "a = ss_actions s ! ss_next s"
    by (auto simp: static_next_def split: if_splits)
  show "follows h a"
    using inv timeline_nth [of "[]" "ss_actions s" "ss_next s"] i a by (simp add: static_inv_def)
  show "\<exists>s'. static_commit s a = Inr s' \<and> static_inv s' (h @ [a]) \<and>
      length (ss_actions s') - ss_next s' < length (ss_actions s) - ss_next s"
    using inv i a by (auto simp: static_commit_def static_inv_def take_Suc_conv_app_nth)
qed

lemma check_scheduled_fold:
  assumes "foldE check_scheduled (i, ids, prev) as = Inr st" and "fset ids = set (map action_id h)"
    and "case prev of None \<Rightarrow> h = [] | Some b \<Rightarrow> h \<noteq> [] \<and> last h = b"
    and "sorted (map (\<lambda>a. ival (sa_due a)) h)"
  shows "timeline h as"
  using assms
proof (induction as arbitrary: i ids prev h)
  case (Cons a as)
  from Cons.prems(1) obtain st1 where one: "check_scheduled (i, ids, prev) a = Inr st1"
    and fold: "foldE check_scheduled st1 as = Inr st" by auto
  from one have ok: "validate_scheduled_action a = Inr ()" "action_id a |\<notin>| ids"
    and ord: "\<not> (case prev of None \<Rightarrow> False | Some b \<Rightarrow> sa_due a < sa_due b)"
    and st1: "st1 = (i + 1, finsert (action_id a) ids, Some a)"
    by (auto simp: check_scheduled_def split: sum.splits if_splits)
  note rest = fold [unfolded st1]
  have le: "ival (sa_due b) \<le> ival (sa_due a)" if b: "b \<in> set h" for b
  proof -
    obtain c where c: "prev = Some c" "h \<noteq> []" "last h = c"
      using Cons.prems(3) b by (cases prev) auto
    have "sorted (map (\<lambda>a. ival (sa_due a)) (butlast h @ [c]))" "b \<in> set (butlast h @ [c])"
      using Cons.prems(4) b c append_butlast_last_id [OF c(2)] by metis+
    then have "ival (sa_due b) \<le> ival (sa_due c)" by (auto simp: sorted_append)
    then show ?thesis using ord c by (simp add: i64_order)
  qed
  have "action_id b \<noteq> action_id a" if "b \<in> set h" for b
    using ok(2) Cons.prems(2) that by (metis imageI list.set_map)
  then have "follows h a"
    using ok(1) le by (auto simp: follows_def list_all_iff)
  moreover have "timeline (h @ [a]) as"
    using le Cons.prems by (intro Cons.IH [OF rest]) (auto simp: sorted_append)
  ultimately show ?case by simp
qed simp

lemma static_schedule_ok:
  assumes "new_static_schedule as = Inr s"
  shows "static_inv s []" "ss_actions s = as"
  using assms check_scheduled_fold [of 0 "{||}" None as _ "[]"]
  by (auto simp: new_static_schedule_def static_inv_def)

lemma check_scheduled_complete:
  assumes "timeline h as" and "fset ids = set (map action_id h)"
    and "case prev of None \<Rightarrow> h = [] | Some b \<Rightarrow> b \<in> set h"
  shows "\<exists>st. foldE check_scheduled (i, ids, prev) as = Inr st"
  using assms
proof (induction as arbitrary: i ids prev h)
  case (Cons a as)
  from Cons.prems(1) have f: "follows h a" and rest: "timeline (h @ [a]) as" by simp_all
  have "action_id a |\<notin>| ids"
    using f Cons.prems(2) by (auto simp: follows_def list_all_iff)
  moreover have "\<not> (case prev of None \<Rightarrow> False | Some b \<Rightarrow> sa_due a < sa_due b)"
    using f Cons.prems(3) by (auto simp: follows_def list_all_iff i64_order not_less split: option.splits)
  ultimately have "check_scheduled (i, ids, prev) a = Inr (i + 1, finsert (action_id a) ids, Some a)"
    using f by (simp add: check_scheduled_def follows_def)
  then show ?case using Cons.IH [OF rest] Cons.prems(2) by simp
qed simp

lemma drain_static:
  assumes "ss_next s \<le> length (ss_actions s)" and "length (ss_actions s) - ss_next s < n"
  shows "drain static_next static_commit n s =
    Inr (drop (ss_next s) (ss_actions s), s\<lparr>ss_next := length (ss_actions s)\<rparr>)"
  using assms
proof (induction n arbitrary: s)
  case (Suc n)
  show ?case
  proof (cases "ss_next s = length (ss_actions s)")
    case True
    then have "s\<lparr>ss_next := length (ss_actions s)\<rparr> = s" by (metis static_schedule.surjective static_schedule.update_convs(2))
    then show ?thesis using True by (simp add: static_next_def)
  next
    case False
    then have i: "ss_next s < length (ss_actions s)" using Suc.prems by simp
    then show ?thesis
      using Suc.prems Suc.IH [of "s\<lparr>ss_next := ss_next s + 1\<rparr>"]
      by (simp add: static_next_def static_commit_def Cons_nth_drop_Suc)
  qed
qed simp

subsection \<open>The generator as a schedule\<close>

lemma show_dec_inject: "show_dec (uint a) = show_dec (uint b) \<Longrightarrow> a = (b :: u64)"
  by (metis show_dec_uint digits_val_show_nat word_unat_eq_iff)

lemma candidate_id_number:
  assumes "candidate_id k m = candidate_id k' n"
    and "k \<in> {action_arrival, action_mark_move, action_carry, action_expired}"
    and "k' \<in> {action_arrival, action_mark_move, action_carry, action_expired}"
  shows "m = n"
proof -
  have slash: "CHR ''/'' \<notin> set (show_dec (uint x))" for x :: u64
    using show_nat_digits [of "unat x"] unfolding show_dec_uint by (auto simp: list_all_iff is_digit_def)
  have "x = y" if "a @ CHR ''/'' # x = b @ CHR ''/'' # y" "CHR ''/'' \<notin> set a" "CHR ''/'' \<notin> set b" for a b x y
    using that by (induction a arbitrary: b) (case_tac [!] b, auto)
  moreover have "CHR ''/'' \<notin> set k" "CHR ''/'' \<notin> set k'"
    using assms(2,3) by (auto simp: action_kinds)
  ultimately have "show_dec (uint m) = show_dec (uint n)"
    using assms(1) by (simp add: candidate_id_def)
  then show ?thesis by (rule show_dec_inject)
qed

definition generator_history :: "generator \<Rightarrow> scheduled_action list \<Rightarrow> bool" where
  "generator_history g h \<longleftrightarrow> gen_inv g \<and>
     (\<forall>a \<in> set h. (\<forall>k c. fmlookup (gn_candidates g) k = Some c \<longrightarrow> ival (sa_due a) \<le> ival (cd_due c)) \<and>
        (\<exists>k n. k \<in> {action_arrival, action_mark_move, action_carry, action_expired} \<and>
           action_id a = candidate_id k n \<and> n \<le> gn_generated g \<and>
           (\<forall>k' c. fmlookup (gn_candidates g) k' = Some c \<longrightarrow> cd_seq c \<noteq> n)))"

lemma offers_follows:
  assumes h: "generator_history g h" and c: "next_candidate g = Some c" and a: "offers g c a"
  shows "follows h a"
proof -
  have core: "gen_core 0 g" using h by (simp add: generator_history_def gen_inv_def)
  obtain k where k: "fmlookup (gn_candidates g) k = Some c" using next_candidate_Some(1) [OF c] ..
  note due = gen_core_candidate [OF core k]
  have kinds: "k \<in> {action_arrival, action_mark_move, action_carry, action_expired}"
    using due(2) by (auto simp: due_ok_def Let_def split: if_splits)
  have "0 \<le> ival (cd_due c)"
    using due(2) gen_coreD(2-7) [OF core] gen_configD(1,3,6,9) [OF gen_coreD(1) [OF core]]
    by (auto simp: due_ok_def Let_def split: if_splits)
  moreover have "cd_kind c \<noteq> []" using due(1) kinds by (auto simp: action_kinds)
  moreover have "cd_id c \<noteq> []" using due(4) by (simp add: candidate_id_def system_prefix_def)
  ultimately have valid: "validate_scheduled_action a = Inr ()"
    using a by (simp add: offers_def validate_scheduled_action_def validate_action_def i64_order)
  have "ival (sa_due b) \<le> ival (sa_due a) \<and> action_id b \<noteq> action_id a" if b: "b \<in> set h" for b
  proof
    show "ival (sa_due b) \<le> ival (sa_due a)"
      using h b k a unfolding generator_history_def offers_def by metis
    show "action_id b \<noteq> action_id a"
    proof
      assume eq: "action_id b = action_id a"
      obtain k' n where n: "k' \<in> {action_arrival, action_mark_move, action_carry, action_expired}"
        "action_id b = candidate_id k' n" "cd_seq c \<noteq> n"
        using h b k unfolding generator_history_def by metis
      then have "candidate_id k' n = candidate_id k (cd_seq c)"
        using eq due(4) a by (simp add: action_id_def offers_def)
      then show False using candidate_id_number [OF _ n(1) kinds] n(3) by blast
    qed
  qed
  then show ?thesis using valid by (simp add: follows_def list_all_iff)
qed

lemma commit_history:
  assumes h: "generator_history g h" and c: "next_candidate g = Some c" and a: "offers g c a"
    and g': "committed g c g'"
  shows "generator_history g' (h @ [a])"
proof -
  have core: "gen_core 0 g" using h by (simp add: generator_history_def gen_inv_def)
  obtain k where k: "fmlookup (gn_candidates g) k = Some c" using next_candidate_Some(1) [OF c] ..
  note due = gen_core_candidate [OF core k]
  have kinds: "k \<in> {action_arrival, action_mark_move, action_carry, action_expired}"
    using due(2) by (auto simp: due_ok_def Let_def split: if_splits)
  have le: "gn_generated g \<le> gn_generated g'"
    and old: "\<And>j d. fmlookup (gn_candidates g') j = Some d \<Longrightarrow>
      j \<noteq> k \<and> fmlookup (gn_candidates g) j = Some d \<or> gn_generated g < cd_seq d"
    and later: "\<And>j d. fmlookup (gn_candidates g') j = Some d \<Longrightarrow> ival (cd_due c) \<le> ival (cd_due d)"
    using g' due(1) unfolding committed_def by blast+
  have "(\<forall>j d. fmlookup (gn_candidates g') j = Some d \<longrightarrow> ival (sa_due b) \<le> ival (cd_due d)) \<and>
      (\<exists>k n. k \<in> {action_arrival, action_mark_move, action_carry, action_expired} \<and>
         action_id b = candidate_id k n \<and> n \<le> gn_generated g' \<and>
         (\<forall>k' d. fmlookup (gn_candidates g') k' = Some d \<longrightarrow> cd_seq d \<noteq> n))"
    if b: "b \<in> set (h @ [a])" for b
  proof (cases "b \<in> set h")
    case True
    have "ival (sa_due b) \<le> ival (cd_due c)" using h True k unfolding generator_history_def by blast
    moreover obtain k' n where n: "k' \<in> {action_arrival, action_mark_move, action_carry, action_expired}"
      "action_id b = candidate_id k' n" "n \<le> gn_generated g"
      "\<And>j d. fmlookup (gn_candidates g) j = Some d \<Longrightarrow> cd_seq d \<noteq> n"
      using h True unfolding generator_history_def by metis
    ultimately show ?thesis
      using later old le by (fastforce intro!: exI [of _ k'] exI [of _ n])
  next
    case False
    then have [simp]: "b = a" using b by simp
    have "cd_seq d \<noteq> cd_seq c" if d: "fmlookup (gn_candidates g') j = Some d" for j d
      using old [OF d] core due(5) k unfolding gen_core_def by (metis leD)
    then show ?thesis
      using later due(4,5) le kinds a
      by (intro conjI exI [of _ k] exI [of _ "cd_seq c"]) (auto simp: offers_def action_id_def)
  qed
  then show ?thesis using g' unfolding generator_history_def committed_def by blast
qed

interpretation gen: schedule generator_history generator_next generator_commit "\<lambda>g. nat (progress g)"
proof unfold_locales
  fix g h a
  assume h: "generator_history g h"
  then have inv: "gen_inv g" and core: "gen_core 0 g" by (simp_all add: generator_history_def gen_inv_def)
  show "\<exists>out. generator_next g = Inr out"
    using generator_next_spec [OF core] by (cases "next_candidate g") auto
  assume off: "generator_next g = Inr (Some a)"
  obtain c where c: "next_candidate g = Some c"
    using generator_next_spec(1) [OF core] off by (cases "next_candidate g") auto
  have a: "offers g c a" using generator_next_spec(2) [OF core c] off by auto
  show "follows h a" by (rule offers_follows [OF h c a])
  obtain g' where g': "generator_commit g a = Inr g'" "committed g c g'"
    using commit_spec [OF inv c off] by blast
  then have "gen_core 0 g'" "progress g' < progress g" by (simp_all add: committed_def gen_inv_def)
  then have "nat (progress g') < nat (progress g)" using progress_nonneg [of 0 g'] by simp
  then show "\<exists>g'. generator_commit g a = Inr g' \<and> generator_history g' (h @ [a]) \<and>
      nat (progress g') < nat (progress g)"
    using g' commit_history [OF h c a g'(2)] by blast
qed

end
