(* ===== verification/Generator_Properties.thy ===== *)
theory Generator_Properties
  imports Schedule
begin

text \<open>
  The generator as a whole: from a valid configuration it starts, and asking and committing in turn
  yields the complete schedule of a session.
\<close>

subsection \<open>Starting\<close>

lemma blank_core:
  assumes "validate_generator_config c = Inr ()"
  shows "gen_core 4 \<lparr>gn_cfg = c, gn_customer = s, gn_mark = t, gn_informed = u, gn_generated = 0,
    gn_committed = 0, gn_last_customer = 0, gn_last_mark = 0, gn_last_carry = 0, gn_candidates = fmempty\<rparr>"
  using assms gen_configD(1) [OF assms] by (simp add: gen_core_def lasts_def)

text \<open>Growing a kind leaves the room that the kinds after it need.\<close>

lemma grown_fresh:
  assumes "grown k l g g'" and "fmlookup (gn_candidates g) j = None" and "j \<noteq> k"
  shows "fmlookup (gn_candidates g') j = None"
  using assms by (auto simp: grown_def)

lemma generator_starts:
  assumes ok: "validate_generator_config c = Inr ()"
  obtains g where "new_generator c = Inr g" and "generator_history g []" and "gn_cfg g = c" and "lasts g = 0"
    and "gn_committed g = 0" and "gn_candidates g \<noteq> fmempty"
proof -
  define g0' where "g0' = \<lparr>gn_cfg = c, gn_customer = derive_stream_seed (gc_seed c) (gc_customer_domain c),
        gn_mark = derive_stream_seed (gc_seed c) (gc_mark_domain c),
        gn_informed = derive_stream_seed (gc_seed c) (gc_informed_domain c),
        gn_generated = 0, gn_committed = 0, gn_last_customer = 0, gn_last_mark = 0, gn_last_carry = 0,
        gn_candidates = fmempty\<rparr>"
  have z: "gen_core 4 g0'" "gn_candidates g0' = fmempty" "gn_cfg g0' = c" "lasts g0' = 0" "gn_committed g0' = 0"
    using blank_core [OF ok] by (simp_all add: g0'_def lasts_def)
  have "\<exists>ga. generate_customer g0' = Inr ga \<and> gen_core (4 - 1) ga \<and>
      grown action_arrival (ival (gn_last_customer g0')) g0' ga"
    using z by (intro gives_success [OF core_customer] generate_panics(1)) auto
  then obtain ga where ga: "generate_customer g0' = Inr ga" "gen_core 3 ga"
    "grown action_arrival (ival (gn_last_customer g0')) g0' ga" by auto
  have "\<exists>gb. generate_mark ga = Inr gb \<and> gen_core (3 - 1) gb \<and>
      grown action_mark_move (ival (gn_last_mark ga)) ga gb"
    using ga z by (intro gives_success [OF core_mark] generate_panics(2)) (auto intro: grown_fresh)
  then obtain gb where gb: "generate_mark ga = Inr gb" "gen_core 2 gb"
    "grown action_mark_move (ival (gn_last_mark ga)) ga gb" by auto
  define gc where "gc = generate_carry gb"
  have carry: "fmlookup (gn_candidates gb) action_carry = None"
    using z ga gb by (auto intro!: grown_fresh [OF gb(3)] grown_fresh [OF ga(3)])
  have gc: "gen_core 1 gc" "grown action_carry (ival (gn_last_carry gb)) gb gc"
    using core_carry [OF gb(2)] carry unfolding gc_def by simp_all
  have cfg: "gn_cfg gc = c" "lasts gc = 0" "gn_committed gc = 0"
    using ga(3) gb(3) gc(2) z by (simp_all add: grown_def lasts_def)
  have none: "fmlookup (gn_candidates gc) action_expired = None"
    using z ga gb gc by (auto intro!: grown_fresh [OF gc(2)] grown_fresh [OF gb(3)] grown_fresh [OF ga(3)])
  define g where "g = add_candidate gc (gc_duration c) action_expired NoPayload"
  have core: "gen_core 0 g"
    using core_add [OF gc(1) _ none, of "gc_duration c" NoPayload] cfg
    by (simp add: g_def due_ok_def offer_ok_def Let_def)
  have exp: "action_expired |\<in>| fmdom (gn_candidates g)" by (simp add: g_def add_candidate_def Let_def)
  then have pending: "gn_candidates g \<noteq> fmempty" by auto
  have "gen_inv g" using exp core by (simp add: gen_inv_def)
  moreover have "new_generator c = Inr g"
    using ok ga(1) gb(1) unfolding new_generator_def g0'_def [symmetric] by (simp add: g_def gc_def)
  ultimately show thesis
    using that [of g] cfg pending by (simp add: generator_history_def g_def add_candidate_def Let_def lasts_def)
qed

subsection \<open>Draining\<close>

text \<open>What the configuration promises of an offered action.\<close>

definition drawn_within :: "gen_config \<Rightarrow> scheduled_action \<Rightarrow> bool" where
  "drawn_within c a \<longleftrightarrow> an_source (sa_action a) = SystemSource \<and> 0 < ival (sa_due a) \<and>
     (case an_payload (sa_action a) of
        CustomerArrival p \<Rightarrow> an_kind (sa_action a) = action_arrival \<and> ival (sa_due a) < ival (gc_duration c) \<and>
          1 \<le> ival (ap_qty p) \<and> ival (ap_qty p) \<le> ival (gc_max_qty c) \<and>
          0 \<le> ival (ap_slip p) \<and> ival (ap_slip p) \<le> ival (gc_max_slip c) \<and> ap_draw p < 10000 \<and>
          (if ap_has_mark p
           then ival (gc_min_move c) \<le> ival (ap_move p) \<and> ival (ap_move p) \<le> ival (gc_max_move c)
           else ap_move p = 0)
      | MarkMove m \<Rightarrow> an_kind (sa_action a) = action_mark_move \<and> ival (sa_due a) < ival (gc_duration c) \<and>
          ival (gc_min_move c) \<le> ival m \<and> ival m \<le> ival (gc_max_move c)
      | NoPayload \<Rightarrow> an_kind (sa_action a) = action_carry \<and> ival (sa_due a) < ival (gc_duration c) \<or>
          an_kind (sa_action a) = action_expired \<and> ival (sa_due a) = ival (gc_duration c)
      | _ \<Rightarrow> False)"

lemma offers_within:
  assumes core: "gen_core n g" and c: "fmlookup (gn_candidates g) k = Some c" and a: "offers g c a"
  shows "drawn_within (gn_cfg g) a"
proof -
  note cand = gen_core_candidate [OF core c] and cfg = gen_configD [OF gen_coreD(1) [OF core]]
  note b = gen_coreD(2-7) [OF core]
  have pos: "0 < ival (cd_due c)" and kinds: "k = action_arrival \<or> k = action_mark_move \<or> k = action_carry \<or> k = action_expired"
    and before: "k \<noteq> action_expired \<Longrightarrow> ival (cd_due c) < ival (gc_duration (gn_cfg g))"
    and at: "k = action_expired \<Longrightarrow> ival (cd_due c) = ival (gc_duration (gn_cfg g))"
    using cand(2) cfg(1,3,6,9) b by (auto simp: due_ok_def Let_def split: if_splits)
  have m: "offer_ok (gn_cfg g) action_mark_move (cd_payload m)" if "fmlookup (gn_candidates g) action_mark_move = Some m" for m
    using gen_core_candidate(3) [OF core that] .
  show ?thesis
  proof (cases "k = action_arrival")
    case True
    then obtain p where p: "cd_payload c = CustomerArrival p"
      using cand(3) by (cases "cd_payload c") (auto simp: offer_ok_def)
    show ?thesis
    proof (cases "fmlookup (gn_candidates g) action_mark_move")
      case None
      then have "an_payload (sa_action a) = CustomerArrival p"
        using a cand(1) p True by (simp add: offers_def offered_payload_def)
      then show ?thesis
        using a cand(1,3) p pos before True by (auto simp: offers_def drawn_within_def offer_ok_def)
    next
      case (Some d)
      then obtain move where "cd_payload d = MarkMove move"
        using m [OF Some] by (cases "cd_payload d") (auto simp: offer_ok_def)
      then have "an_payload (sa_action a) = CustomerArrival (p\<lparr>ap_has_mark := True, ap_move := move\<rparr>)"
        and "ival (gc_min_move (gn_cfg g)) \<le> ival move \<and> ival move \<le> ival (gc_max_move (gn_cfg g))"
        using a cand(1) p True Some m [OF Some] by (simp_all add: offers_def offered_payload_def offer_ok_def)
      then show ?thesis
        using a cand(1,3) p pos before True by (auto simp: offers_def drawn_within_def offer_ok_def)
    qed
  next
    case False
    then have "an_payload (sa_action a) = cd_payload c"
      using a cand(1) by (simp add: offers_def offered_payload_def)
    then show ?thesis
      using a cand(1,3) pos before at kinds False
      by (auto simp: offers_def drawn_within_def offer_ok_def split: payload.splits)
  qed
qed

lemma drain_generator:
  assumes "generator_history g h" and "drain generator_next generator_commit n g = Inr (as, g')"
    and "generator_next g' = Inr None"
  shows "list_all (drawn_within (gn_cfg g)) as \<and> gn_committed g' = gn_committed g + of_nat (length as) \<and>
    (as = [] \<longleftrightarrow> gn_candidates g = fmempty) \<and>
    (as \<noteq> [] \<longrightarrow> an_kind (sa_action (last as)) = action_expired \<and> sa_due (last as) = gc_duration (gn_cfg g))"
  using assms
proof (induction n arbitrary: g h as)
  case 0
  then have core: "gen_core 0 g" by (simp add: generator_history_def gen_inv_def)
  have "next_candidate g = None"
    using 0 generator_next_spec(2) [OF core] by (cases "next_candidate g") auto
  then show ?case using 0 by (simp add: next_candidate_None)
next
  case (Suc n)
  then have inv: "gen_inv g" and core: "gen_core 0 g" by (simp_all add: generator_history_def gen_inv_def)
  show ?case
  proof (cases "next_candidate g")
    case None
    then show ?thesis
      using Suc.prems generator_next_spec(1) [OF core None] by (auto simp: next_candidate_None)
  next
    case (Some c)
    obtain a where a: "generator_next g = Inr (Some a)" "offers g c a"
      using generator_next_spec(2) [OF core Some] by auto
    obtain k where k: "fmlookup (gn_candidates g) k = Some c" using next_candidate_Some(1) [OF Some] ..
    obtain gn where gn: "generator_commit g a = Inr gn" "committed g c gn"
      using commit_spec [OF inv Some a(1)] by blast
    obtain rest where rest: "drain generator_next generator_commit n gn = Inr (rest, g')" "as = a # rest"
      using Suc.prems(2) a(1) gn(1) by (auto simp: bindE_Inr_iff)
    have cfg: "gn_cfg gn = gn_cfg g" "gn_committed gn = gn_committed g + 1"
      and final: "cd_kind c = action_expired \<longleftrightarrow> gn_candidates gn = fmempty"
      using gn(2) by (simp_all add: committed_def)
    note ih = Suc.IH [OF commit_history [OF Suc.prems(1) Some a(2) gn(2)] rest(1) Suc.prems(3)]
    have "drawn_within (gn_cfg g) a" by (rule offers_within [OF core k a(2)])
    moreover have "sa_due a = gc_duration (gn_cfg g)" if "cd_kind c = action_expired"
      using that gen_core_candidate(1,2) [OF core k] a(2)
      by (auto simp: due_ok_def Let_def offers_def ival_inject)
    moreover have "gn_candidates g \<noteq> fmempty" using k by auto
    moreover have "an_kind (sa_action a) = cd_kind c" using a(2) by (simp add: offers_def)
    ultimately show ?thesis using ih cfg final rest(2) by (auto simp: algebra_simps)
  qed
qed

lemma generator_runs:
  assumes ok: "validate_generator_config c = Inr ()"
  shows "\<exists>n g as g'. new_generator c = Inr g \<and> drain generator_next generator_commit n g = Inr (as, g') \<and>
    generator_next g' = Inr None"
proof -
  obtain g where g: "new_generator c = Inr g" "generator_history g []"
    using generator_starts [OF ok] .
  show ?thesis using g(1) gen.drain_all [OF g(2) lessI] by blast
qed

lemma drained_within:
  assumes "new_generator c = Inr g" and "drain generator_next generator_commit n g = Inr (as, g')"
    and "generator_next g' = Inr None"
  shows "list_all (drawn_within c) as"
proof -
  have ok: "validate_generator_config c = Inr ()"
    using assms(1) by (auto simp: new_generator_def bindE_Inr_iff)
  obtain start where "new_generator c = Inr start" "generator_history start []" "gn_cfg start = c"
    using generator_starts [OF ok] by metis
  then show ?thesis using drain_generator [OF _ assms(2,3), of "[]"] assms(1) by auto
qed

subsection \<open>Properties\<close>

definition sample_gen_config :: gen_config where
  "sample_gen_config = \<lparr>gc_version = 1, gc_seed = 7, gc_duration = 60000000000,
     gc_customer = \<lparr>iv_min = 1000000000, iv_max = 5000000000\<rparr>,
     gc_mark = \<lparr>iv_min = 4000000000, iv_max = 9000000000\<rparr>, gc_carry = 20000000000,
     gc_max_qty = 5000000, gc_max_slip = 40, gc_min_move = -150, gc_max_move = 150,
     gc_customer_domain = ''customer/v1'', gc_mark_domain = ''mark/v1'', gc_informed_domain = ''informed/v1''\<rparr>"

text \<open>C15. From every valid configuration the deterministic generator starts, and asking for the next
  action and committing it, again and again, always succeeds and ends after at most three times the
  duration (in nanoseconds) plus two rounds with nothing left to offer. The schedule it produces is
  ordered by due time, has no identifier twice, satisfies the validation that the sequencer applies,
  and its last action is the expiry, due exactly at the configured duration. The generator has
  counted each committed action.\<close>

theorem generator_schedule_complete:
  assumes "validate_generator_config c = Inr ()"
  shows "case bindE (new_generator c)
      (drain generator_next generator_commit (nat (3 * ival (gc_duration c) + 2))) of
    Inl _ \<Rightarrow> False
  | Inr (as, g) \<Rightarrow> generator_next g = Inr None \<and>
      sorted (map (\<lambda>a. ival (sa_due a)) as) \<and> distinct (map action_id as) \<and>
      list_all (\<lambda>a. validate_scheduled_action a = Inr ()) as \<and>
      as \<noteq> [] \<and> an_kind (sa_action (last as)) = action_expired \<and> sa_due (last as) = gc_duration c \<and>
      gs_committed (snapshot_generator g) = of_nat (length as)"
proof -
  obtain g where g: "new_generator c = Inr g" "generator_history g []" "gn_cfg g = c" "lasts g = 0"
    "gn_committed g = 0" "gn_candidates g \<noteq> fmempty"
    using generator_starts [OF assms] .
  have "nat (progress g) < nat (3 * ival (gc_duration c) + 2)"
    using g gen_configD(1) [OF assms] by (simp add: progress_def)
  from gen.drain_all [OF g(2) this] obtain as g' where
    d: "drain generator_next generator_commit (nat (3 * ival (gc_duration c) + 2)) g = Inr (as, g')"
       "generator_next g' = Inr None" "timeline [] as" by auto
  show ?thesis
    using g d timeline_from [OF d(3)] drain_generator [OF g(2) d(1,2)]
    by (auto simp: list_all_iff snapshot_generator_def)
qed

lemma generator_schedule_complete_witness:
  "case bindE (new_generator sample_gen_config)
      (drain generator_next generator_commit (nat (3 * ival (gc_duration sample_gen_config) + 2))) of
    Inl _ \<Rightarrow> False
  | Inr (as, g) \<Rightarrow> generator_next g = Inr None \<and>
      sorted (map (\<lambda>a. ival (sa_due a)) as) \<and> distinct (map action_id as) \<and>
      list_all (\<lambda>a. validate_scheduled_action a = Inr ()) as \<and>
      as \<noteq> [] \<and> an_kind (sa_action (last as)) = action_expired \<and> sa_due (last as) = gc_duration sample_gen_config \<and>
      gs_committed (snapshot_generator g) = of_nat (length as)"
  by (rule generator_schedule_complete) code_simp

text \<open>Every action of the generated schedule keeps the limits of its configuration: arrivals and
  moves fall strictly inside the session, an arrival's quantity is between one and the maximum, its
  slippage between zero and the maximum and its informed draw below ten thousand, a movement is
  within the configured range, also where an arrival previews it, and only the expiry falls at the
  end.\<close>

theorem generator_respects_limits:
  assumes "new_generator c = Inr g" and "drain generator_next generator_commit n g = Inr (as, g')"
    and "generator_next g' = Inr None"
  shows "list_all (drawn_within c) as"
  using drained_within [OF assms] .

lemma generator_respects_limits_witness:
  "\<exists>n g as g'. new_generator sample_gen_config = Inr g \<and> drain generator_next generator_commit n g = Inr (as, g') \<and>
     generator_next g' = Inr None \<and> list_all (drawn_within sample_gen_config) as"
proof -
  have ok: "validate_generator_config sample_gen_config = Inr ()" by code_simp
  then show ?thesis using generator_runs [OF ok] generator_respects_limits by blast
qed

text \<open>C16. The static schedule accepts exactly the lists of valid system actions that are ordered by due
  time and have distinct identifiers, and it replays an accepted list: asking and committing in turn
  yields the very list it was built from.\<close>

theorem static_schedule_roundtrip:
  "case new_static_schedule as of
     Inl _ \<Rightarrow> \<not> timeline [] as
   | Inr s \<Rightarrow> sorted (map (\<lambda>a. ival (sa_due a)) as) \<and> distinct (map action_id as) \<and>
       list_all (\<lambda>a. validate_scheduled_action a = Inr ()) as \<and>
       drain static_next static_commit (Suc (length as)) s = Inr (as, s\<lparr>ss_next := length as\<rparr>)"
proof (cases "new_static_schedule as")
  case (Inl err)
  then have "\<not> timeline [] as"
    using check_scheduled_complete [of "[]" as "{||}" None 0]
    by (auto simp: new_static_schedule_def bindE_Inl_iff)
  then show ?thesis using Inl by simp
next
  case (Inr s)
  have "timeline [] as" "ss_actions s = as" "ss_next s = 0"
    using static_schedule_ok [OF Inr] Inr by (auto simp: static_inv_def new_static_schedule_def bindE_Inr_iff)
  then show ?thesis
    using Inr drain_static [of s "Suc (length as)"] by (simp add: timeline_iff)
qed

end
