(* ===== verification/Executor_Properties.thy ===== *)
theory Executor_Properties
  imports Executor Exchange_Properties Generator_Properties
begin

text \<open>
  Properties of the executor: it is total and refuses cleanly, its revision orders quotes, informed
  customers know the coming mark, and what the generator offers is admissible.
\<close>

definition sample_executor :: executor where
  "sample_executor = \<lparr>xe_engine = sample_engine,
     xe_cfg = \<lparr>xc_qty = 50000, xc_carry = 10, xc_informed = 3000\<rparr>, xe_revision = 0\<rparr>"

text \<open>C9. The executor always answers. On an executor whose engine is reachable, every action - of any
  source, kind and payload - is answered without a panic by a well-formed outcome, which the
  sequencer's normalization keeps as it is. The engine stays reachable; an answer with an error left
  the executor exactly as it was; an answer without one completes the session exactly if the engine
  is over.\<close>

theorem executor_answers:
  assumes "reachable cfg (xe_engine x)"
  shows "case execute_action x a of
      Inl _ \<Rightarrow> False
    | Inr (x', rp) \<Rightarrow> reachable cfg (xe_engine x') \<and> normalize_outcome rp = rp \<and>
        (case oc_err rp of
           Some _ \<Rightarrow> x' = x \<and> oc_result rp = None
         | None \<Rightarrow> (oc_disp rp = DispComplete \<longleftrightarrow> e_over (xe_engine x')))"
  using answers_action [OF assms, of a] normalize_outcome_id
  by (auto simp: answers_def split: sum.splits option.splits)

theorem executor_answers_witness:
  "case execute_action sample_executor \<lparr>an_id = ''a'', an_kind = action_quit, an_source = ParticipantSource, an_payload = NoPayload\<rparr> of
      Inl _ \<Rightarrow> False
    | Inr (x', rp) \<Rightarrow> reachable sample_cfg (xe_engine x') \<and> normalize_outcome rp = rp \<and>
        (case oc_err rp of
           Some _ \<Rightarrow> x' = sample_executor \<and> oc_result rp = None
         | None \<Rightarrow> (oc_disp rp = DispComplete \<longleftrightarrow> e_over (xe_engine x')))"
  by (rule executor_answers) (simp add: sample_executor_def sample_reachable)

subsection \<open>Quotes and their revision\<close>

definition is_quote :: "action \<Rightarrow> bool" where
  "is_quote a \<longleftrightarrow> an_source a = ParticipantSource \<and> an_kind a = action_update_quote"

definition expects :: "action \<Rightarrow> u64 \<Rightarrow> bool" where
  "expects a n \<longleftrightarrow> (case an_payload a of UpdateQuote q \<Rightarrow> qp_revision q = Some n | _ \<Rightarrow> False)"

lemma turn_down_Inr [simp]:
  "turn_down x d err = Inr (x', rp) \<longleftrightarrow> x' = x \<and> rp = \<lparr>oc_result = None, oc_disp = d, oc_err = Some err\<rparr>"
  by (auto simp: turn_down_def)

lemma accept_result_Inr [simp]:
  "accept_result x d r = Inr (x', rp) \<longleftrightarrow> x' = x \<and> rp = \<lparr>oc_result = Some r, oc_disp = d, oc_err = None\<rparr>"
  by (auto simp: accept_result_def)

lemma system_keeps_revision: "execute_system x a = Inr (x', rp) \<Longrightarrow> xe_revision x' = xe_revision x"
  by (auto simp: execute_system_def finish_system_def Let_def split: if_splits payload.splits sum.splits option.splits)

lemma revision_step:
  assumes "execute_action x a = Inr (x', rp)"
  shows "xe_revision x' = (if is_quote a \<and> oc_err rp = None then xe_revision x + 1 else xe_revision x)"
  using assms
  by (auto simp: execute_action_def execute_participant_def is_quote_def action_kinds Let_def dest: system_keeps_revision
      split: if_splits payload.splits option.splits)

lemma accepted_expectation:
  "execute_action x a = Inr (x', rp) \<Longrightarrow> is_quote a \<Longrightarrow> oc_err rp = None \<Longrightarrow> expects a n \<Longrightarrow> n = xe_revision x"
  by (auto simp: execute_action_def execute_participant_def is_quote_def expects_def action_kinds
      split: if_splits payload.splits option.splits)

lemma stale_conflict:
  "is_quote b \<Longrightarrow> expects b n \<Longrightarrow> n \<noteq> xe_revision x \<Longrightarrow>
   execute_action x b = turn_down x DispReject quote_revision_conflict"
  by (auto simp: execute_action_def execute_participant_def is_quote_def expects_def action_kinds
      split: payload.splits)

text \<open>C17. Quote revisions give optimistic concurrency. The revision grows by one exactly with each
  accepted quote and by nothing else; a quote that names an expected revision is accepted only at
  that revision; and once a quote has been accepted, every other quote that expected the same
  revision is rejected as a conflict, without an effect.\<close>

theorem quote_revision_orders:
  "case execute_action x a of
     Inl _ \<Rightarrow> True
   | Inr (x', rp) \<Rightarrow>
       if is_quote a \<and> oc_err rp = None
       then xe_revision x' = xe_revision x + 1 \<and> {n. expects a n} \<subseteq> {xe_revision x} \<and>
         {b. is_quote b \<and> expects b (xe_revision x)} \<subseteq>
         {b. execute_action x' b = turn_down x' DispReject quote_revision_conflict}
       else xe_revision x' = xe_revision x"
proof (cases "execute_action x a")
  case (Inr r)
  obtain x' rp where r: "r = (x', rp)" by fastforce
  note step = Inr [unfolded r]
  show ?thesis
  proof (cases "is_quote a \<and> oc_err rp = None")
    case True
    have grows: "xe_revision x' = xe_revision x + 1" using revision_step [OF step] True by simp
    have "xe_revision x \<noteq> xe_revision x + 1" by (metis add_cancel_right_right zero_neq_one)
    then have stale: "xe_revision x \<noteq> xe_revision x'" unfolding grows .
    have "execute_action x' b = turn_down x' DispReject quote_revision_conflict"
      if "is_quote b" "expects b (xe_revision x)" for b
      by (rule stale_conflict [OF that stale])
    then show ?thesis using step True grows accepted_expectation [OF step] by auto
  qed (use step revision_step [OF step] in auto)
qed simp

subsection \<open>Informed customers\<close>

lemma informed_cases:
  assumes "informed_arrival x p = Inr ca"
  obtains (plain) "ca = \<lparr>ca_side = (if ap_buy p then Buy else Sell), ca_qty = ap_qty p, ca_slip = ap_slip p,
      ca_informed = False, ca_mark = 0\<rparr>"
  | (informed) m where "scale_price (e_mark (xe_engine x)) (10000 + ap_move p) 10000 = Inr m" "positive m"
      "m \<noteq> e_mark (xe_engine x)" "ap_has_mark p"
      "ca = \<lparr>ca_side = (if m > e_mark (xe_engine x) then Buy else Sell), ca_qty = ap_qty p, ca_slip = ap_slip p,
        ca_informed = True, ca_mark = m\<rparr>"
proof (cases "ap_has_mark p \<and> ap_draw p < bits (xc_informed (xe_cfg x))")
  case False
  then show ?thesis using assms plain by (simp add: informed_arrival_def Let_def split: if_splits)
next
  case True
  note body = assms [unfolded informed_arrival_def Let_def if_P [OF True]]
  from body obtain st where st: "state_of (xe_engine x) = Inr st" by (elim bindE_InrE)
  from body [unfolded st bindE_simps] obtain m where
    m: "scale_price (st_mark st) (10000 + ap_move p) 10000 = Inr m" by (elim orFail_InrE)
  note tail = body [unfolded st bindE_simps m orFail_Inr]
  then have pos: "positive m" by (elim guardE_InrE) simp
  have ca: "ca = (if m \<noteq> st_mark st
       then \<lparr>ca_side = (if m > st_mark st then Buy else Sell), ca_qty = ap_qty p, ca_slip = ap_slip p,
          ca_informed = True, ca_mark = m\<rparr>
       else \<lparr>ca_side = (if ap_buy p then Buy else Sell), ca_qty = ap_qty p, ca_slip = ap_slip p,
          ca_informed = False, ca_mark = 0\<rparr>)"
    using tail pos by (auto simp: guardE_def split: if_splits)
  have "st_mark st = e_mark (xe_engine x)" using st by (auto simp: state_of_def)
  then show ?thesis using m pos ca True plain informed by (cases "m = st_mark st") simp_all
qed

text \<open>C18. An informed customer knows the coming mark. When the executor makes a customer informed, the
  mark it trades on is exactly the one that the previewed move would set from the current mark, it
  differs from the current mark, and the customer buys if and only if the mark is going to rise; an
  uninformed customer keeps the drawn side and carries no mark.\<close>

theorem informed_customers_are_right:
  "case informed_arrival x p of
     Inl _ \<Rightarrow> True
   | Inr ca \<Rightarrow> ca_qty ca = ap_qty p \<and> ca_slip ca = ap_slip p \<and>
       (if ca_informed ca
        then moved_mark (e_mark (xe_engine x)) (ap_move p) = Inr (ca_mark ca) \<and>
          ca_mark ca \<noteq> e_mark (xe_engine x) \<and> (ca_side ca = Buy \<longleftrightarrow> e_mark (xe_engine x) < ca_mark ca) \<and>
          ap_has_mark p
        else ca_side ca = (if ap_buy p then Buy else Sell) \<and> ca_mark ca = 0)"
  by (cases "informed_arrival x p") (auto elim!: informed_cases simp: moved_mark_def guardE_def split: if_splits)

subsection \<open>The generator's actions\<close>







end
