(* ===== verification/Session_Venue.thy ===== *)
theory Session_Venue
  imports Session_Clock Session_Returns Executor_Properties
begin

text \<open>
  A session of the exchange: the sequencer's platform built from the deterministic generator and the
  exchange executor, with a clock that advances at each reading. It provides the contracts that
  \<open>Session_Time\<close> and \<open>Session_Returns\<close> ask of a platform.
\<close>

record venue =
  vn_gen :: generator
  vn_exec :: executor
  vn_reads :: nat

definition venue_time :: "venue \<Rightarrow> int" where
  "venue_time w = min (int (vn_reads w)) (clock_limit - 1)"

definition venue_ended :: "venue \<Rightarrow> bool" where
  "venue_ended w \<longleftrightarrow> next_candidate (vn_gen w) = None"

definition venue_next :: "venue \<Rightarrow> scheduled_action option res \<times> venue" where
  "venue_next w = (generator_next (vn_gen w), w)"

definition venue_commit :: "scheduled_action \<Rightarrow> venue \<Rightarrow> unit res \<times> venue" where
  "venue_commit a w =
     (case generator_commit (vn_gen w) a of Inl e \<Rightarrow> (Inl e, w) | Inr g \<Rightarrow> (Inr (), w\<lparr>vn_gen := g\<rparr>))"

definition venue_execute :: "action \<Rightarrow> duration \<Rightarrow> venue \<Rightarrow> result reply_of res \<times> venue" where
  "venue_execute a t w =
     (case execute_action (vn_exec w) a of Inl e \<Rightarrow> (Inl e, w) | Inr (x, rp) \<Rightarrow> (Inr rp, w\<lparr>vn_exec := x\<rparr>))"

definition venue_now :: "venue \<Rightarrow> instant res \<times> venue" where
  "venue_now w = (let w' = w\<lparr>vn_reads := vn_reads w + 1\<rparr> in (Inr (venue_time w'), w'))"

definition venue_platform :: "(venue, result) platform" where
  "venue_platform = \<lparr>pf_next = venue_next, pf_commit = venue_commit, pf_execute = venue_execute, pf_replay = None,
     pf_now = venue_now, pf_timer = (\<lambda>d w. (Inr (Some 0), w)), pf_channel = (\<lambda>t w. (Inr True, w)),
     pf_stop = (\<lambda>t w. (Inr (), w)), pf_countdown = 0, pf_countdown_action = None, pf_durable = False\<rparr>"

text \<open>What a call may do to the world.\<close>

lemma venue_calls:
  assumes "calls venue_platform w w'"
  shows "vn_gen w' = vn_gen w \<and> vn_reads w \<le> vn_reads w' \<or>
    (\<exists>a g. generator_commit (vn_gen w) a = Inr g \<and> w' = w\<lparr>vn_gen := g\<rparr>)"
  using assms
proof cases
  case neutral
  then show ?thesis
    by cases (auto simp: venue_platform_def venue_now_def Let_def)
next
  case (exec a t)
  then show ?thesis by (auto simp: venue_platform_def venue_execute_def split: sum.splits)
qed (auto simp: venue_platform_def venue_next_def venue_commit_def split: sum.splits)

lemma commit_head: "generator_commit g a = Inr g' \<Longrightarrow> generator_next g = Inr (Some a)"
  by (auto simp: generator_commit_def guardE_def fails_def split: option.splits if_splits)

lemma ended_head: "generator_next g = Inr None \<longleftrightarrow> next_candidate g = None"
  by (auto simp: generator_next_def split: option.splits)

lemma venue_monotone: "monotone_clock venue_platform venue_time"
  unfolding monotone_clock_def
proof (intro conjI allI impI)
  fix w w' t
  show "0 \<le> venue_time w" "venue_time w < clock_limit" by (simp_all add: venue_time_def clock_limit_def)
  show "calls venue_platform w w' \<Longrightarrow> venue_time w \<le> venue_time w'"
    by (drule venue_calls) (auto simp: venue_time_def)
  show "venue_time w \<le> t" "t \<le> venue_time w'" if "pf_now venue_platform w = (Inr t, w')"
    using that by (auto simp: venue_platform_def venue_now_def venue_time_def Let_def)
qed

lemma venue_stays_ended: "stays_ended venue_platform venue_ended"
  unfolding stays_ended_def
proof (intro conjI allI impI)
  fix w w' a
  show "venue_ended w'" if "pf_next venue_platform w = (Inr None, w')"
    using that by (auto simp: venue_platform_def venue_next_def venue_ended_def ended_head)
  show "\<not> venue_ended w" if "pf_next venue_platform w = (Inr (Some a), w')"
    using that by (auto simp: venue_platform_def venue_next_def venue_ended_def generator_next_def split: option.splits)
  show "calls venue_platform w w' \<Longrightarrow> venue_ended w \<Longrightarrow> venue_ended w'"
    by (drule venue_calls) (auto simp: venue_ended_def generator_next_def dest!: commit_head)
qed

interpretation venue: clocked venue_platform venue_time venue_ended
  by unfold_locales (rule venue_monotone venue_stays_ended)+

definition venue_valid :: "venue \<Rightarrow> bool" where
  "venue_valid w \<longleftrightarrow> (\<exists>h. generator_history (vn_gen w) h)"

interpretation venue_schedule: finite_schedule venue_platform venue_valid "\<lambda>w. nat (progress (vn_gen w))"
proof unfold_locales
  have step: "\<exists>h. generator_history g' h" "nat (progress g') < nat (progress g)"
    if "generator_history g h" "generator_commit g a = Inr g'" for g g' a h
    using gen.commit_total [OF that(1) commit_head [OF that(2)]] that(2) by auto
  fix w w' a
  show "venue_valid w' \<and> nat (progress (vn_gen w')) \<le> nat (progress (vn_gen w))"
    if "venue_valid w" "calls venue_platform w w'"
    using venue_calls [OF that(2)] that(1) step unfolding venue_valid_def by fastforce
  show "nat (progress (vn_gen w')) < nat (progress (vn_gen w))"
    if "venue_valid w" "pf_commit venue_platform a w = (Inr (), w')"
    using that step by (auto simp: venue_valid_def venue_platform_def venue_commit_def split: sum.splits)
qed

subsection \<open>A sample session\<close>

definition fresh_checkpoint :: checkpoint where
  "fresh_checkpoint = \<lparr>cp_status = Preparing, cp_elapsed = 0, cp_next = 0, cp_sequence = 0\<rparr>"

definition fresh_session :: "'w \<Rightarrow> ('w, 'r) sequencer" where
  "fresh_session w = \<lparr>sq_status = Preparing, sq_elapsed = 0, sq_anchor = 0, sq_next = 0, sq_sequence = 0,
     sq_failure = None, sq_timer = None, sq_candidate = None, sq_last_due = 0, sq_ids = {||},
     sq_start = zero_action, sq_countdown_anchor = 0, sq_accepting = True, sq_pending = [], sq_world = w\<rparr>"

definition opening_session :: "generator \<Rightarrow> (venue recorded, result) sequencer" where
  "opening_session g = fresh_session (\<lparr>vn_gen = g, vn_exec = sample_executor, vn_reads = 1\<rparr>, [])"

definition sample_quit :: action where
  "sample_quit = \<lparr>an_id = ''q'', an_kind = action_quit, an_source = ParticipantSource, an_payload = NoPayload\<rparr>"

definition sample_request :: "request_kind \<Rightarrow> (venue recorded, result) request" where
  "sample_request k = \<lparr>rq_kind = k, rq_received = 0, rq_action = sample_quit, rq_project = (\<lambda>_. fails [])\<rparr>"

lemma sample_generator: obtains g where "new_generator sample_gen_config = Inr g" "generator_history g []"
proof -
  have "validate_generator_config sample_gen_config = Inr ()" by code_simp
  then show thesis using generator_starts that by blast
qed

lemma venue_starts: "started (logged venue_platform) fresh_checkpoint (opening_session g)"
proof -
  let ?w = "(\<lparr>vn_gen = g, vn_exec = sample_executor, vn_reads = 0\<rparr>, [])"
  have "fst (new_sequencer (logged venue_platform) fresh_checkpoint ?w) = Inr (opening_session g)"
    by (simp add: new_sequencer_def fresh_checkpoint_def opening_session_def fresh_session_def logged_def
        venue_platform_def validate_checkpoint_def guardE_def current_time_def beside_def venue_now_def Let_def)
  then show ?thesis unfolding started_def by (metis prod.collapse)
qed

text \<open>Asking to quit, and the turn that serves it.\<close>

lemma sample_quit_completes:
  obtains x' rp where "execute_action sample_executor sample_quit = Inr (x', rp)" and "oc_disp rp = DispComplete"
    and "oc_err rp = None"
proof -
  have "case quit_real_time sample_engine of Inr (e, r, None) \<Rightarrow> True | _ \<Rightarrow> False" by code_simp
  then obtain e r where "quit_real_time sample_engine = Inr (e, r, None)" by (auto split: sum.splits option.splits)
  then have "\<exists>x' rp. execute_action sample_executor sample_quit = Inr (x', rp) \<and> oc_disp rp = DispComplete \<and> oc_err rp = None"
    by (simp add: execute_action_def execute_participant_def sample_quit_def sample_executor_def accept_result_def Let_def)
  then show thesis using that by blast
qed

lemma sample_quits:
  obtains s1 s2 out where "ask (logged venue_platform) None None (sample_request ReqCompleteAction) (opening_session g) = (None, s1)"
    and "sq_status s1 = Preparing" and "take_turn (logged venue_platform) s1 = Some (out, s2)"
    and "executed s2 = [(sample_quit, 0)]" and "sq_status s2 = Completed"
proof -
  define s1 where "s1 = snd (ask (logged venue_platform) None None (sample_request ReqCompleteAction) (opening_session g))"
  have norep: "pf_replay (logged venue_platform) = None" by (simp add: logged_def venue_platform_def)
  have valid: "check_request (sample_request ReqCompleteAction) = Inr ()" by code_simp
  have s1: "ask (logged venue_platform) None None (sample_request ReqCompleteAction) (opening_session g) = (None, s1)"
    "sq_status s1 = Preparing" "executed s1 = []" "sq_elapsed s1 = 0" "sq_timer s1 = None"
    and w: "vn_exec (fst (sq_world s1)) = sample_executor"
    and "sq_pending s1 = [(sample_request ReqCompleteAction)\<lparr>rq_received := venue_time
      \<lparr>vn_gen = g, vn_exec = sample_executor, vn_reads = Suc (Suc 0)\<rparr>\<rparr>]"
    unfolding s1_def
    by (simp_all add: ask_def valid admit_def opening_session_def fresh_session_def on_world_def current_time_def
        logged_def beside_def venue_platform_def venue_now_def executed_def Let_def)
  then obtain t where q: "sq_pending s1 = [(sample_request ReqCompleteAction)\<lparr>rq_received := t\<rparr>]" by blast
  let ?q = "(sample_request ReqCompleteAction)\<lparr>rq_received := t\<rparr>" and ?s = "s1\<lparr>sq_pending := []\<rparr>"
  obtain x s3 where x: "exec_action (logged venue_platform) sample_quit 0 ?s = (x, s3)" by fastforce
  note sel = exec_sel [OF x]
  have ex: "executed s3 = [(sample_quit, 0)]" using logged_exec [OF x] s1(3) by (simp add: executed_def)
  obtain x' rp where rp: "execute_action sample_executor sample_quit = Inr (x', rp)" "oc_disp rp = DispComplete"
    "oc_err rp = None" by (rule sample_quit_completes)
  have "ex_disp x = DispComplete"
    using x rp w by (auto simp: exec_action_def on_world_def logged_def venue_platform_def venue_execute_def
        normalize_outcome_def Let_def)
  then have "executed (snd (complete_now (logged venue_platform) ?q 0 ?s)) = [(sample_quit, 0)] \<and>
      sq_status (snd (complete_now (logged venue_platform) ?q 0 ?s)) = Completed"
    using x sel ex s1
    by (simp add: complete_now_def sample_request_def snapshot_reply_def stop_timer_def executed_def Let_def)
  moreover have "handle_request (logged venue_platform) ?q ?s =
      Some (alone (complete_now (logged venue_platform) ?q 0 ?s))"
    using s1 norep by (simp add: handle_request_def sample_request_def carries_action_def replay_def countdown_over_def
        serve_def handle_complete_action_def)
  ultimately have "\<exists>out s2. take_turn (logged venue_platform) s1 = Some (out, s2) \<and> executed s2 = [(sample_quit, 0)] \<and>
      sq_status s2 = Completed"
    using q by (auto simp: take_turn_def dequeue_def alone_def)
  then show thesis using that s1(1,2) by blast
qed

text \<open>Asking to close, and the turn that closes.\<close>

lemma sample_closes:
  obtains s1 s2 out where "ask (logged venue_platform) None None (sample_request ReqClose) (opening_session g) = (None, s1)"
    and "sq_status s1 = Preparing" and "take_turn (logged venue_platform) s1 = Some (out, s2)" and "sq_status s2 = Closed"
    and "sq_pending s1 = [(sample_request ReqClose)\<lparr>rq_received := 2\<rparr>]"
proof -
  define s1 where "s1 = snd (ask (logged venue_platform) None None (sample_request ReqClose) (opening_session g))"
  have s1: "ask (logged venue_platform) None None (sample_request ReqClose) (opening_session g) = (None, s1)"
    "sq_status s1 = Preparing" "sq_timer s1 = None"
    and q: "sq_pending s1 = [(sample_request ReqClose)\<lparr>rq_received := 2\<rparr>]"
    unfolding s1_def
    by (simp_all add: venue_time_def clock_limit_def ask_def check_request_def sample_request_def admit_def opening_session_def fresh_session_def
        on_world_def current_time_def logged_def beside_def venue_platform_def venue_now_def Let_def)
  then have "\<exists>out s2. take_turn (logged venue_platform) s1 = Some (out, s2) \<and> sq_status s2 = Closed"
    by (simp add: take_turn_def dequeue_def handle_request_def sample_request_def carries_action_def
        countdown_over_def serve_def handle_close_def close_now_def stop_admission_def stop_timer_def Let_def)
  then show thesis using that s1(1,2) q by blast
qed

end
