(* ===== verification/Session_Properties.thy ===== *)
theory Session_Properties
  imports Session_Venue
begin

text \<open>
  Properties of the sequencer: the lifecycle and the numbering of executions, finality, the order of
  logical time, restorable snapshots, an answer to every request, and closing.
\<close>

lemma sample_steps:
  assumes "ask (logged venue_platform) None None q (opening_session g) = (None, s1)" and "sq_status s1 = Preparing"
    and "take_turn (logged venue_platform) s1 = Some (out, s2)"
  shows "(step (logged venue_platform))\<^sup>*\<^sup>* (opening_session g) s2"
    and "(clock_step venue_platform venue_time venue_ended)\<^sup>*\<^sup>* (opening_session g) s2"
proof -
  have "step (logged venue_platform) (opening_session g) s1" "step (logged venue_platform) s1 s2"
    using assms by (auto intro: step.asks step.turn)
  then show "(step (logged venue_platform))\<^sup>*\<^sup>* (opening_session g) s2" by (meson rtranclp.simps)
  have "clock_step venue_platform venue_time venue_ended (opening_session g) s1"
    "clock_step venue_platform venue_time venue_ended s1 s2"
    using assms by (auto intro: clock_step.asks clock_step.turn)
  then show "(clock_step venue_platform venue_time venue_ended)\<^sup>*\<^sup>* (opening_session g) s2" by (meson rtranclp.simps)
qed



text \<open>C22. The end is final. Once a session is completed, failed or closed, nothing is executed any more,
  whatever is asked and whenever a timer fires: the list of executions and their number stay as they
  are, and the session stays completed, failed or closed; a closed one stays closed.\<close>

theorem end_is_final:
  assumes "started (logged p) c s0" and "(step (logged p))\<^sup>*\<^sup>* s0 s" and "(step (logged p))\<^sup>*\<^sup>* s s'"
    and "sq_status s \<in> {Completed, Failed, Closed}"
  shows "executed s' = executed s \<and> sq_sequence s' = sq_sequence s \<and>
    sq_status s' \<in> (if sq_status s = Closed then {Closed} else {Completed, Failed, Closed})"
proof -
  have "reached s0 s" by (rule steps_reached [OF assms(2) started_sane [OF assms(1)]])
  then have "reached s s'" by (intro steps_reached [OF assms(3)]) (simp add: reached_def)
  moreover have "lifecycle\<^sup>*\<^sup>* a b \<Longrightarrow> a \<in> {Completed, Failed, Closed} \<Longrightarrow>
      b \<in> {Completed, Failed, Closed} \<and> (a = Closed \<longrightarrow> b = Closed)" for a b
    by (induction rule: rtranclp_induct) auto
  ultimately show ?thesis using assms(4) by (auto simp: reached_def extends_def)
qed

lemma end_is_final_witness:
  "\<exists>g s. (step (logged venue_platform))\<^sup>*\<^sup>* (opening_session g) s \<and> sq_status s = Completed \<and>
     {s'. (step (logged venue_platform))\<^sup>*\<^sup>* s s'} \<subseteq> {s'. executed s' = [(sample_quit, 0)]}"
proof -
  obtain g where "new_generator sample_gen_config = Inr g" by (rule sample_generator)
  obtain s1 s2 out where s: "ask (logged venue_platform) None None (sample_request ReqCompleteAction) (opening_session g) = (None, s1)"
    "sq_status s1 = Preparing" "take_turn (logged venue_platform) s1 = Some (out, s2)"
    "executed s2 = [(sample_quit, 0)]" "sq_status s2 = Completed"
    by (rule sample_quits)
  show ?thesis
    using end_is_final [OF venue_starts sample_steps(1) [OF s(1-3)]] sample_steps(1) [OF s(1-3)] s(4,5)
    by auto
qed

text \<open>C20. Logical time never runs back. With a monotone clock and a schedule that stays finished once it
  is, the executions of a fresh session are ordered by logical time, none is before zero, and they
  are numbered without a gap - whatever the requests, pauses, resumptions, late timers and waiting
  times in between, as long as fewer than \<open>2\<^sup>6\<^sup>4\<close> actions have been executed.\<close>

theorem time_never_runs_back:
  assumes "monotone_clock p clk" and "stays_ended p ended"
    and "started (logged p) c s0" and "cp_status c = Preparing" and "executed s0 = []"
    and "(clock_step p clk ended)\<^sup>*\<^sup>* s0 s" and "length (executed s) < 2 ^ 64"
  shows "sorted (map (\<lambda>x. ival (snd x)) (executed s)) \<and> list_all (\<lambda>x. 0 \<le> ival (snd x)) (executed s) \<and>
    uint (sq_sequence s) = int (length (executed s))"
proof -
  have "timing clk ended m s" if "punctual clk ended m s" for m
    using that assms(7) by (simp add: punctual_def small_def)
  then show ?thesis
    using clocked_run [OF assms(1-6)] by (fastforce simp: timing_def times_def list_all_iff)
qed

lemma time_never_runs_back_witness:
  "\<exists>g s. (clock_step venue_platform venue_time venue_ended)\<^sup>*\<^sup>* (opening_session g) s \<and>
     executed s = [(sample_quit, 0)] \<and> uint (sq_sequence s) = 1"
proof -
  obtain g where "new_generator sample_gen_config = Inr g" by (rule sample_generator)
  obtain s1 s2 out where s: "ask (logged venue_platform) None None (sample_request ReqCompleteAction) (opening_session g) = (None, s1)"
    "sq_status s1 = Preparing" "take_turn (logged venue_platform) s1 = Some (out, s2)"
    "executed s2 = [(sample_quit, 0)]"
    by (rule sample_quits)
  have "executed (opening_session g) = []" by (simp add: opening_session_def fresh_session_def executed_def)
  then show ?thesis
    using time_never_runs_back [OF venue_monotone venue_stays_ended venue_starts _ _ sample_steps(2) [OF s(1-3)]]
      sample_steps(2) [OF s(1-3)] s(4)
    by (auto simp: fresh_checkpoint_def)
qed



text \<open>C24. Every request is answered. On a platform whose schedule can be used up - as the generator's
  can, whatever the executor does - the loop over due actions ends, so in every state that a session
  can reach the turn of the loop and the firing of the timer return.\<close>

theorem every_turn_returns:
  assumes "finite_schedule p valid left" and "started p c s0" and "valid (sq_world s0)" and "(step p)\<^sup>*\<^sup>* s0 s"
  shows "take_turn p s \<noteq> None \<and> fired p now s \<noteq> None"
proof -
  note good = finite_schedule.good_steps [OF assms(1,4) finite_schedule.good_start [OF assms(1-3)]]
  show ?thesis using finite_schedule.turn_returns [OF assms(1) good] finite_schedule.fired_returns [OF assms(1) good] by simp
qed

lemma every_turn_returns_witness:
  "\<exists>s :: (venue, result) sequencer. started venue_platform fresh_checkpoint s \<and> take_turn venue_platform s \<noteq> None \<and>
     fired venue_platform 0 s \<noteq> None"
proof -
  obtain g where g: "generator_history g []" by (rule sample_generator)
  let ?s = "fresh_session \<lparr>vn_gen = g, vn_exec = sample_executor, vn_reads = 1\<rparr> :: (venue, result) sequencer"
  let ?w = "\<lparr>vn_gen = g, vn_exec = sample_executor, vn_reads = 0\<rparr>"
  have "fst (new_sequencer venue_platform fresh_checkpoint ?w) = Inr ?s"
    by (simp add: new_sequencer_def fresh_checkpoint_def fresh_session_def
        venue_platform_def validate_checkpoint_def guardE_def current_time_def venue_now_def Let_def)
  then have "started venue_platform fresh_checkpoint ?s" unfolding started_def by (metis prod.collapse)
  moreover have "venue_valid (sq_world ?s)" using g by (auto simp: venue_valid_def fresh_session_def)
  ultimately show ?thesis
    using every_turn_returns [OF venue_schedule.finite_schedule_axioms _ _ rtranclp.rtrancl_refl] by blast
qed



end
