(* ===== verification/Durable_Action.thy ===== *)
theory Durable_Action
  imports Realtime_Action
begin

text \<open>
  The durable form of an action (\<^verbatim>\<open>internal/realtime/action.go\<close>): \<^verbatim>\<open>EncodeAction\<close>, \<^verbatim>\<open>Decode\<close> and the
  strict payload decoder, over JSON values. A raw payload is empty, bytes that are one JSON value, or
  other bytes. Of \<^verbatim>\<open>encoding/json\<close> the source uses: marshalling of structs with \<^verbatim>\<open>omitempty\<close>, decoding
  into a struct without unknown fields - keys match a field exactly or up to case folding, a later
  key overwrites an earlier one, \<^verbatim>\<open>null\<close> leaves a field as it is - and the conversion of literals.
\<close>

subsection \<open>JSON values\<close>

datatype json =
    JNull
  | JBool bool
  | JNum string
  | JStr string
  | JArr "json list"
  | JObj "(string \<times> json) list"

datatype raw_payload = RawEmpty | RawBroken | RawValue json

record durable_action =
  da_id :: string
  da_kind :: string
  da_source :: source
  da_payload :: raw_payload

subsection \<open>Encoding\<close>

definition reason_text :: "pause_reason \<Rightarrow> string" where
  "reason_text r = (case r of PausePlayer \<Rightarrow> ''player'' | PauseShutdown \<Rightarrow> ''shutdown''
     | PauseRecovery \<Rightarrow> ''recovery'' | OtherPause t \<Rightarrow> t)"

definition show_u64 :: "u64 \<Rightarrow> string" where
  "show_u64 n = show_dec (uint n)"

definition marshal_payload :: "payload \<Rightarrow> json" where
  "marshal_payload p =
     (case p of
        NoPayload \<Rightarrow> JNull
      | StartSession b a \<Rightarrow> JObj [(''bid'', JStr (show_price b)), (''ask'', JStr (show_price a))]
      | CountdownComplete b a \<Rightarrow> JObj [(''bid'', JStr (show_price b)), (''ask'', JStr (show_price a))]
      | PauseSession r \<Rightarrow> JObj [(''reason'', JStr (reason_text r))]
      | UpdateQuote q \<Rightarrow> JObj ([(''bid'', JStr (show_price (qp_bid q))), (''ask'', JStr (show_price (qp_ask q)))] @
          (case qp_revision q of None \<Rightarrow> [] | Some n \<Rightarrow> [(''expected_revision'', JNum (show_u64 n))]))
      | CustomerArrival c \<Rightarrow> JObj ([(''buy'', JBool (ap_buy c)), (''quantity'', JStr (show_qty (ap_qty c))),
          (''slippage_bps'', JNum (format_int (ap_slip c))), (''informed_draw'', JNum (show_u64 (ap_draw c))),
          (''has_upcoming_mark'', JBool (ap_has_mark c))] @
          (if ap_move c = 0 then [] else [(''upcoming_mark_move_bps'', JNum (format_int (ap_move c)))]))
      | MarkMove m \<Rightarrow> JObj [(''basis_points'', JNum (format_int m))]
      | OtherPayload t \<Rightarrow> JStr t)"

definition encode_action :: "action \<Rightarrow> durable_action res" where
  "encode_action a =
     guardE (an_source a \<noteq> SystemSource \<and> an_source a \<noteq> ParticipantSource) ''invalid action source''
     (bindE (validate_action a (an_source a)) (\<lambda>_.
      bindE (validate_payload_type a) (\<lambda>_.
      Inr \<lparr>da_id = an_id a, da_kind = an_kind a, da_source = an_source a,
        da_payload = (if an_payload a = NoPayload then RawEmpty else RawValue (marshal_payload (an_payload a)))\<rparr>)))"

subsection \<open>Decoding a payload\<close>

text \<open>No object of the value, at any depth, has a key twice.\<close>

fun unique_keys :: "json \<Rightarrow> bool" where
  "unique_keys (JObj kvs) \<longleftrightarrow> distinct (map fst kvs) \<and> (\<forall>kv \<in> set kvs. unique_keys (snd kv))"
| "unique_keys (JArr vs) \<longleftrightarrow> (\<forall>v \<in> set vs. unique_keys v)"
| "unique_keys _ \<longleftrightarrow> True"

text \<open>Case folding of keys, as far as it can reach an ASCII name: \<^verbatim>\<open>U+017F\<close> folds to \<open>S\<close> and \<^verbatim>\<open>U+212A\<close>
  to \<open>K\<close>.\<close>

definition upper :: "char \<Rightarrow> char" where
  "upper c = (if (97::nat) \<le> of_char c \<and> of_char c \<le> (122::nat) then char_of (of_char c - (32::nat)) else c)"

fun fold_key :: "string \<Rightarrow> string" where
  "fold_key (a # b # c # s) =
     (if a = CHR 0xE2 \<and> b = CHR 0x84 \<and> c = CHR 0xAA then CHR ''K'' # fold_key s
      else if a = CHR 0xC5 \<and> b = CHR 0xBF then CHR ''S'' # fold_key (c # s)
      else upper a # fold_key (b # c # s))"
| "fold_key [a, b] =
     (if a = CHR 0xC5 \<and> b = CHR 0xBF then [CHR ''S''] else [upper a, upper b])"
| "fold_key s = map upper s"

type_synonym 't setter = "json \<Rightarrow> 't \<Rightarrow> 't res"

definition find_field :: "(string \<times> 't setter) list \<Rightarrow> string \<Rightarrow> 't setter option" where
  "find_field fs k =
     (case map_of fs k of
        Some f \<Rightarrow> Some f
      | None \<Rightarrow> map_option snd (find (\<lambda>(n, _). fold_key n = fold_key k) fs))"

definition decode_struct :: "(string \<times> 't setter) list \<Rightarrow> 't \<Rightarrow> (string \<times> json) list \<Rightarrow> 't res" where
  "decode_struct fs zero kvs =
     foldE (\<lambda>t (k, v). case find_field fs k of
         None \<Rightarrow> Inl (Errorf ''json: unknown field %q'' [k])
       | Some f \<Rightarrow> f v t) zero kvs"

definition decode_payload ::
  "raw_payload \<Rightarrow> (string \<times> 't setter) list \<Rightarrow> 't \<Rightarrow> string list \<Rightarrow> 't res" where
  "decode_payload raw fs zero required =
     (case raw of
        RawEmpty \<Rightarrow> fails ''action payload is required''
      | RawBroken \<Rightarrow> fails ''action payload must contain one JSON value''
      | RawValue v \<Rightarrow>
          if v = JNull then fails ''action payload cannot be null''
          else if \<not> unique_keys v then fails ''action payload contains a duplicate key''
          else (case v of
              JObj kvs \<Rightarrow>
                (case find (\<lambda>r. r \<notin> set (map fst kvs)) required of
                   Some r \<Rightarrow> fails (''action payload is missing required field '' @ r)
                 | None \<Rightarrow> decode_struct fs zero kvs)
            | _ \<Rightarrow> fails ''json: cannot unmarshal value into map''))"

subsection \<open>Values\<close>

definition fixed_value :: "i64 \<Rightarrow> json \<Rightarrow> i64 res" where
  "fixed_value scale v =
     (case v of JStr s \<Rightarrow> parse s scale | JNum s \<Rightarrow> parse s scale | _ \<Rightarrow> fails ''invalid decimal'')"

definition parse_int :: "string \<Rightarrow> i64 option" where
  "parse_int s =
     (case s of
        [] \<Rightarrow> None
      | c # ds \<Rightarrow>
          let neg = (c = CHR ''-''); digits = (if neg \<or> c = CHR ''+'' then ds else s) in
          if digits = [] \<or> \<not> list_all is_digit digits then None
          else let n = int (digits_val digits); v = (if neg then - n else n)
               in if fits v then Some (i64_of v) else None)"

definition keeps_or :: "(json \<Rightarrow> 'v res) \<Rightarrow> ('v \<Rightarrow> 't \<Rightarrow> 't) \<Rightarrow> 't setter" where
  "keeps_or value put v t = (if v = JNull then Inr t else bindE (value v) (\<lambda>x. Inr (put x t)))"

definition bool_value :: "json \<Rightarrow> bool res" where
  "bool_value v = (case v of JBool b \<Rightarrow> Inr b | _ \<Rightarrow> fails ''json: cannot unmarshal into bool'')"

definition text_value :: "json \<Rightarrow> string res" where
  "text_value v = (case v of JStr s \<Rightarrow> Inr s | _ \<Rightarrow> fails ''json: cannot unmarshal into string'')"

definition int_value :: "json \<Rightarrow> i64 res" where
  "int_value v = (case v of
     JNum s \<Rightarrow> (case parse_int s of None \<Rightarrow> fails ''json: cannot unmarshal number'' | Some n \<Rightarrow> Inr n)
   | _ \<Rightarrow> fails ''json: cannot unmarshal into int64'')"

definition uint_value :: "json \<Rightarrow> u64 res" where
  "uint_value v = (case v of
     JNum s \<Rightarrow> (case parse_uint s of None \<Rightarrow> fails ''json: cannot unmarshal number'' | Some n \<Rightarrow> Inr n)
   | _ \<Rightarrow> fails ''json: cannot unmarshal into uint64'')"

text \<open>A pointer: \<^verbatim>\<open>null\<close> is \<^verbatim>\<open>nil\<close>.\<close>

definition revision_value :: "quote_payload setter" where
  "revision_value v q =
     (if v = JNull then Inr (q\<lparr>qp_revision := None\<rparr>)
      else bindE (uint_value v) (\<lambda>n. Inr (q\<lparr>qp_revision := Some n\<rparr>)))"

subsection \<open>The payload types\<close>

definition price_setter :: "(price \<Rightarrow> 't \<Rightarrow> 't) \<Rightarrow> 't setter" where
  "price_setter put v t = bindE (fixed_value price_scale v) (\<lambda>x. Inr (put x t))"

definition pair_fields :: "(string \<times> (price \<times> price) setter) list" where
  "pair_fields = [(''bid'', price_setter (\<lambda>x (b, a). (x, a))), (''ask'', price_setter (\<lambda>x (b, a). (b, x)))]"

definition reason_fields :: "(string \<times> string setter) list" where
  "reason_fields = [(''reason'', keeps_or text_value (\<lambda>x _. x))]"

definition quote_fields :: "(string \<times> quote_payload setter) list" where
  "quote_fields = [(''bid'', price_setter (\<lambda>x q. q\<lparr>qp_bid := x\<rparr>)), (''ask'', price_setter (\<lambda>x q. q\<lparr>qp_ask := x\<rparr>)),
     (''expected_revision'', revision_value)]"

definition arrival_fields :: "(string \<times> arrival_payload setter) list" where
  "arrival_fields = [(''buy'', keeps_or bool_value (\<lambda>x p. p\<lparr>ap_buy := x\<rparr>)),
     (''quantity'', \<lambda>v p. bindE (fixed_value qty_scale v) (\<lambda>x. Inr (p\<lparr>ap_qty := x\<rparr>))),
     (''slippage_bps'', keeps_or int_value (\<lambda>x p. p\<lparr>ap_slip := x\<rparr>)),
     (''informed_draw'', keeps_or uint_value (\<lambda>x p. p\<lparr>ap_draw := x\<rparr>)),
     (''has_upcoming_mark'', keeps_or bool_value (\<lambda>x p. p\<lparr>ap_has_mark := x\<rparr>)),
     (''upcoming_mark_move_bps'', keeps_or int_value (\<lambda>x p. p\<lparr>ap_move := x\<rparr>))]"

definition move_fields :: "(string \<times> i64 setter) list" where
  "move_fields = [(''basis_points'', keeps_or int_value (\<lambda>x _. x))]"

definition zero_quote :: quote_payload where
  "zero_quote = \<lparr>qp_bid = 0, qp_ask = 0, qp_revision = None\<rparr>"

definition zero_arrival :: arrival_payload where
  "zero_arrival = \<lparr>ap_buy = False, ap_qty = 0, ap_slip = 0, ap_draw = 0, ap_has_mark = False, ap_move = 0\<rparr>"

definition reason_of :: "string \<Rightarrow> pause_reason" where
  "reason_of t = (if t = ''player'' then PausePlayer else if t = ''shutdown'' then PauseShutdown
     else if t = ''recovery'' then PauseRecovery else OtherPause t)"

subsection \<open>Decoding an action\<close>

definition decode_action :: "durable_action \<Rightarrow> action res" where
  "decode_action d =
     (let a = \<lparr>an_id = da_id d, an_kind = da_kind d, an_source = da_source d, an_payload = NoPayload\<rparr>;
          participant = (da_source d = ParticipantSource); system = (da_source d = SystemSource);
          empty = (da_payload d = RawEmpty); with = (\<lambda>p. a\<lparr>an_payload := p\<rparr>)
      in
      guardE (\<not> system \<and> \<not> participant) ''invalid action source''
      (bindE (validate_action a (da_source d)) (\<lambda>_.
       if da_kind d = action_start
       then guardE (\<not> participant) ''start action must come from a participant''
         (bindE (decode_payload (da_payload d) pair_fields (0, 0) [''bid'', ''ask'']) (\<lambda>(b, k).
          Inr (with (StartSession b k))))
       else if da_kind d = action_countdown
       then guardE (\<not> system) ''countdown action is invalid''
         (if empty then Inr a
          else bindE (decode_payload (da_payload d) pair_fields (0, 0) [''bid'', ''ask'']) (\<lambda>(b, k).
            Inr (with (CountdownComplete b k))))
       else if da_kind d = action_pause
       then bindE (decode_payload (da_payload d) reason_fields '''' [''reason'']) (\<lambda>t.
         bindE (validate_durable_pause (da_source d) (reason_of t)) (\<lambda>_. Inr (with (PauseSession (reason_of t)))))
       else if da_kind d = action_resume
       then guardE (\<not> participant \<or> \<not> empty) ''resume action is invalid'' (Inr a)
       else if da_kind d = action_quit
       then guardE (\<not> participant \<or> \<not> empty) ''quit action is invalid'' (Inr a)
       else if da_kind d = action_update_quote
       then guardE (\<not> participant) ''quote action must come from a participant''
         (bindE (decode_payload (da_payload d) quote_fields zero_quote [''bid'', ''ask'']) (\<lambda>q.
          Inr (with (UpdateQuote q))))
       else if da_kind d = action_arrival
       then guardE (\<not> system) ''customer action must come from the system''
         (bindE (decode_payload (da_payload d) arrival_fields zero_arrival
            [''buy'', ''quantity'', ''slippage_bps'', ''informed_draw'', ''has_upcoming_mark'']) (\<lambda>p.
          Inr (with (CustomerArrival p))))
       else if da_kind d = action_mark_move
       then guardE (\<not> system) ''mark action must come from the system''
         (bindE (decode_payload (da_payload d) move_fields 0 [''basis_points'']) (\<lambda>m. Inr (with (MarkMove m))))
       else if da_kind d = action_carry \<or> da_kind d = action_expired
       then guardE (\<not> system \<or> \<not> empty) ''payload-free action is invalid'' (Inr a)
       else fails ''unsupported durable action kind'')))"

subsection \<open>What is encoded is decoded\<close>

lemma parse_show [simp]: "parse (show_price v) price_scale = Inr v" "parse (show_qty v) qty_scale = Inr v"
  using parse_format decimal_scales by (simp_all add: show_price_def show_qty_def)

lemma parse_uint_show [simp]: "parse_uint (show_u64 n) = Some n"
  using parse_uint_digits [of "show_nat (unat n)"] show_nat_digits [of "unat n"] unsigned_less [of n, where ?'a = nat]
  by (simp add: show_u64_def show_dec_uint)

lemma not_digits: "\<not> is_digit CHR ''-''" "\<not> is_digit CHR ''+''"
  by (simp_all add: is_digit_def)

lemma show_nat_first: "show_nat n = c # ds \<Longrightarrow> c \<noteq> CHR ''-'' \<and> c \<noteq> CHR ''+''"
  using show_nat_digits [of n] not_digits by auto

lemma parse_int_format [simp]: "parse_int (format_int v) = Some v"
proof (cases "v < 0")
  case True
  let ?n = "nat (- ival v)"
  have "int ?n = - ival v" using True by (simp add: i64_order)
  then have "fits (- int (digits_val (show_nat ?n))) \<and> i64_of (- int (digits_val (show_nat ?n))) = v" by simp
  then show ?thesis
    using True show_nat_digits [of ?n] by (simp add: format_int_nat parse_int_def Let_def)
next
  case False
  let ?n = "nat (ival v)"
  have n: "int ?n = ival v" using False by (simp add: i64_order not_less)
  obtain c ds where cs: "show_nat ?n = c # ds" using show_nat_not_Nil by (cases "show_nat ?n") auto
  have "parse_int (c # ds) = Some v"
    using show_nat_first [OF cs] show_nat_digits [of ?n] digits_val_show_nat [of ?n] n
    by (simp add: parse_int_def Let_def cs)
  then show ?thesis using False cs by (simp add: format_int_nat)
qed

lemma keeps_or_value [simp]: "v \<noteq> JNull \<Longrightarrow> keeps_or value put v t = bindE (value v) (\<lambda>x. Inr (put x t))"
  by (simp add: keeps_or_def)

lemmas decode_simps = decode_payload_def decode_struct_def find_field_def marshal_payload_def

lemma decode_pair:
  "decode_payload (RawValue (marshal_payload (StartSession b k))) pair_fields (0, 0) [''bid'', ''ask''] = Inr (b, k)"
  "decode_payload (RawValue (marshal_payload (CountdownComplete b k))) pair_fields (0, 0) [''bid'', ''ask''] = Inr (b, k)"
  by (simp_all add: decode_simps pair_fields_def price_setter_def fixed_value_def)

lemma decode_reason:
  "decode_payload (RawValue (marshal_payload (PauseSession r))) reason_fields [] [''reason''] = Inr (reason_text r)"
  by (simp add: decode_simps reason_fields_def text_value_def)

lemma decode_quote:
  "decode_payload (RawValue (marshal_payload (UpdateQuote q))) quote_fields zero_quote [''bid'', ''ask''] = Inr q"
  by (cases "qp_revision q")
    (auto simp: decode_simps quote_fields_def price_setter_def fixed_value_def revision_value_def uint_value_def
      zero_quote_def)

lemma decode_arrival:
  "decode_payload (RawValue (marshal_payload (CustomerArrival c))) arrival_fields zero_arrival
     [''buy'', ''quantity'', ''slippage_bps'', ''informed_draw'', ''has_upcoming_mark''] = Inr c"
  by (cases c) (simp add: decode_simps arrival_fields_def fixed_value_def uint_value_def int_value_def bool_value_def
      zero_arrival_def)

lemma decode_move:
  "decode_payload (RawValue (marshal_payload (MarkMove m))) move_fields 0 [''basis_points''] = Inr m"
  by (simp add: decode_simps move_fields_def int_value_def)

lemma reason_text_of: "validate_durable_pause src r = Inr () \<Longrightarrow> reason_of (reason_text r) = r"
  by (cases r) (auto simp: validate_durable_pause_def validate_reason_def reason_text_def reason_of_def fails_def)

text \<open>The shapes that the payload check admits.\<close>

lemma payload_cases:
  assumes "validate_payload_type a = Inr ()"
  obtains (start) b k where "an_kind a = action_start" "an_source a = ParticipantSource" "an_payload a = StartSession b k"
    | (counted) "an_kind a = action_countdown" "an_source a = SystemSource" "an_payload a = NoPayload"
    | (countdown) b k where "an_kind a = action_countdown" "an_source a = SystemSource" "an_payload a = CountdownComplete b k"
    | (pause) r where "an_kind a = action_pause" "an_payload a = PauseSession r"
        "validate_durable_pause (an_source a) r = Inr ()"
    | (bare) "an_kind a \<in> {action_resume, action_quit}" "an_source a = ParticipantSource" "an_payload a = NoPayload"
    | (quote) q where "an_kind a = action_update_quote" "an_source a = ParticipantSource" "an_payload a = UpdateQuote q"
    | (arrival) c where "an_kind a = action_arrival" "an_source a = SystemSource" "an_payload a = CustomerArrival c"
    | (move) m where "an_kind a = action_mark_move" "an_source a = SystemSource" "an_payload a = MarkMove m"
    | (system) "an_kind a \<in> {action_carry, action_expired}" "an_source a = SystemSource" "an_payload a = NoPayload"
  using assms unfolding validate_payload_type_def Let_def guardE_def fails_def
  by (auto split: if_splits payload.splits)

lemma decode_encode:
  assumes "encode_action a = Inr d"
  shows "decode_action d = Inr a"
proof -
  have src: "an_source a = SystemSource \<or> an_source a = ParticipantSource"
    and v: "validate_action a (an_source a) = Inr ()" and t: "validate_payload_type a = Inr ()"
    and d: "d = \<lparr>da_id = an_id a, da_kind = an_kind a, da_source = an_source a,
        da_payload = (if an_payload a = NoPayload then RawEmpty else RawValue (marshal_payload (an_payload a)))\<rparr>"
    using assms by (auto simp: encode_action_def guardE_def fails_def split: if_splits)
  have blank: "validate_action \<lparr>an_id = an_id a, an_kind = an_kind a, an_source = an_source a, an_payload = NoPayload\<rparr>
      (an_source a) = Inr ()"
    using v by (simp add: validate_action_def)
  note [simp] = decode_pair decode_reason decode_quote decode_arrival decode_move
  have same: "a = \<lparr>an_id = an_id a, an_kind = an_kind a, an_source = an_source a, an_payload = an_payload a\<rparr>" by simp
  from t show ?thesis
  proof (cases rule: payload_cases)
    case (pause r)
    then show ?thesis
      using src blank same unfolding d
      by (auto simp: decode_action_def Let_def reason_text_of) (simp_all add: action_kinds)
  qed (use blank same in \<open>auto simp: d decode_action_def Let_def action_kinds\<close>)
qed

lemma decode_action_header:
  assumes "decode_action d = Inr a"
  shows "an_id a = da_id d" and "an_kind a = da_kind d" and "an_source a = da_source d" and "da_id d \<noteq> ''''"
proof -
  have "an_id a = da_id d \<and> an_kind a = da_kind d \<and> an_source a = da_source d \<and> da_id d \<noteq> ''''"
    using assms
    by (auto simp: decode_action_def Let_def validate_action_def split: if_splits prod.splits)
  then show "an_id a = da_id d" and "an_kind a = da_kind d" and "an_source a = da_source d" and "da_id d \<noteq> ''''"
    by simp_all
qed

end
