(* ===== verification/Durable_Properties.thy ===== *)
theory Durable_Properties
  imports Durable_Action
begin

text \<open>
  What the durable form of an action keeps: encoding and decoding are inverse up to the spelling of a
  payload, and what decodes passes the checks that what is encoded must pass.
\<close>

lemma decode_payload_type:
  assumes "decode_action d = Inr a"
  shows "validate_payload_type a = Inr ()"
proof -
  note header = decode_action_header [OF assms]
  have fresh: "da_source d = SystemSource \<or> da_source d = ParticipantSource"
    using assms by (auto simp: decode_action_def Let_def)
  note decoded = assms [unfolded decode_action_def Let_def]
  show ?thesis
  proof (cases "da_kind d \<in> {action_start, action_countdown, action_pause, action_resume, action_quit}")
    case True
    then consider "da_kind d = action_start" | "da_kind d = action_countdown" | "da_kind d = action_pause"
      | "da_kind d = action_resume" | "da_kind d = action_quit" by blast
    then show ?thesis
      using decoded
      by cases (auto simp: validate_payload_type_def header action_kinds split: if_splits)
  next
    case False
    then consider "da_kind d = action_update_quote" | "da_kind d = action_arrival" | "da_kind d = action_mark_move"
      | "da_kind d = action_carry" | "da_kind d = action_expired"
      using decoded by (auto split: if_splits)
    then show ?thesis
      using decoded
      by cases (auto simp: validate_payload_type_def header action_kinds split: if_splits)
  qed
qed

lemma decode_validates:
  assumes "decode_action d = Inr a"
  shows "an_source a = SystemSource \<or> an_source a = ParticipantSource"
    and "validate_action a (an_source a) = Inr ()"
proof -
  note header = decode_action_header [OF assms]
  show "an_source a = SystemSource \<or> an_source a = ParticipantSource"
    using assms unfolding header by (auto simp: decode_action_def Let_def)
  have "validate_action a (da_source d) =
      validate_action \<lparr>an_id = da_id d, an_kind = da_kind d, an_source = da_source d, an_payload = NoPayload\<rparr> (da_source d)"
    by (simp add: validate_action_def header)
  also have "\<dots> = Inr ()" using assms by (auto simp: decode_action_def Let_def)
  finally show "validate_action a (an_source a) = Inr ()" by (simp add: header)
qed

lemma decoded_encodes:
  assumes "decode_action d = Inr a"
  shows "\<exists>d'. encode_action a = Inr d'"
proof -
  have "(an_source a \<noteq> SystemSource \<and> an_source a \<noteq> ParticipantSource) = False"
    using decode_validates(1) [OF assms] by blast
  then show ?thesis
    using decode_validates(2) [OF assms] decode_payload_type [OF assms] by (simp only: encode_action_def guardE_simps bindE_simps) blast
qed

text \<open>C38. Durable actions round-trip. An action that is encoded decodes to exactly itself; and any stored
  form that decodes - whatever its spelling, unknown to the encoder - decodes to an action that can be
  encoded again and whose encoding decodes to the same action.\<close>

theorem action_round_trip:
  "(case encode_action a of Inl _ \<Rightarrow> True | Inr d \<Rightarrow> decode_action d = Inr a) \<and>
   (case decode_action d of Inl _ \<Rightarrow> True
    | Inr b \<Rightarrow> (case encode_action b of Inl _ \<Rightarrow> False | Inr d' \<Rightarrow> decode_action d' = Inr b))"
proof -
  have "case encode_action b of Inl _ \<Rightarrow> False | Inr d' \<Rightarrow> decode_action d' = Inr b" if "decode_action d = Inr b" for b
    using decoded_encodes [OF that] decode_encode by auto
  then show ?thesis using decode_encode by (auto split: sum.splits)
qed

text \<open>The check for repeated keys compares them exactly, the decoder behind it up to case: a payload that
  names the bid twice, in two spellings, is taken, with the second value.\<close>

lemma upper_letters:
  "upper CHR ''b'' = CHR ''B''" "upper CHR ''B'' = CHR ''B''" "upper CHR ''i'' = CHR ''I''"
  "upper CHR ''d'' = CHR ''D''" "upper CHR ''a'' = CHR ''A''" "upper CHR ''s'' = CHR ''S''" "upper CHR ''k'' = CHR ''K''"
  by (simp_all add: upper_def char_of_def bit_Suc_0_iff)

theorem folded_key_overrides:
  "decode_action \<lparr>da_id = ''q1'', da_kind = action_update_quote, da_source = ParticipantSource,
     da_payload = RawValue (JObj [(''bid'', JStr (show_price b)), (''ask'', JStr (show_price k)),
       (''Bid'', JStr (show_price b'))])\<rparr> =
   Inr \<lparr>an_id = ''q1'', an_kind = action_update_quote, an_source = ParticipantSource,
     an_payload = UpdateQuote \<lparr>qp_bid = b', qp_ask = k, qp_revision = None\<rparr>\<rparr>"
proof -
  have "decode_payload (RawValue (JObj [(''bid'', JStr (show_price b)), (''ask'', JStr (show_price k)),
       (''Bid'', JStr (show_price b'))])) quote_fields zero_quote [''bid'', ''ask''] =
     Inr \<lparr>qp_bid = b', qp_ask = k, qp_revision = None\<rparr>"
    by (simp add: decode_payload_def decode_struct_def find_field_def quote_fields_def price_setter_def fixed_value_def
        zero_quote_def upper_letters)
  then show ?thesis
    by (simp add: decode_action_def Let_def action_kinds validate_action_def has_prefix_def system_prefix_def)
qed

end
