(* ===== verification/Scenario.thy ===== *)
theory Scenario
  imports Exchange_Types Game_Mode Generator
begin

text \<open>
  Scenarios (\<^verbatim>\<open>internal/scenario/scenario.go\<close>): the configuration of a real-time session and its
  validation, the configurations of the catalogue, and the recap at the end of a game with its
  scorecard. The prose of the catalogue and the coaching cards are not modelled.
\<close>

subsection \<open>Data\<close>

record tutorial_step =
  tu_title :: string
  tu_body :: string

record interval_range =
  ir_min :: u64
  ir_max :: u64

record realtime_config =
  rt_revision :: string
  rt_generator :: "32 word"
  rt_duration :: u64
  rt_countdown :: u64
  rt_grace :: u64
  rt_quote_qty :: qty
  rt_customer :: interval_range
  rt_mark :: interval_range
  rt_carry_cadence :: u64
  rt_carry :: price
  rt_customer_domain :: string
  rt_mark_domain :: string
  rt_informed_domain :: string

record scenario_snapshot =
  ss_id :: string
  ss_revision :: string
  ss_title :: string
  ss_briefing :: string
  ss_objective :: string
  ss_tutorial :: "tutorial_step list"
  ss_reflection :: string
  ss_scorecard :: string
  ss_turns :: i64
  ss_modes :: "play_mode list"
  ss_real_time :: "realtime_config option"

record coaching =
  co_code :: string
  co_title :: string
  co_body :: string

record scorecard =
  sc_label :: string
  sc_value :: string
  sc_note :: string
  sc_reflection :: string

record recap =
  rc_headline :: string
  rc_body :: string
  rc_equity :: money
  rc_pnl :: money
  rc_max_inventory :: qty
  rc_units :: qty
  rc_storage :: money
  rc_adverse :: i64
  rc_scorecard :: "scorecard option"
  rc_reason :: end_reason
  rc_orders :: i64
  rc_filled :: i64
  rc_informed_units :: qty
  rc_informed_pnl :: money

subsection \<open>The configuration of a real-time session\<close>

definition validate_cadence :: "string \<Rightarrow> interval_range \<Rightarrow> u64 \<Rightarrow> unit res" where
  "validate_cadence name c duration =
     (if ir_min c = 0 \<or> ir_min c > ir_max c \<or> ir_max c > duration
      then Inl (Errorf ''%s cadence must be ordered and fit within the session duration'' [name])
      else Inr ())"

definition validate_realtime_config :: "config \<Rightarrow> realtime_config option \<Rightarrow> unit res" where
  "validate_realtime_config ec c0 =
     (case c0 of None \<Rightarrow> Inr () | Some c \<Rightarrow>
      guardE (rt_revision c = '''' \<or> rt_generator c \<noteq> generator_version)
        ''unsupported revision or generator version''
     (guardE (rt_duration c = 0 \<or> rt_duration c > 24*60*60*1000)
        ''duration must be between one millisecond and 24 hours''
     (guardE (rt_countdown c = 0 \<or> rt_countdown c > 60000)
        ''countdown must be between one millisecond and one minute''
     (guardE (rt_grace c = 0 \<or> rt_grace c > 60000)
        ''disconnect grace must be between one millisecond and one minute''
     (bindE (validate_cadence ''customer'' (rt_customer c) (rt_duration c)) (\<lambda>_.
      bindE (validate_cadence ''mark'' (rt_mark c) (rt_duration c)) (\<lambda>_.
      guardE (rt_carry_cadence c = 0 \<or> rt_carry_cadence c > rt_duration c)
        ''carry cadence must fit within the session duration''
     (guardE (\<not> positive (rt_quote_qty c) \<or> rt_quote_qty c > cf_max_qty ec \<or> rt_quote_qty c > cf_max_position ec)
        ''quote quantity exceeds scenario limits''
     (guardE (rt_carry c < 0) ''carry per unit must be non-negative''
     (orFail (notional (rt_carry c) (cf_max_position ec)) ''carry and position exceed supported range'' (\<lambda>_.
      guardE (rt_customer_domain c = '''' \<or> rt_mark_domain c = '''' \<or> rt_informed_domain c = '''' \<or>
              rt_customer_domain c = rt_mark_domain c \<or> rt_customer_domain c = rt_informed_domain c \<or>
              rt_mark_domain c = rt_informed_domain c)
        ''generator seed domains must be non-empty and distinct'' (Inr ()))))))))))))"

subsection \<open>The catalogue's configurations\<close>

definition scenario_config :: "i64 \<Rightarrow> u64 \<Rightarrow> i64 \<Rightarrow> i64 \<Rightarrow> i64 \<Rightarrow> i64 \<Rightarrow> config" where
  "scenario_config turns seed min_move max_move max_orders max_qty =
     \<lparr>cf_instrument = ''SIM'', cf_cash = 10000000000000, cf_position = 0, cf_mark = 1000000,
      cf_storage = 10000, cf_turns = turns, cf_initial_bps = 5000, cf_maint_bps = 2500,
      cf_max_position = 10000000, cf_max_orders = max_orders, cf_max_qty = max_qty * 10000,
      cf_max_slip = 200, cf_min_move = min_move, cf_max_move = max_move, cf_seed = seed,
      cf_version = 0, cf_informed = 0\<rparr>"

definition informed_config :: "i64 \<Rightarrow> u64 \<Rightarrow> i64 \<Rightarrow> i64 \<Rightarrow> i64 \<Rightarrow> i64 \<Rightarrow> i64 \<Rightarrow> config" where
  "informed_config turns seed min_move max_move max_orders max_qty informed =
     (scenario_config turns seed min_move max_move max_orders max_qty)\<lparr>cf_version := version_adverse,
        cf_informed := informed\<rparr>"

definition first_spread :: config where
  "first_spread = scenario_config 8 101 (-25) 25 5 10"

definition first_spread_real_time :: realtime_config where
  "first_spread_real_time = \<lparr>rt_revision = ''1'', rt_generator = generator_version, rt_duration = 90000,
     rt_countdown = 3000, rt_grace = 5000, rt_quote_qty = 100000,
     rt_customer = \<lparr>ir_min = 1500, ir_max = 3000\<rparr>, rt_mark = \<lparr>ir_min = 5000, ir_max = 8000\<rparr>,
     rt_carry_cadence = 10000, rt_carry = 10000, rt_customer_domain = ''first-spread-v1/realtime/customer/v1'',
     rt_mark_domain = ''first-spread-v1/realtime/mark/v1'',
     rt_informed_domain = ''first-spread-v1/realtime/informed/v1''\<rparr>"

definition inventory_pressure :: config where
  "inventory_pressure = scenario_config 10 202 (-90) 150 6 18"

definition volatility_shock :: config where
  "volatility_shock = scenario_config 8 303 (-300) 425 4 12"

definition volatility_shock_informed :: config where
  "volatility_shock_informed = informed_config 8 1 (-300) 425 4 12 6000"

subsection \<open>Risk added by a fill\<close>

definition greater_magnitude :: "qty \<Rightarrow> qty \<Rightarrow> bool" where
  "greater_magnitude new old =
     (case (abs_qty_checked new, abs_qty_checked old) of
        (Inl _, b) \<Rightarrow> \<not> isl b
      | (Inr _, Inl _) \<Rightarrow> False
      | (Inr a, Inr b) \<Rightarrow> a > b)"

definition added_risk :: "qty \<Rightarrow> qty \<Rightarrow> bool" where
  "added_risk old new =
     (if new = 0 then False
      else if old = 0 \<or> old > 0 \<and> new < 0 \<or> old < 0 \<and> new > 0 then True
      else greater_magnitude new old)"

subsection \<open>The recap\<close>

definition add_int :: "i64 \<Rightarrow> i64 \<Rightarrow> i64 res" where
  "add_int a b =
     guardE (b > 0 \<and> a > max_i64 - b \<or> b < 0 \<and> a < min_i64 - b) ''integer overflows range'' (Inr (a + b))"

record tally =
  tl_max :: qty
  tl_units :: qty
  tl_storage :: money
  tl_orders :: i64
  tl_filled :: i64
  tl_informed_units :: qty
  tl_informed_pnl :: money
  tl_adverse :: i64
  tl_position :: qty
  tl_mark :: price

definition include_position :: "tally \<Rightarrow> qty \<Rightarrow> tally res" where
  "include_position t next_position =
     bindE (abs_qty_checked next_position) (\<lambda>m.
     Inr (t\<lparr>tl_position := next_position, tl_max := (if m > tl_max t then m else tl_max t)\<rparr>))"

definition include_event :: "tally \<Rightarrow> event \<Rightarrow> tally res" where
  "include_event t ev =
     (case ev_trade ev of
        None \<Rightarrow> Inr t
      | Some tr \<Rightarrow>
          bindE (if tr_buyer tr = player_account
                 then bindE (add_qty (tl_position t) (tr_qty tr)) (include_position t) else Inr t) (\<lambda>t1.
          if tr_seller tr = player_account
          then bindE (sub_qty (tl_position t1) (tr_qty tr)) (include_position t1) else Inr t1))"

definition informed_scenario :: string where "informed_scenario = ''volatility-shock-v2''"

definition adverse_turn :: "string \<Rightarrow> qty \<Rightarrow> price \<Rightarrow> result \<Rightarrow> bool" where
  "adverse_turn scenario prior mark r =
     (let sm = rs_summary r; st = rs_state r in
      if scenario = informed_scenario \<and> sm_informed_filled sm > 0 \<and> sm_informed_pnl sm < 0 then True
      else scenario \<noteq> informed_scenario \<and> sm_units sm > 0 \<and> added_risk prior (st_position st) \<and>
        (st_position st > 0 \<and> st_mark st < mark \<or> st_position st < 0 \<and> st_mark st > mark))"

definition include_result :: "string \<Rightarrow> tally \<Rightarrow> result \<Rightarrow> tally res" where
  "include_result scenario t r =
     (let sm = rs_summary r; st = rs_state r in
      guardE (sm_units sm < 0 \<or> sm_storage sm < 0) ''units traded and storage cost must be non-negative''
     (guardE (sm_informed_orders sm < 0 \<or> sm_informed_filled sm < 0 \<or> sm_informed_units sm < 0)
        ''informed metrics must be non-negative''
     (guardE (sm_informed_filled sm > sm_informed_orders sm) ''informed filled orders exceed informed arrivals''
     (guardE (sm_informed_units sm > sm_units sm) ''informed units exceed total units traded''
     (bindE (foldE include_event t (rs_events r)) (\<lambda>t1.
      bindE (abs_qty_checked (st_position st)) (\<lambda>m.
      bindE (add_qty (tl_units t1) (sm_units sm)) (\<lambda>units.
      bindE (add_money (tl_storage t1) (sm_storage sm)) (\<lambda>storage.
      bindE (add_int (tl_orders t1) (sm_informed_orders sm)) (\<lambda>orders.
      bindE (add_int (tl_filled t1) (sm_informed_filled sm)) (\<lambda>filled.
      bindE (add_qty (tl_informed_units t1) (sm_informed_units sm)) (\<lambda>informed.
      bindE (add_money (tl_informed_pnl t1) (sm_informed_pnl sm)) (\<lambda>pnl.
      bindE (if adverse_turn scenario (tl_position t) (tl_mark t) r then add_int (tl_adverse t1) 1
             else Inr (tl_adverse t1)) (\<lambda>adverse.
      Inr \<lparr>tl_max = (if m > tl_max t1 then m else tl_max t1), tl_units = units, tl_storage = storage,
        tl_orders = orders, tl_filled = filled, tl_informed_units = informed, tl_informed_pnl = pnl,
        tl_adverse = adverse, tl_position = st_position st, tl_mark = st_mark st\<rparr>))))))))))))))"

text \<open>Versions of zero are those of results that predate versions.\<close>

definition check_versions :: "result list \<Rightarrow> result \<Rightarrow> unit res" where
  "check_versions records final =
     (let versions = filter (\<lambda>v. v \<noteq> 0) (map (st_version \<circ> rs_state) records) in
      guardE (\<not> distinct versions) ''records contain a duplicate version''
     (guardE (st_version (rs_state final) \<noteq> 0 \<and> st_version (rs_state final) \<in> set versions)
        ''final result duplicates a recorded version'' (Inr ())))"

definition legacy_scorecard_kind :: "string \<Rightarrow> string" where
  "legacy_scorecard_kind s =
     (if s = ''first-spread-v1'' then ''matched_volume''
      else if s = ''inventory-pressure-v1'' then ''peak_inventory''
      else if s = ''volatility-shock-v1'' then ''adverse_selection_turns''
      else if s = ''volatility-shock-v2'' then ''informed_flow_pnl'' else '''')"

definition legacy_reflection :: "string \<Rightarrow> string" where
  "legacy_reflection s =
     (if s = ''first-spread-v1''
      then ''Explain why an order filled or expired, whether you were long or short, and what quote adjustment you made to manage risk.''
      else if s = ''inventory-pressure-v1''
      then ''Identify your largest inventory, the quote skew you used to reduce it, and whether that protected the desk without giving away too much spread.''
      else if s = ''volatility-shock-v1''
      then ''Identify the adverse fill-and-mark sequence, then explain how you widened or skewed the next quote to protect the desk.''
      else if s = ''volatility-shock-v2''
      then ''Identify the informed fills, use informed-flow P&L as diagnostic evidence, and explain how quote width or skew affected marked total P&L.''
      else ''Review the risk carried and the quote adjustment used to manage it.'')"

definition build_scorecard :: "scenario_snapshot \<Rightarrow> recap \<Rightarrow> scorecard option" where
  "build_scorecard s r =
     (let reflection = (if ss_reflection s = '''' then legacy_reflection (ss_id s) else ss_reflection s);
          kind = (if ss_scorecard s = '''' then legacy_scorecard_kind (ss_id s) else ss_scorecard s);
          card = (\<lambda>label text note. Some \<lparr>sc_label = label, sc_value = text, sc_note = note, sc_reflection = reflection\<rparr>)
      in
      if kind = ''matched_volume''
      then card ''Matched volume'' (show_qty (rc_units r))
        ''Units matched by customer flow. More volume is useful only when the inventory it creates remains manageable.''
      else if kind = ''peak_inventory''
      then card ''Peak inventory'' (show_qty (rc_max_inventory r))
        ''Largest position carried during the lesson. Review whether your skew reduced it after the larger clips arrived.''
      else if kind = ''adverse_selection_turns''
      then card ''Adverse selection turns'' (format_int (rc_adverse r))
        ''Turns where customer flow left inventory exposed to a mark move against it. Protection matters more than chasing the next fill.''
      else if kind = ''informed_flow_pnl''
      then card ''Marked total P&L'' (show_money (rc_pnl r))
        (''Marked total P&L is the lesson outcome. Informed-flow P&L of '' @ show_money (rc_informed_pnl r) @
         '' is diagnostic evidence from '' @ format_int (rc_orders r) @ '' informed orders, '' @
         format_int (rc_filled r) @ '' fills, and '' @ show_qty (rc_informed_units r) @
         '' units; it is not a standalone ranking or success criterion. Read it with matched volume, because refusing every trade is not profitable market making.'')
      else None)"

definition first_tally :: "config \<Rightarrow> tally" where
  "first_tally c = \<lparr>tl_max = 0, tl_units = 0, tl_storage = 0, tl_orders = 0, tl_filled = 0,
     tl_informed_units = 0, tl_informed_pnl = 0, tl_adverse = 0, tl_position = cf_position c, tl_mark = cf_mark c\<rparr>"

definition build_recap :: "scenario_snapshot \<Rightarrow> config \<Rightarrow> result list \<Rightarrow> result \<Rightarrow> recap res" where
  "build_recap s c records final =
     bindE (check_versions records final) (\<lambda>_.
     bindE (notional (cf_mark c) (cf_position c)) (\<lambda>worth.
     bindE (add_money (cf_cash c) worth) (\<lambda>start.
     bindE (include_position (first_tally c) (cf_position c)) (\<lambda>t0.
     bindE (foldE (include_result (ss_id s)) t0 (records @ [final])) (\<lambda>t.
     let st = rs_state final in
     bindE (notional (st_mark st) (st_position st)) (\<lambda>final_worth.
     bindE (add_money (st_cash st) final_worth) (\<lambda>equity.
     bindE (sub_money equity start) (\<lambda>pnl.
     let r = \<lparr>rc_headline = ''Review the desk'',
            rc_body = ss_objective s @ '' You finished with '' @ show_money pnl @ '' P&L, traded '' @
              show_qty (tl_units t) @ '' units, and carried as much as '' @ show_qty (tl_max t) @ '' units of inventory.'',
            rc_equity = equity, rc_pnl = pnl, rc_max_inventory = tl_max t, rc_units = tl_units t,
            rc_storage = tl_storage t, rc_adverse = tl_adverse t, rc_scorecard = None, rc_reason = st_reason st,
            rc_orders = tl_orders t, rc_filled = tl_filled t, rc_informed_units = tl_informed_units t,
            rc_informed_pnl = tl_informed_pnl t\<rparr>
     in
     if st_over st \<and> st_reason st = PlayerQuit \<and> st_turn st = 0
     then Inr (r\<lparr>rc_headline := ''Session ended before play'',
            rc_body := ''You ended the session. No turn was completed, so the lesson was not evaluated.''\<rparr>)
     else Inr (r\<lparr>rc_scorecard := build_scorecard s r\<rparr>)))))))))"

end
