(* ===== verification/Catalog.thy ===== *)
theory Catalog
  imports Scenario
begin

text \<open>
  The catalogue of lessons with its texts (\<^verbatim>\<open>internal/scenario/scenario.go\<close>): looking a lesson up, the
  snapshot that is stored with a game, and the check of the whole catalogue. Copies of slices and
  configurations are the values themselves.
\<close>

record scenario_definition =
  sd_id :: string
  sd_revision :: string
  sd_title :: string
  sd_briefing :: string
  sd_objective :: string
  sd_tutorial :: "tutorial_step list"
  sd_reflection :: string
  sd_scorecard :: string
  sd_config :: config
  sd_real_time :: "realtime_config option"

definition first_spread_tutorial :: "tutorial_step list" where
  "first_spread_tutorial =
     [\<lparr>tu_title = ''Start with a balanced quote'', tu_body =
       (''For the first turn, try a bid of $99.50 and an ask of $100.50 around the $100 reference mark. This '' @
        ''gives customers room to cross either side.'')\<rparr>,
      \<lparr>tu_title = ''Read the customer tape'', tu_body =
       (''After you post, count the customer IOC orders in the turn audit. For each one, compare its limit '' @
        ''with your bid or ask and explain why it filled or expired.'')\<rparr>,
      \<lparr>tu_title = ''Name the inventory you earned'', tu_body =
       (''If you bought, you are long and the next price move can hurt you if the mark falls. If you sold, '' @
        ''you are short and a rising mark can hurt. Check the position card before quoting again.'')\<rparr>,
      \<lparr>tu_title = ''Make one deliberate change'', tu_body =
       (''While flat, tighten by one cent to invite more flow. While long, shift both prices down; while '' @
        ''short, shift both prices up. Change one idea at a time, then use the next audit to judge it.'')\<rparr>]"

definition first_spread_lesson :: scenario_definition where
  "first_spread_lesson =
     \<lparr>sd_id = ''first-spread-v1'', sd_revision = ''2'', sd_title = ''First Spread'',
      sd_briefing = (''A calm opening desk with balanced customer flow. Learn how your quote width changes the chance of '' @
        ''trading.''),
      sd_objective = ''Finish with the highest marked equity you can while staying aware of every fill.'',
      sd_tutorial = first_spread_tutorial,
      sd_reflection = (''Before moving on, be able to explain why an order filled or expired, whether you are long or short, '' @
        ''and what one quote change you made to manage that risk.''),
      sd_scorecard = ''matched_volume'', sd_config = first_spread, sd_real_time = Some first_spread_real_time\<rparr>"

definition inventory_pressure_tutorial :: "tutorial_step list" where
  "inventory_pressure_tutorial =
     [\<lparr>tu_title = ''Start controlled, then observe'', tu_body =
       (''Begin around the reference mark with a moderate spread. Customer clips are larger here, so one '' @
        ''crossed quote can change inventory faster than in First Spread.'')\<rparr>,
      \<lparr>tu_title = ''Call your position by name'', tu_body =
       (''After every fill, say it plainly: long means you own inventory; short means you owe it. Use the '' @
        ''position card and turn audit to identify which customer order created it.'')\<rparr>,
      \<lparr>tu_title = ''Skew to reduce, not to predict'', tu_body =
       (''Long inventory: lower both bid and ask, making your ask easier to hit while discouraging more '' @
        ''buying. Short inventory: raise both prices, making your bid easier to hit while discouraging more '' @
        ''selling.'')\<rparr>,
      \<lparr>tu_title = ''Keep the spread deliberate'', tu_body =
       (''Do not automatically widen after a fill. First shift the quote in the direction that reduces risk. '' @
        ''Widen only if you need less flow or more protection from the next mark move.'')\<rparr>,
      \<lparr>tu_title = ''Judge the adjustment'', tu_body =
       (''Use the next turn audit as evidence. Did your skew attract the offsetting customer flow you wanted? '' @
        ''Did it reduce inventory, or did the mark move against the risk you still carried?'')\<rparr>]"

definition inventory_pressure_lesson :: scenario_definition where
  "inventory_pressure_lesson =
     \<lparr>sd_id = ''inventory-pressure-v1'', sd_revision = ''2'', sd_title = ''Inventory Pressure'',
      sd_briefing = ''Larger customer clips and a livelier mark make every accumulated unit matter.'',
      sd_objective = ''Earn P&L, but notice when your position becomes the real trade.'',
      sd_tutorial = inventory_pressure_tutorial,
      sd_reflection = (''Before moving on, identify your largest inventory, name the quote skew you used to reduce it, and '' @
        ''explain whether it balanced risk without giving away more spread than necessary.''),
      sd_scorecard = ''peak_inventory'', sd_config = inventory_pressure, sd_real_time = None\<rparr>"

definition volatility_shock_tutorial :: "tutorial_step list" where
  "volatility_shock_tutorial =
     [\<lparr>tu_title = ''Start protective'', tu_body =
       (''Begin with enough spread to make each fill intentional. In this lesson the reference mark can move '' @
        ''sharply after customer flow, so a tight quote is not automatically a better quote.'')\<rparr>,
      \<lparr>tu_title = ''Spot adverse selection'', tu_body =
       (''When a customer fills you and the mark then moves against the inventory you received, treat the '' @
        ''sequence as adverse selection. The fill earned spread, but the new position immediately became more '' @
        ''expensive to carry.'')\<rparr>,
      \<lparr>tu_title = ''Protect before pursuing flow'', tu_body =
       (''After an adverse move, widen first to slow new exposure. Then skew: long inventory means shift both '' @
        ''prices down; short inventory means shift both prices up. Do not tighten just to win the next trade.'')\<rparr>,
      \<lparr>tu_title = ''Separate two P&Ls'', tu_body =
       (''Use the turn narrative and audit to separate execution from marking. A trade can look favorable at '' @
        ''its fill price while the reference mark makes the resulting inventory less valuable.'')\<rparr>,
      \<lparr>tu_title = ''Use the quiet turns'', tu_body =
       (''No-fill turns can be useful protection. Decide whether your next quote should stay defensive, or '' @
        ''whether inventory is controlled enough to cautiously invite flow again.'')\<rparr>]"

definition volatility_shock_lesson :: scenario_definition where
  "volatility_shock_lesson =
     \<lparr>sd_id = ''volatility-shock-v1'', sd_revision = ''2'', sd_title = ''Volatility Shock'',
      sd_briefing = (''The mark can move sharply after execution. Spread income is not protection from directional '' @
        ''exposure.''),
      sd_objective = ''Finish with the highest P&L through a more volatile price path.'',
      sd_tutorial = volatility_shock_tutorial,
      sd_reflection = (''Before moving on, identify the turn where a fill and mark move worked against you, explain why that '' @
        ''was adverse selection, and describe how you widened or skewed the next quote to protect the desk.''),
      sd_scorecard = ''adverse_selection_turns'', sd_config = volatility_shock, sd_real_time = None\<rparr>"

definition volatility_shock_informed_tutorial :: "tutorial_step list" where
  "volatility_shock_informed_tutorial =
     [\<lparr>tu_title = ''Recognize informed direction'', tu_body =
       (''An informed customer knows whether the next mark will rise or fall, not how large that move will '' @
        ''be. A buyer can overpay relative to the closing mark at your ask before a small rise; a seller can '' @
        ''accept less than the closing mark at your bid before a small fall.'')\<rparr>,
      \<lparr>tu_title = ''Quote to deny the edge'', tu_body =
       (''A wider spread can keep an informed customer's limit from reaching you. Skew can protect one side '' @
        ''specifically: raise the ask to resist informed buys before rises, or lower the bid to resist '' @
        ''informed sells before falls.'')\<rparr>,
      \<lparr>tu_title = ''Measure the informed fill'', tu_body =
       (''Informed-flow P&L marks only your fills with informed customers at the closing mark. A negative '' @
        ''result is value conceded and zero means the fill price matched the closing mark. A positive result '' @
        ''means an informed buyer overpaid or an informed seller accepted less than the closing mark.'')\<rparr>,
      \<lparr>tu_title = ''Keep the P&Ls separate'', tu_body =
       (''Execution edge measures fill price versus the opening mark. Inventory mark P&L measures the mark '' @
        ''move on the position you carry, storage is the cost of carrying it, and marked total P&L combines '' @
        ''those distinct components. Informed-flow P&L is diagnostic evidence about informed fills, not a '' @
        ''separate outcome score.'')\<rparr>,
      \<lparr>tu_title = ''Use avoided flow as evidence'', tu_body =
       (''An informed order that does not fill your quote is a useful outcome, not a missed obligation. '' @
        ''Compare wide and skewed quotes to learn which protection denies informed customers an edge without '' @
        ''eliminating all ordinary flow.'')\<rparr>]"

definition volatility_shock_informed_lesson :: scenario_definition where
  "volatility_shock_informed_lesson =
     \<lparr>sd_id = ''volatility-shock-v2'', sd_revision = ''2'', sd_title = ''Volatility Shock: Informed Flow'',
      sd_briefing = (''Some customers know the next mark move's direction, but not its magnitude. An informed buy can take '' @
        ''your ask before a rise and still overpay relative to the closing mark; an informed sell can hit '' @
        ''your bid before a fall and still accept less than the closing mark.''),
      sd_objective = (''Finish with the highest marked total P&L you can while protecting the desk from informed flow and '' @
        ''distinguishing execution edge, inventory mark P&L, storage, and informed-flow evidence.''),
      sd_tutorial = volatility_shock_informed_tutorial,
      sd_reflection = (''Identify an informed buy or sell, explain why knowing direction did not guarantee knowing '' @
        ''magnitude, and use informed-flow P&L as diagnostic evidence when comparing execution edge, '' @
        ''inventory mark P&L, storage, matched volume, and marked total P&L.''),
      sd_scorecard = ''informed_flow_pnl'', sd_config = volatility_shock_informed, sd_real_time = None\<rparr>"

definition catalog :: "scenario_definition list" where
  "catalog = [first_spread_lesson, inventory_pressure_lesson, volatility_shock_lesson, volatility_shock_informed_lesson]"

definition snapshot_of_definition :: "scenario_definition \<Rightarrow> scenario_snapshot" where
  "snapshot_of_definition d =
     \<lparr>ss_id = sd_id d, ss_revision = sd_revision d, ss_title = sd_title d, ss_briefing = sd_briefing d,
      ss_objective = sd_objective d, ss_tutorial = sd_tutorial d, ss_reflection = sd_reflection d,
      ss_scorecard = sd_scorecard d, ss_turns = cf_turns (sd_config d),
      ss_modes = [play_mode_turn_based] @ (if sd_real_time d \<noteq> None then [play_mode_real_time] else []),
      ss_real_time = sd_real_time d\<rparr>"

definition list_scenarios :: "scenario_snapshot list" where
  "list_scenarios = map snapshot_of_definition catalog"

definition get_scenario :: "string \<Rightarrow> scenario_definition option" where
  "get_scenario i = find (\<lambda>d. sd_id d = i) catalog"

definition validate_definition :: "string list \<Rightarrow> scenario_definition \<Rightarrow> string list res" where
  "validate_definition seen d =
     guardE (sd_id d = '''' \<or> sd_revision d = '''' \<or> sd_title d = '''' \<or> sd_briefing d = '''' \<or>
             sd_objective d = '''' \<or> sd_id d \<in> set seen) ''invalid scenario catalog''
     (if list_ex (\<lambda>t. tu_title t = '''' \<or> tu_body t = '''') (sd_tutorial d)
      then Inl (Errorf ''scenario %s has an invalid tutorial step'' [sd_id d])
      else if sd_tutorial d \<noteq> [] \<and> sd_reflection d = ''''
      then Inl (Errorf ''scenario %s needs a tutorial reflection'' [sd_id d])
      else if sd_scorecard d = ''''
      then Inl (Errorf ''scenario %s needs a scorecard kind'' [sd_id d])
      else if cf_turns (sd_config d) \<le> 0 \<or> cf_seed (sd_config d) = 0
      then Inl (Errorf ''scenario %s must be a finite seeded lesson'' [sd_id d])
      else case validate_config (sd_config d) of
          Inl e \<Rightarrow> Inl (Wrapped (''scenario '' @ sd_id d @ '': %w'') e)
        | Inr _ \<Rightarrow> (case validate_realtime_config (sd_config d) (sd_real_time d) of
            Inl e \<Rightarrow> Inl (Wrapped (''scenario '' @ sd_id d @ '' real-time config: %w'') e)
          | Inr _ \<Rightarrow> Inr (sd_id d # seen)))"

definition validate_catalog :: "scenario_definition list \<Rightarrow> unit res" where
  "validate_catalog ds = bindE (foldE validate_definition [] ds) (\<lambda>_. Inr ())"

end
