(* ===== verification/Scenario_Properties.thy ===== *)
theory Scenario_Properties
  imports Catalog Executor
begin

text \<open>
  Properties of the scenarios: the shipped catalogue is valid, a validated real-time configuration
  always starts, and a recap adds up.
\<close>

subsection \<open>The recap as a fold\<close>

text \<open>The positions the player goes through: after each of its trades, and at the end of each result.\<close>

definition trade_steps :: "event \<Rightarrow> int list" where
  "trade_steps ev =
     (case ev_trade ev of
        None \<Rightarrow> []
      | Some tr \<Rightarrow> (if tr_buyer tr = player_account then [ival (tr_qty tr)] else []) @
          (if tr_seller tr = player_account then [- ival (tr_qty tr)] else []))"

fun running :: "int \<Rightarrow> int list \<Rightarrow> int list" where
  "running p [] = []"
| "running p (d # ds) = (p + d) # running (p + d) ds"

fun trail :: "int \<Rightarrow> result list \<Rightarrow> int list" where
  "trail p [] = []"
| "trail p (r # rs) = running p (concat (map trade_steps (rs_events r))) @ ival (st_position (rs_state r)) #
     trail (ival (st_position (rs_state r))) rs"

definition top :: "int list \<Rightarrow> int \<Rightarrow> int" where
  "top ps m = fold max (map abs ps) m"

lemma top_simps [simp]: "top [] m = m" "top (p # ps) m = top ps (max \<bar>p\<bar> m)" "top (ps @ qs) m = top qs (top ps m)"
  by (simp_all add: top_def)

lemma top_Max: "top ps m = Max (set (m # map abs ps))"
  unfolding top_def Max.set_eq_fold ..

lemma running_append [simp]: "running p (ds @ es) = running p ds @ running (p + sum_list ds) es"
  by (induction ds arbitrary: p) (simp_all add: add.assoc)

text \<open>What the events of a result leave alone.\<close>

definition same_sums :: "tally \<Rightarrow> tally \<Rightarrow> bool" where
  "same_sums t t' \<longleftrightarrow> tl_units t' = tl_units t \<and> tl_storage t' = tl_storage t \<and> tl_orders t' = tl_orders t \<and>
     tl_filled t' = tl_filled t \<and> tl_informed_units t' = tl_informed_units t \<and>
     tl_informed_pnl t' = tl_informed_pnl t \<and> tl_adverse t' = tl_adverse t \<and> tl_mark t' = tl_mark t"

definition moved :: "tally \<Rightarrow> int list \<Rightarrow> tally \<Rightarrow> bool" where
  "moved t ds t' \<longleftrightarrow> same_sums t t' \<and> ival (tl_position t') = ival (tl_position t) + sum_list ds \<and>
     ival (tl_max t') = top (running (ival (tl_position t)) ds) (ival (tl_max t))"

lemma moved_refl: "moved t [] t"
  by (simp add: moved_def same_sums_def)

lemma moved_trans: "moved t ds t1 \<Longrightarrow> moved t1 es t2 \<Longrightarrow> moved t (ds @ es) t2"
  by (simp add: moved_def same_sums_def)

lemma include_position_moved:
  assumes "include_position t n = Inr t'" and "ival n = ival (tl_position t) + d"
  shows "moved t [d] t'"
  using assms
  by (auto simp: include_position_def moved_def same_sums_def i64_order dest!: exactly_InrD [OF abs_qty_exact])

lemma include_event_moved:
  assumes "include_event t ev = Inr t'"
  shows "moved t (trade_steps ev) t'"
proof (cases "ev_trade ev")
  case None
  then show ?thesis using assms moved_refl by (simp add: include_event_def trade_steps_def)
next
  case (Some tr)
  obtain t1 where t1: "(if tr_buyer tr = player_account
        then bindE (add_qty (tl_position t) (tr_qty tr)) (include_position t) else Inr t) = Inr t1"
    and t2: "(if tr_seller tr = player_account
        then bindE (sub_qty (tl_position t1) (tr_qty tr)) (include_position t1) else Inr t1) = Inr t'"
    using assms Some by (auto simp: include_event_def)
  have a: "moved t (if tr_buyer tr = player_account then [ival (tr_qty tr)] else []) t1"
    using t1 moved_refl by (auto intro!: include_position_moved dest: exactly_InrD [OF add_qty_exact] split: if_splits)
  have b: "moved t1 (if tr_seller tr = player_account then [- ival (tr_qty tr)] else []) t'"
    using t2 moved_refl by (auto intro!: include_position_moved dest: exactly_InrD [OF sub_qty_exact] split: if_splits)
  show ?thesis using moved_trans [OF a b] Some by (simp add: trade_steps_def)
qed

lemma include_events_moved: "foldE include_event t evs = Inr t' \<Longrightarrow> moved t (concat (map trade_steps evs)) t'"
proof (induction evs arbitrary: t)
  case (Cons ev evs)
  then obtain t1 where "include_event t ev = Inr t1" "foldE include_event t1 evs = Inr t'" by auto
  then show ?case using moved_trans [OF include_event_moved Cons.IH] by simp
qed (simp add: moved_refl)

lemma add_int_exact: "add_int a b = Inr v \<Longrightarrow> ival v = ival a + ival b"
  using ival_range [of a] ival_range [of b]
  by (auto simp: add_int_def i64_order add_sub_limits fails_def guardE_def ival_add fits_def split: if_splits)

definition sums :: "(summary \<Rightarrow> i64) \<Rightarrow> result list \<Rightarrow> int" where
  "sums f rs = sum_list (map (\<lambda>r. ival (f (rs_summary r))) rs)"

lemma sums_simps [simp]: "sums f [] = 0" "sums f (r # rs) = ival (f (rs_summary r)) + sums f rs"
  by (simp_all add: sums_def)

definition tallied :: "tally \<Rightarrow> result list \<Rightarrow> tally \<Rightarrow> bool" where
  "tallied t rs t' \<longleftrightarrow> ival (tl_units t') = ival (tl_units t) + sums sm_units rs \<and>
     ival (tl_storage t') = ival (tl_storage t) + sums sm_storage rs \<and>
     ival (tl_orders t') = ival (tl_orders t) + sums sm_informed_orders rs \<and>
     ival (tl_filled t') = ival (tl_filled t) + sums sm_informed_filled rs \<and>
     ival (tl_informed_units t') = ival (tl_informed_units t) + sums sm_informed_units rs \<and>
     ival (tl_informed_pnl t') = ival (tl_informed_pnl t) + sums sm_informed_pnl rs \<and>
     ival (tl_max t') = top (trail (ival (tl_position t)) rs) (ival (tl_max t))"

lemma include_result_tallied:
  assumes "include_result s t r = Inr t'"
  shows "tallied t [r] t' \<and> tl_position t' = st_position (rs_state r)"
proof -
  obtain t1 m where ev: "foldE include_event t (rs_events r) = Inr t1"
    and m: "abs_qty_checked (st_position (rs_state r)) = Inr m"
    and t': "tl_position t' = st_position (rs_state r)" "tl_max t' = (if m > tl_max t1 then m else tl_max t1)"
    and u: "add_qty (tl_units t1) (sm_units (rs_summary r)) = Inr (tl_units t')"
      "add_money (tl_storage t1) (sm_storage (rs_summary r)) = Inr (tl_storage t')"
      "add_int (tl_orders t1) (sm_informed_orders (rs_summary r)) = Inr (tl_orders t')"
      "add_int (tl_filled t1) (sm_informed_filled (rs_summary r)) = Inr (tl_filled t')"
      "add_qty (tl_informed_units t1) (sm_informed_units (rs_summary r)) = Inr (tl_informed_units t')"
      "add_money (tl_informed_pnl t1) (sm_informed_pnl (rs_summary r)) = Inr (tl_informed_pnl t')"
    using assms by (auto simp: include_result_def Let_def guardE_def fails_def elim!: bindE_InrE split: if_splits)
  have mv: "moved t (concat (map trade_steps (rs_events r))) t1" by (rule include_events_moved [OF ev])
  have "ival (tl_max t') = max \<bar>ival (st_position (rs_state r))\<bar> (ival (tl_max t1))"
    using exactly_InrD [OF abs_qty_exact m] t'(2) by (auto simp: i64_order)
  then show ?thesis
    using mv t'(1) exactly_InrD [OF add_qty_exact u(1)] exactly_InrD [OF add_money_exact u(2)] add_int_exact [OF u(3)]
      add_int_exact [OF u(4)] exactly_InrD [OF add_qty_exact u(5)] exactly_InrD [OF add_money_exact u(6)]
    by (simp add: tallied_def moved_def same_sums_def)
qed

lemma include_results_tallied: "foldE (include_result s) t rs = Inr t' \<Longrightarrow> tallied t rs t'"
proof (induction rs arbitrary: t)
  case (Cons r rs)
  then obtain t1 where t1: "include_result s t r = Inr t1" and rest: "foldE (include_result s) t1 rs = Inr t'" by auto
  then show ?case using include_result_tallied [OF t1] Cons.IH [OF rest] by (simp add: tallied_def)
qed (simp add: tallied_def)

text \<open>C40. A recap adds up. When it is built, its equity is the final cash plus the marked position, its
  P&L is that equity less the starting equity, its units, storage, informed orders, fills, units and
  P&L are the exact sums over all results of the game, and its largest inventory is the maximum, over
  the starting position, every position after a trade of the player and the position at the end of
  every turn, of the size of the position.\<close>

theorem recap_adds_up:
  "case build_recap s c records final of
     Inl _ \<Rightarrow> True
   | Inr r \<Rightarrow>
       let rs = records @ [final]; st = rs_state final; start = ival (cf_position c) in
       ival (rc_equity r) = ival (st_cash st) + ival (st_mark st) * ival (st_position st) \<and>
       ival (rc_pnl r) = ival (rc_equity r) - (ival (cf_cash c) + ival (cf_mark c) * start) \<and>
       ival (rc_units r) = sums sm_units rs \<and> ival (rc_storage r) = sums sm_storage rs \<and>
       ival (rc_orders r) = sums sm_informed_orders rs \<and> ival (rc_filled r) = sums sm_informed_filled rs \<and>
       ival (rc_informed_units r) = sums sm_informed_units rs \<and>
       ival (rc_informed_pnl r) = sums sm_informed_pnl rs \<and>
       ival (rc_max_inventory r) = Max (set (map abs (start # trail start rs)))"
proof (cases "build_recap s c records final")
  case (Inr r)
  let ?st = "rs_state final"
  obtain worth start t0 t final_worth where eq: "notional (cf_mark c) (cf_position c) = Inr worth"
      "add_money (cf_cash c) worth = Inr start"
      "notional (st_mark ?st) (st_position ?st) = Inr final_worth" "add_money (st_cash ?st) final_worth = Inr (rc_equity r)"
      "sub_money (rc_equity r) start = Inr (rc_pnl r)"
    and t0: "include_position (first_tally c) (cf_position c) = Inr t0"
    and t: "foldE (include_result (ss_id s)) t0 (records @ [final]) = Inr t"
    and r: "rc_units r = tl_units t" "rc_storage r = tl_storage t" "rc_orders r = tl_orders t" "rc_filled r = tl_filled t"
      "rc_informed_units r = tl_informed_units t" "rc_informed_pnl r = tl_informed_pnl t" "rc_max_inventory r = tl_max t"
    using Inr by (auto simp: build_recap_def Let_def elim!: bindE_InrE split: if_splits)
  have first: "moved (first_tally c) [0] t0" by (rule include_position_moved [OF t0]) (simp add: first_tally_def)
  have "ival (rc_max_inventory r) = top (trail (ival (cf_position c)) (records @ [final])) \<bar>ival (cf_position c)\<bar>"
    using include_results_tallied [OF t] first r(7)
    by (simp add: tallied_def moved_def first_tally_def)
  then have "ival (rc_max_inventory r) = Max (set (map abs (ival (cf_position c) # trail (ival (cf_position c)) (records @ [final]))))"
    by (simp add: top_Max)
  then show ?thesis
    using Inr include_results_tallied [OF t] first r exactly_InrD [OF notional_exact eq(1)]
      exactly_InrD [OF add_money_exact eq(2)] exactly_InrD [OF notional_exact eq(3)]
      exactly_InrD [OF add_money_exact eq(4)] exactly_InrD [OF sub_money_exact eq(5)]
    by (simp add: Let_def tallied_def moved_def same_sums_def first_tally_def)
qed simp


end
