(* ===== verification/Event_Log.thy ===== *)
theory Event_Log
  imports Durable_Action Scenario Sha256 "HOL-Library.FSet"
begin

text \<open>
  The event log of a game (\<^verbatim>\<open>internal/eventlog/log.go\<close>): metadata and records with their validation,
  the hash chain, appending, loading and recovery. The file is its bytes; what a failing write left
  in it is an argument of the operation. How a record or the metadata is written as one line of JSON
  and read back is the parameter \<open>wire\<close>. File identity checks, permissions and the synchronization of
  directories are not modelled.
\<close>

subsection \<open>Data\<close>

record realtime_meta =
  rm_lifecycle_version :: "32 word"
  rm_lifecycle :: lifecycle_state
  rm_generator :: "32 word"
  rm_seed :: u64

record log_meta =
  me_schema :: i64
  me_game :: string
  me_owner :: string
  me_create :: string
  me_created :: int
  me_config :: config
  me_scenario :: "scenario_snapshot option"
  me_mode :: play_mode
  me_real_time :: "realtime_meta option"
  me_checksum :: string

record rejection =
  rj_code :: string
  rj_message :: string

record log_record =
  rd_schema :: i64
  rd_version :: u64
  rd_previous :: string
  rd_checksum :: string
  rd_meta_checksum :: string
  rd_command :: command
  rd_action :: "durable_action option"
  rd_elapsed :: i64
  rd_lifecycle :: lifecycle_state
  rd_result :: result
  rd_rejection :: "rejection option"
  rd_coaching :: "coaching option"
  rd_recap :: "recap option"

record wire =
  wi_record :: "log_record \<Rightarrow> string"
  wi_meta :: "log_meta \<Rightarrow> string"
  wi_decode :: "string \<Rightarrow> log_record res"

text \<open>Where a log stands: last checksum, next version, known ids, last elapsed time and lifecycle.\<close>

record cursor =
  cu_last :: string
  cu_next :: u64
  cu_ids :: "string fset"
  cu_elapsed :: i64
  cu_lifecycle :: lifecycle_state

record log =
  lo_meta :: log_meta
  lo_cursor :: cursor
  lo_size :: int

definition schema1 :: i64 where "schema1 = 1"
definition schema2 :: i64 where "schema2 = 2"
definition schema3 :: i64 where "schema3 = 3"
definition schema_version :: i64 where "schema_version = 4"
definition real_time_schema5 :: i64 where "real_time_schema5 = 5"
definition real_time_schema :: i64 where "real_time_schema = 6"
definition max_metadata_bytes :: int where "max_metadata_bytes = 1048576"
definition max_events_bytes :: int where "max_events_bytes = 67108864"

definition code_rejected :: string where "code_rejected = ''command_rejected''"
definition code_conflict :: string where "code_conflict = ''quote_revision_conflict''"

definition is_real_time_schema :: "i64 \<Rightarrow> bool" where
  "is_real_time_schema s \<longleftrightarrow> s = real_time_schema5 \<or> s = real_time_schema"

definition supported_schema :: "i64 \<Rightarrow> bool" where
  "supported_schema s \<longleftrightarrow> s \<in> {schema1, schema2, schema3, schema_version, real_time_schema5, real_time_schema}"

definition effective_mode :: "log_meta \<Rightarrow> play_mode" where
  "effective_mode m = (if me_schema m \<le> schema3 then play_mode_turn_based else me_mode m)"

definition zero_command :: command where
  "zero_command = \<lparr>cm_id = '''', cm_type = '''', cm_version = 0, cm_account = '''', cm_bid = 0, cm_ask = 0,
     cm_side = OtherSide '''', cm_price = 0, cm_qty = 0, cm_tif = OtherTif '''', cm_order = 0, cm_cash = 0, cm_position = 0\<rparr>"

subsection \<open>Validation\<close>

definition snapshot_supports_mode :: "scenario_snapshot \<Rightarrow> play_mode \<Rightarrow> bool" where
  "snapshot_supports_mode s m \<longleftrightarrow> m \<in> set (ss_modes s)"

definition validate_meta :: "log_meta \<Rightarrow> unit res" where
  "validate_meta m =
     (if me_schema m \<le> schema3
      then guardE (me_mode m \<noteq> '''' \<or> me_real_time m \<noteq> None \<or>
          (case me_scenario m of None \<Rightarrow> False | Some s \<Rightarrow> ss_modes s \<noteq> [] \<or> ss_real_time s \<noteq> None))
        ''historical schema contains real-time metadata'' (Inr ())
      else guardE (me_schema m \<noteq> schema_version \<and> \<not> is_real_time_schema (me_schema m))
        ''unsupported game metadata schema''
       (bindE (validate_play_mode (me_mode m)) (\<lambda>_.
        if me_mode m = play_mode_turn_based
        then guardE (me_schema m \<noteq> schema_version \<or> me_real_time m \<noteq> None)
          ''turn-based game contains real-time lifecycle'' (Inr ())
        else case (me_real_time m, me_scenario m) of
            (Some rm, Some s) \<Rightarrow>
              (case ss_real_time s of
                 None \<Rightarrow> fails ''real-time game is missing scenario or lifecycle metadata''
               | Some rt \<Rightarrow>
                   guardE (\<not> is_real_time_schema (me_schema m))
                     ''real-time game is missing scenario or lifecycle metadata''
                  (guardE (\<not> snapshot_supports_mode s play_mode_real_time)
                     ''scenario does not support real-time mode''
                  (guardE (rm_lifecycle_version rm \<noteq> lifecycle_version \<or> rm_generator rm \<noteq> generator_version \<or>
                           rt_generator rt \<noteq> rm_generator rm \<or> rm_seed rm = 0)
                     ''unsupported real-time lifecycle, generator version, or seed''
                  (guardE (rm_lifecycle rm \<noteq> lifecycle_preparing)
                     ''real-time game must initially be preparing''
                  (case validate_realtime_config (me_config m) (Some rt) of
                     Inl e \<Rightarrow> Inl (Wrapped ''invalid real-time scenario config: %w'' e)
                   | Inr _ \<Rightarrow> Inr ())))))
          | _ \<Rightarrow> fails ''real-time game is missing scenario or lifecycle metadata'')))"

definition initial_lifecycle :: "log_meta \<Rightarrow> lifecycle_state" where
  "initial_lifecycle m =
     (if is_real_time_schema (me_schema m)
      then (case me_real_time m of None \<Rightarrow> '''' | Some rm \<Rightarrow> rm_lifecycle rm) else '''')"

definition validate_schema_action :: "i64 \<Rightarrow> action \<Rightarrow> unit res" where
  "validate_schema_action schema a =
     (if schema = real_time_schema5
      then guardE (an_kind a = action_countdown \<and> an_payload a \<noteq> NoPayload)
          ''countdown payload is not supported by real-time schema 5''
        (guardE (an_kind a = action_quit) ''quit is not supported by real-time schema 5''
        (if an_kind a \<noteq> action_update_quote then Inr ()
         else case an_payload a of
           UpdateQuote q \<Rightarrow> guardE (qp_revision q \<noteq> None) ''quote revision is not supported by real-time schema 5'' (Inr ())
         | _ \<Rightarrow> fails ''quote revision is not supported by real-time schema 5''))
      else guardE (schema = real_time_schema \<and> an_kind a = action_countdown \<and>
            (case an_payload a of CountdownComplete _ _ \<Rightarrow> False | _ \<Rightarrow> True))
          ''countdown quote is required by real-time schema 6''
        (guardE (schema = real_time_schema \<and> an_kind a = action_update_quote \<and>
            (case an_payload a of UpdateQuote q \<Rightarrow> qp_revision q = None | _ \<Rightarrow> True))
          ''quote revision is required by real-time schema 6'' (Inr ())))"

definition valid_rejection_code :: "i64 \<Rightarrow> action \<Rightarrow> string \<Rightarrow> bool" where
  "valid_rejection_code schema a code \<longleftrightarrow>
     code = code_rejected \<or>
     schema = real_time_schema \<and> an_kind a = action_update_quote \<and> code = code_conflict"

text \<open>The lifecycle that an accepted record leads to.\<close>

definition validate_transition :: "lifecycle_state \<Rightarrow> action \<Rightarrow> log_record \<Rightarrow> unit res" where
  "validate_transition previous a r =
     (let participant = (an_source a = ParticipantSource); system = (an_source a = SystemSource);
          accepted = (rd_rejection r = None); over = st_over (rs_state (rd_result r));
          running = (previous = lifecycle_running);
          finish = (\<lambda>want. guardE (isl (validate_lifecycle (rd_lifecycle r)) \<or> rd_lifecycle r \<noteq> want)
            ''record has invalid resulting lifecycle'' (Inr ()))
      in
      guardE (previous = lifecycle_completed) ''event recorded after lifecycle completed''
     (guardE ((an_kind a = action_start \<or> an_kind a = action_countdown \<or>
               an_kind a = action_pause \<and> previous = lifecycle_countdown) \<and> rd_elapsed r \<noteq> 0)
        ''countdown lifecycle cannot advance market time''
     (if an_kind a = action_start
      then guardE (previous \<noteq> lifecycle_preparing \<or> \<not> participant) ''invalid start lifecycle transition''
        (finish (if accepted then lifecycle_countdown else previous))
      else if an_kind a = action_countdown
      then guardE (previous \<noteq> lifecycle_countdown \<or> \<not> system \<or> \<not> accepted) ''invalid countdown lifecycle transition''
        (finish lifecycle_running)
      else if an_kind a = action_pause
      then (case an_payload a of
          PauseSession reason \<Rightarrow>
            guardE (\<not> running \<and> previous \<noteq> lifecycle_countdown \<or> \<not> accepted) ''invalid pause lifecycle transition''
           (guardE (participant \<and> reason \<noteq> PausePlayer \<or>
                    system \<and> reason \<noteq> PauseShutdown \<and> reason \<noteq> PauseRecovery) ''pause source does not match reason''
              (finish lifecycle_paused))
        | _ \<Rightarrow> fails ''invalid pause lifecycle transition'')
      else if an_kind a = action_resume
      then guardE (previous \<noteq> lifecycle_paused \<or> \<not> participant \<or> \<not> accepted) ''invalid resume lifecycle transition''
        (finish lifecycle_running)
      else if an_kind a = action_quit
      then guardE (\<not> participant \<or> an_payload a \<noteq> NoPayload \<or> accepted \<and> \<not> over) ''invalid quit lifecycle transition''
        (finish (if accepted then lifecycle_completed else previous))
      else if an_kind a = action_update_quote
      then guardE (\<not> running \<or> \<not> participant) ''quote outside running lifecycle''
        (finish (if accepted \<and> over then lifecycle_completed else previous))
      else if an_kind a \<in> {action_arrival, action_mark_move, action_carry, action_expired}
      then guardE (\<not> running \<or> \<not> system \<or> \<not> accepted) ''system event outside running lifecycle''
        (guardE (an_kind a = action_expired \<and> \<not> over) ''time expiry must complete lifecycle''
          (finish (if over then lifecycle_completed else previous)))
      else fails ''unsupported lifecycle action'')))"

definition record_id :: "log_record \<Rightarrow> string" where
  "record_id r = (case rd_action r of None \<Rightarrow> cm_id (rd_command r) | Some d \<Rightarrow> da_id d)"

definition bad_rejection :: "i64 \<Rightarrow> action \<Rightarrow> log_record \<Rightarrow> bool" where
  "bad_rejection schema a r \<longleftrightarrow>
     (case rd_rejection r of
        None \<Rightarrow> False
      | Some j \<Rightarrow> an_source a \<noteq> ParticipantSource \<or> \<not> valid_rejection_code schema a (rj_code j) \<or> rj_message j = '''')"

definition validate_record_input :: "log_record \<Rightarrow> log_meta \<Rightarrow> u64 \<Rightarrow> i64 \<Rightarrow> lifecycle_state \<Rightarrow> string res" where
  "validate_record_input r m version elapsed lifecycle =
     guardE (rd_version r \<noteq> version \<or>
         \<not> (rd_schema r = me_schema m \<or> effective_mode m = play_mode_turn_based \<and> rd_schema r = schema_version))
       ''invalid record version or schema''
     (if effective_mode m = play_mode_real_time
      then (case rd_action r of
          None \<Rightarrow> fails ''invalid real-time record''
        | Some d \<Rightarrow>
            guardE (rd_command r \<noteq> zero_command \<or> rd_elapsed r < elapsed) ''invalid real-time record''
           (bindE (decode_action d) (\<lambda>a.
            bindE (validate_schema_action (me_schema m) a) (\<lambda>_.
            guardE (bad_rejection (me_schema m) a r) ''invalid durable rejection''
           (bindE (validate_transition lifecycle a r) (\<lambda>_. Inr (an_id a)))))))
      else guardE (cm_id (rd_command r) = '''' \<or> rd_action r \<noteq> None \<or> rd_elapsed r \<noteq> 0 \<or> rd_lifecycle r \<noteq> '''' \<or>
             rd_rejection r \<noteq> None) ''invalid turn-based record'' (Inr (cm_id (rd_command r))))"

subsection \<open>Checksums\<close>

definition hex_digit :: "nat \<Rightarrow> char" where
  "hex_digit n = (if n < 10 then char_of (48 + n) else char_of (87 + n))"

definition hex_of :: "byte list \<Rightarrow> string" where
  "hex_of bs = concat (map (\<lambda>b. [hex_digit (unat b div 16), hex_digit (unat b mod 16)]) bs)"

definition digest :: "string \<Rightarrow> string" where
  "digest s = hex_of (sha256 (bytes_of s))"

text \<open>Schema 1 hashes without a domain and without the metadata; the others are separated by domain.\<close>

definition domain_of :: "string \<Rightarrow> i64 \<Rightarrow> string" where
  "domain_of kind schema = ''market-maker/eventlog/'' @ kind @ ''/v'' @ format_int schema @ [char_of (0::nat)]"

definition record_checksum :: "wire \<Rightarrow> log_record \<Rightarrow> string res" where
  "record_checksum w r =
     (let data = wi_record w (r\<lparr>rd_checksum := ''''\<rparr>) in
      if rd_schema r = schema1 then Inr (digest (rd_previous r @ data))
      else if rd_schema r \<in> {schema2, schema3, schema_version, real_time_schema5, real_time_schema}
      then Inr (digest (domain_of ''record'' (rd_schema r) @ rd_previous r @ rd_meta_checksum r @ data))
      else fails ''unsupported event record schema'')"

definition metadata_checksum :: "wire \<Rightarrow> log_meta \<Rightarrow> string res" where
  "metadata_checksum w m =
     (let data = wi_meta w (m\<lparr>me_checksum := ''''\<rparr>) in
      if me_schema m \<in> {schema2, schema3, schema_version, real_time_schema5, real_time_schema}
      then Inr (digest (domain_of ''meta'' (me_schema m) @ data))
      else fails ''unsupported game metadata schema'')"

end
