(* ===== verification/Log_File.thy ===== *)
theory Log_File
  imports Event_Log
begin

text \<open>
  The log as a file: creating, appending, loading, opening and recovering (\<^verbatim>\<open>internal/eventlog/log.go\<close>).
  The contents of \<^verbatim>\<open>events.jsonl\<close> is a string of bytes; an operation that changes the file returns
  its new contents.
\<close>

definition newline :: char where "newline = CHR 0x0A"

subsection \<open>Creating and metadata\<close>

definition zero_cursor :: "log_meta \<Rightarrow> cursor" where
  "zero_cursor m = \<lparr>cu_last = '''', cu_next = 1, cu_ids = {|me_create m|}, cu_elapsed = 0,
     cu_lifecycle = initial_lifecycle m\<rparr>"

text \<open>\<^verbatim>\<open>createAtWithMode\<close>, up to the directories it makes: the metadata, its line and the empty log.\<close>

definition create_log ::
  "wire \<Rightarrow> string \<Rightarrow> string \<Rightarrow> string \<Rightarrow> config \<Rightarrow> scenario_snapshot option \<Rightarrow> play_mode \<Rightarrow> u64 \<Rightarrow> int \<Rightarrow> (log \<times> string) res" where
  "create_log w game owner create cfg scen mode seed now =
     bindE (validate_config cfg) (\<lambda>_.
     guardE (create = '''') ''create command id is required''
     (let real = (mode = play_mode_real_time);
          meta = \<lparr>me_schema = (if real then real_time_schema else schema_version), me_game = game, me_owner = owner,
            me_create = create, me_created = now, me_config = cfg, me_scenario = scen, me_mode = mode,
            me_real_time = (if real
              then Some \<lparr>rm_lifecycle_version = lifecycle_version, rm_lifecycle = lifecycle_preparing,
                          rm_generator = generator_version, rm_seed = seed\<rparr>
              else None), me_checksum = ''''\<rparr>
      in bindE (validate_meta meta) (\<lambda>_.
         bindE (metadata_checksum w meta) (\<lambda>ck.
         let m = meta\<lparr>me_checksum := ck\<rparr>; data = wi_meta w m in
         if int (length data) + 1 > max_metadata_bytes
         then Inl (Errorf ''game metadata exceeds %d-byte limit'' [show_dec max_metadata_bytes])
         else Inr (\<lparr>lo_meta = m, lo_cursor = zero_cursor m, lo_size = 0\<rparr>, data @ [newline])))))"

text \<open>\<^verbatim>\<open>ReadMeta\<close> on decoded metadata.\<close>

definition check_meta :: "wire \<Rightarrow> string \<Rightarrow> log_meta \<Rightarrow> log_meta res" where
  "check_meta w game m =
     guardE (\<not> supported_schema (me_schema m) \<or> me_game m \<noteq> game) ''unsupported or mismatched game metadata''
    (guardE (me_schema m \<noteq> schema1 \<and>
        (case metadata_checksum w m of Inl _ \<Rightarrow> True | Inr ck \<Rightarrow> me_checksum m = '''' \<or> me_checksum m \<noteq> ck))
       ''invalid game metadata checksum''
    (case validate_config (me_config m) of
       Inl e \<Rightarrow> Inl (Wrapped ''invalid stored config: %w'' e)
     | Inr _ \<Rightarrow> (case validate_meta m of
         Inl e \<Rightarrow> Inl (Wrapped ''invalid stored metadata: %w'' e)
       | Inr _ \<Rightarrow> Inr m)))"

subsection \<open>Appending\<close>

definition strip_recap :: "recap \<Rightarrow> recap" where
  "strip_recap r = r\<lparr>rc_adverse := 0, rc_scorecard := None, rc_orders := 0, rc_filled := 0,
     rc_informed_units := 0, rc_informed_pnl := 0\<rparr>"

definition advance :: "i64 \<Rightarrow> log_record \<Rightarrow> cursor \<Rightarrow> cursor" where
  "advance schema r c =
     (let c1 = c\<lparr>cu_last := rd_checksum r, cu_next := rd_version r + 1, cu_ids := finsert (record_id r) (cu_ids c)\<rparr> in
      if is_real_time_schema schema then c1\<lparr>cu_elapsed := rd_elapsed r, cu_lifecycle := rd_lifecycle r\<rparr> else c1)"

text \<open>The record as it is written.\<close>

definition prepare_record :: "wire \<Rightarrow> log \<Rightarrow> log_record \<Rightarrow> log_record res" where
  "prepare_record w l r =
     (let m = lo_meta l; c = lo_cursor l in
      case validate_record_input r m (cu_next c) (cu_elapsed c) (cu_lifecycle c) of
        Inl _ \<Rightarrow> fails ''invalid event record''
      | Inr i \<Rightarrow>
          guardE (i |\<in>| cu_ids c) ''duplicate event command id''
          (let r1 = r\<lparr>rd_schema := me_schema m, rd_previous := cu_last c\<rparr>;
               r2 = (if rd_schema r1 = schema1
                     then r1\<lparr>rd_recap := map_option strip_recap (rd_recap r1)\<rparr> else r1)
           in guardE (\<not> supported_schema (rd_schema r2)) ''invalid event record''
             (let r3 = r2\<lparr>rd_meta_checksum := (if rd_schema r2 = schema1 then '''' else me_checksum m)\<rparr> in
              bindE (record_checksum w r3) (\<lambda>ck. Inr (r3\<lparr>rd_checksum := ck\<rparr>)))))"

text \<open>\<^verbatim>\<open>verifyActiveFile\<close>, its part about the size.\<close>

definition size_changed :: "log \<Rightarrow> string \<Rightarrow> go_error" where
  "size_changed l data =
     Errorf ''event log size changed: got %d, acknowledged %d'' [show_dec (int (length data)), show_dec (lo_size l)]"

text \<open>What the write did: everything and it was synced, or an error after \<open>n\<close> bytes of the line had
  reached the file - possibly all of them.\<close>

datatype write_outcome = Durable | Broken nat

definition append_record ::
  "wire \<Rightarrow> log \<Rightarrow> log_record \<Rightarrow> write_outcome \<Rightarrow> string \<Rightarrow> (log_record res \<times> log) \<times> string" where
  "append_record w l r io data =
     (case prepare_record w l r of
        Inl e \<Rightarrow> ((Inl e, l), data)
      | Inr r1 \<Rightarrow>
          let line = wi_record w r1 @ [newline]; n = int (length line) in
          if int (length data) \<noteq> lo_size l
          then ((Inl (size_changed l data), l), data)
          else if n > max_events_bytes \<or> lo_size l > max_events_bytes - n
          then ((Inl (Errorf ''event log exceeds %d-byte limit'' [show_dec max_events_bytes]), l), data)
          else case io of
            Broken k \<Rightarrow> ((fails ''write event log'', l), data @ take k line)
          | Durable \<Rightarrow>
              ((Inr r1, l\<lparr>lo_cursor := advance (me_schema (lo_meta l)) r1 (lo_cursor l), lo_size := lo_size l + n\<rparr>),
               data @ line))"

subsection \<open>Loading\<close>

definition validate_record ::
  "wire \<Rightarrow> i64 \<Rightarrow> string \<Rightarrow> log_record \<Rightarrow> cursor \<Rightarrow> unit res" where
  "validate_record w schema meta_sum r c =
     guardE (rd_schema r \<noteq> schema \<or> rd_version r \<noteq> cu_next c \<or> record_id r = '''' \<or> rd_previous r \<noteq> cu_last c)
       ''invalid event record''
    (bindE
       (if is_real_time_schema schema
        then (case rd_action r of
            None \<Rightarrow> fails ''invalid real-time event record''
          | Some d \<Rightarrow>
              guardE (rd_command r \<noteq> zero_command \<or> rd_elapsed r < cu_elapsed c) ''invalid real-time event record''
             (case decode_action d of
                Inl _ \<Rightarrow> fails ''invalid real-time action or rejection''
              | Inr a \<Rightarrow>
                  guardE (isl (validate_schema_action schema a) \<or> bad_rejection schema a r)
                    ''invalid real-time action or rejection''
                   (validate_transition (cu_lifecycle c) a r)))
        else guardE (rd_action r \<noteq> None \<or> rd_rejection r \<noteq> None \<or> rd_elapsed r \<noteq> 0 \<or> rd_lifecycle r \<noteq> '''' \<or>
               cm_id (rd_command r) = '''') ''invalid turn-based event record'' (Inr ())) (\<lambda>_.
     guardE (schema \<noteq> schema1 \<and> supported_schema schema \<and> rd_meta_checksum r \<noteq> meta_sum)
       ''record is bound to different metadata''
    (guardE (\<not> supported_schema schema) ''unsupported event record schema''
    (guardE (record_id r |\<in>| cu_ids c) ''duplicate event command id''
    (guardE (case record_checksum w r of Inl _ \<Rightarrow> True | Inr ck \<Rightarrow> rd_checksum r = '''' \<or> rd_checksum r \<noteq> ck)
       ''invalid event record checksum'' (Inr ()))))))"

type_synonym reader = "log_record list \<times> cursor"

definition parse_line :: "wire \<Rightarrow> i64 \<Rightarrow> string \<Rightarrow> reader \<Rightarrow> string \<Rightarrow> reader res" where
  "parse_line w schema meta_sum st raw =
     (let line = trim_space raw; (rs, c) = st in
      if line = [] then Inr st
      else case wi_decode w line of
          Inl e \<Rightarrow> Inl (Wrapped ''decode event record: %w'' e)
        | Inr r \<Rightarrow> (case validate_record w schema meta_sum r c of
            Inl e \<Rightarrow> Inl (Wrapped ''event record: %w'' e)
          | Inr _ \<Rightarrow> Inr (rs @ [r], advance schema r c)))"

definition parse_start :: "i64 \<Rightarrow> string \<Rightarrow> lifecycle_state \<Rightarrow> cursor" where
  "parse_start schema create lifecycle =
     \<lparr>cu_last = '''', cu_next = 1, cu_ids = (if is_real_time_schema schema then {|create|} else {||}),
      cu_elapsed = 0, cu_lifecycle = lifecycle\<rparr>"

definition parse_records :: "wire \<Rightarrow> log_meta \<Rightarrow> string \<Rightarrow> log_record list res" where
  "parse_records w m data =
     bindE (foldE (parse_line w (me_schema m) (me_checksum m))
       ([], parse_start (me_schema m) (me_create m) (initial_lifecycle m)) (split_on newline data)) (\<lambda>(rs, _). Inr rs)"

definition up_to_newline :: "string \<Rightarrow> string" where
  "up_to_newline data = rev (dropWhile (\<lambda>c. c \<noteq> newline) (rev data))"

text \<open>A file that does not end with a line end is cut back to its last one.\<close>

definition load_records :: "wire \<Rightarrow> log_meta \<Rightarrow> string \<Rightarrow> (log_record list \<times> string) res" where
  "load_records w m data =
     (if int (length data) > max_events_bytes
      then Inl (Errorf ''event log exceeds %d-byte limit'' [show_dec max_events_bytes])
      else let kept = (if data \<noteq> [] \<and> last data \<noteq> newline then up_to_newline data else data) in
        bindE (parse_records w m kept) (\<lambda>rs. Inr (rs, kept)))"

text \<open>The state of a log with the given records, as \<^verbatim>\<open>Open\<close> and \<^verbatim>\<open>Recover\<close> rebuild it.\<close>

definition cursor_of :: "log_meta \<Rightarrow> log_record list \<Rightarrow> cursor" where
  "cursor_of m rs =
     (let c = (zero_cursor m)\<lparr>cu_next := of_nat (length rs + 1),
                cu_ids := finsert (me_create m) (fset_of_list (map record_id rs))\<rparr>
      in if rs = [] then c
         else let c1 = c\<lparr>cu_last := rd_checksum (last rs)\<rparr> in
           if is_real_time_schema (me_schema m)
           then c1\<lparr>cu_elapsed := rd_elapsed (last rs), cu_lifecycle := rd_lifecycle (last rs)\<rparr> else c1)"

definition open_log :: "wire \<Rightarrow> log_meta \<Rightarrow> string \<Rightarrow> (log \<times> log_record list \<times> string) res" where
  "open_log w m data =
     bindE (load_records w m data) (\<lambda>(rs, kept).
     Inr (\<lparr>lo_meta = m, lo_cursor = cursor_of m rs, lo_size = int (length kept)\<rparr>, rs, kept))"

subsection \<open>Recovery\<close>

definition matches_acknowledged :: "log \<Rightarrow> log_record list \<Rightarrow> bool" where
  "matches_acknowledged l rs \<longleftrightarrow> lo_cursor l = cursor_of (lo_meta l) rs"

text \<open>The scan of an uncertain suffix: complete valid lines are taken, the rest is left. The result is
  the records, the cursor and the bytes taken.\<close>

function scan_suffix ::
  "wire \<Rightarrow> i64 \<Rightarrow> string \<Rightarrow> reader \<Rightarrow> string \<Rightarrow> string \<Rightarrow> reader \<times> string" where
  "scan_suffix w schema meta_sum st taken left =
     (if newline \<notin> set left then (st, taken)
      else
        let raw = takeWhile (\<lambda>c. c \<noteq> newline) left; rest = drop (length raw + 1) left;
            line = trim_space raw; (rs, c) = st
        in if line = [] then (st, taken)
           else case wi_decode w line of
               Inl _ \<Rightarrow> (st, taken)
             | Inr r \<Rightarrow> (case validate_record w schema meta_sum r c of
                 Inl _ \<Rightarrow> (st, taken)
               | Inr _ \<Rightarrow> scan_suffix w schema meta_sum (rs @ [r], advance schema r c) (taken @ raw @ [newline]) rest))"
  by pat_completeness auto
termination
  by (relation "measure (\<lambda>(_, _, _, _, _, s). length s)")
    (auto simp: Let_def intro!: diff_less length_pos_if_in_set)

declare scan_suffix.simps [simp del]

definition recover_data :: "wire \<Rightarrow> log \<Rightarrow> string \<Rightarrow> (log_record list \<times> string) res" where
  "recover_data w l data =
     (let m = lo_meta l; n = nat (lo_size l); acked = take n data in
      guardE (int (length data) < lo_size l) ''event log was truncated below acknowledged size''
     (guardE (acked \<noteq> [] \<and> last acked \<noteq> newline) ''acknowledged event log boundary is not newline-terminated''
     (case parse_records w m acked of
        Inl e \<Rightarrow> Inl (Wrapped ''validate acknowledged event log prefix: %w'' e)
      | Inr rs \<Rightarrow>
          guardE (\<not> matches_acknowledged l rs) ''acknowledged event log prefix does not match active state''
          (let ((rs', _), taken) = scan_suffix w (me_schema m) (me_checksum m) (rs, lo_cursor l) [] (drop n data)
           in Inr (rs', acked @ taken)))))"

definition recover_log :: "wire \<Rightarrow> log \<Rightarrow> string \<Rightarrow> (log_record list \<times> log \<times> string) res" where
  "recover_log w l data =
     (if int (length data) < lo_size l then Inl (size_changed l data)
      else if int (length data) > max_events_bytes
      then Inl (Errorf ''event log exceeds %d-byte limit'' [show_dec max_events_bytes])
      else bindE (recover_data w l data) (\<lambda>(rs, kept).
        Inr (rs, l\<lparr>lo_cursor := cursor_of (lo_meta l) rs, lo_size := int (length kept)\<rparr>, kept)))"

end
