(* ===== verification/Log_Inv.thy ===== *)
theory Log_Inv
  imports Log_File "HOL-Library.Sublist"
begin

text \<open>
  What the log keeps: the records a file holds, the agreement of the log's state with the file, and
  how appending, failing writes, recovery and reopening act on them.
\<close>

subsection \<open>Lines\<close>

definition closed_file :: "string \<Rightarrow> bool" where
  "closed_file data \<longleftrightarrow> data = [] \<or> last data = newline"

lemma split_on_not_empty [simp]: "split_on c xs \<noteq> []"
  by (induction xs) (auto split: list.split)

lemma split_on_append: "split_on c (xs @ c # ys) = split_on c xs @ split_on c ys"
proof (induction xs)
  case (Cons x xs)
  then show ?case by (cases "split_on c xs") (auto split: list.split)
qed simp

lemma split_on_none: "c \<notin> set xs \<Longrightarrow> split_on c xs = [xs]"
  by (induction xs) auto

lemma split_on_line:
  assumes "closed_file data" and "newline \<notin> set s"
  shows "split_on newline (data @ s @ [newline]) = butlast (split_on newline data) @ [s, []]"
    and "\<exists>ls. split_on newline data = ls @ [[]]"
proof -
  have "split_on newline (data @ s @ [newline]) = butlast (split_on newline data) @ [s, []] \<and>
      (\<exists>ls. split_on newline data = ls @ [[]])"
  proof (cases "data = []")
    case True
    then show ?thesis using split_on_append [of newline s "[]"] split_on_none [OF assms(2)] by simp
  next
    case False
    then obtain d where d: "data = d @ [newline]" using assms(1) by (metis append_butlast_last_id closed_file_def)
    show ?thesis
      using split_on_append [of newline d "s @ [newline]"] split_on_append [of newline d "[]"]
        split_on_append [of newline s "[]"] split_on_none [OF assms(2)]
      by (simp add: d)
  qed
  then show "split_on newline (data @ s @ [newline]) = butlast (split_on newline data) @ [s, []]"
    and "\<exists>ls. split_on newline data = ls @ [[]]" by blast+
qed

lemma parse_line_empty [simp]: "parse_line w schema ms st [] = Inr st"
proof -
  have "trim_space [] = []" by code_simp
  then show ?thesis by (cases st) (simp add: parse_line_def Let_def)
qed

definition read_lines :: "wire \<Rightarrow> log_meta \<Rightarrow> reader \<Rightarrow> string \<Rightarrow> reader res" where
  "read_lines w m st data = foldE (parse_line w (me_schema m) (me_checksum m)) st (split_on newline data)"

definition start_of :: "log_meta \<Rightarrow> reader" where
  "start_of m = ([], parse_start (me_schema m) (me_create m) (initial_lifecycle m))"

lemma parse_records_eq: "parse_records w m data = bindE (read_lines w m (start_of m) data) (\<lambda>(rs, _). Inr rs)"
  by (simp add: parse_records_def read_lines_def start_of_def)

lemma read_line:
  assumes "closed_file data" and "newline \<notin> set s"
  shows "read_lines w m st (data @ s @ [newline]) =
    bindE (read_lines w m st data) (\<lambda>st1. parse_line w (me_schema m) (me_checksum m) st1 s)"
proof -
  obtain ls where ls: "split_on newline data = ls @ [[]]" using split_on_line(2) [OF assms] by blast
  show ?thesis
    unfolding read_lines_def split_on_line(1) [OF assms] ls
    by (simp add: foldE_append)
      (cases "foldE (parse_line w (me_schema m) (me_checksum m)) st ls"; simp;
       cases "parse_line w (me_schema m) (me_checksum m) (case foldE (parse_line w (me_schema m) (me_checksum m)) st ls of Inr x \<Rightarrow> x) s"; simp)
qed

subsection \<open>Digests are not empty\<close>

lemma sha_round_length: "length st = 8 \<Longrightarrow> length (sha_round st kw) = 8"
  by (cases "(st, kw)" rule: sha_round.cases) (auto simp: Let_def)

lemma sha_rounds_length: "length st = 8 \<Longrightarrow> length (foldl sha_round st kws) = 8"
  by (induction kws arbitrary: st) (simp_all add: sha_round_length)

lemma sha_blocks_length: "length st = 8 \<Longrightarrow> length (sha_blocks st ws) = 8"
proof (induction st ws rule: sha_blocks.induct)
  case (1 st ws)
  then show ?case
    by (subst sha_blocks.simps) (simp add: sha_block_def sha_rounds_length)
qed

lemma digest_not_empty [simp]: "digest s \<noteq> ''''"
proof -
  have "length (sha_blocks sha_init (be32 (sha_pad (bytes_of s)))) = 8"
    by (rule sha_blocks_length) (simp add: sha_init_def)
  then obtain w ws where "sha_blocks sha_init (be32 (sha_pad (bytes_of s))) = w # ws"
    by (cases "sha_blocks sha_init (be32 (sha_pad (bytes_of s)))") auto
  then have "sha256 (bytes_of s) \<noteq> []" by (simp add: sha256_def be_bytes_def)
  then show ?thesis by (cases "sha256 (bytes_of s)") (simp_all add: digest_def hex_of_def)
qed

lemma record_checksum_not_empty: "record_checksum w r = Inr ck \<Longrightarrow> ck \<noteq> ''''"
  by (auto simp: record_checksum_def Let_def fails_def split: if_splits)

subsection \<open>Records that a log accepts\<close>

text \<open>The records a reader takes one after the other, and where it stands behind them.\<close>

fun accepts :: "wire \<Rightarrow> log_meta \<Rightarrow> cursor \<Rightarrow> log_record list \<Rightarrow> bool" where
  "accepts w m c [] \<longleftrightarrow> True"
| "accepts w m c (r # rs) \<longleftrightarrow>
     validate_record w (me_schema m) (me_checksum m) r c = Inr () \<and> accepts w m (advance (me_schema m) r c) rs"

definition behind :: "log_meta \<Rightarrow> log_record list \<Rightarrow> cursor \<Rightarrow> cursor" where
  "behind m rs c = fold (advance (me_schema m)) rs c"

lemma behind_simps [simp]:
  "behind m [] c = c"
  "behind m (r # rs) c = behind m rs (advance (me_schema m) r c)"
  "behind m (rs @ rs') c = behind m rs' (behind m rs c)"
  by (simp_all add: behind_def)

lemma accepts_append [simp]: "accepts w m c (rs @ rs') \<longleftrightarrow> accepts w m c rs \<and> accepts w m (behind m rs c) rs'"
  by (induction rs arbitrary: c) auto

lemma parse_line_cases:
  assumes "parse_line w (me_schema m) (me_checksum m) (rs, c) line = Inr (rs', c')"
  obtains "rs' = rs" and "c' = c" and "trim_space line = []"
  | r where "wi_decode w (trim_space line) = Inr r" and "rs' = rs @ [r]" and "accepts w m c [r]" and "c' = behind m [r] c"
proof (cases "trim_space line = []")
  case True
  then have "rs' = rs" and "c' = c" using assms by (simp_all add: parse_line_def)
  then show ?thesis using that(1) True by blast
next
  case False
  define line' where "line' = trim_space line"
  have parse: "(case wi_decode w line' of
          Inl e \<Rightarrow> Inl (Wrapped ''decode event record: %w'' e)
        | Inr r \<Rightarrow> (case validate_record w (me_schema m) (me_checksum m) r c of
            Inl e \<Rightarrow> Inl (Wrapped ''event record: %w'' e)
          | Inr _ \<Rightarrow> Inr (rs @ [r], advance (me_schema m) r c))) = Inr (rs', c')"
    using assms False by (simp only: parse_line_def Let_def prod.case line'_def if_False)
  then obtain r where r: "wi_decode w line' = Inr r" by (cases "wi_decode w line'") simp_all
  obtain u where u: "validate_record w (me_schema m) (me_checksum m) r c = Inr u"
    using parse r by (cases "validate_record w (me_schema m) (me_checksum m) r c") simp_all
  have "rs' = rs @ [r]" and "c' = advance (me_schema m) r c" using parse r u by simp_all
  then show ?thesis using that(2) r u by (simp add: line'_def)
qed

definition reads :: "wire \<Rightarrow> log_meta \<Rightarrow> cursor \<Rightarrow> reader \<Rightarrow> bool" where
  "reads w m c st \<longleftrightarrow> accepts w m c (fst st) \<and> snd st = behind m (fst st) c"

lemma parse_line_reads:
  assumes "reads w m c st" and "parse_line w (me_schema m) (me_checksum m) st line = Inr st'"
  shows "reads w m c st'"
proof -
  obtain rs c1 where st: "st = (rs, c1)" by (cases st)
  obtain rs' c2 where st': "st' = (rs', c2)" by (cases st')
  show ?thesis
    using parse_line_cases [OF assms(2) [unfolded st st']] assms(1)
    by cases (simp_all add: reads_def st st')
qed

lemma read_lines_reads:
  assumes "read_lines w m (start_of m) data = Inr st"
  shows "reads w m (snd (start_of m)) st"
proof (rule foldE_invariant [where P = "reads w m (snd (start_of m))"])
  show "foldE (parse_line w (me_schema m) (me_checksum m)) (start_of m) (split_on newline data) = Inr st"
    using assms by (simp add: read_lines_def)
  show "reads w m (snd (start_of m)) (start_of m)" by (simp add: reads_def start_of_def)
qed (rule parse_line_reads)

lemma parse_records_accepts:
  assumes "parse_records w m data = Inr rs"
  shows "accepts w m (snd (start_of m)) rs"
    and "read_lines w m (start_of m) data = Inr (rs, behind m rs (snd (start_of m)))"
proof -
  obtain st where st: "read_lines w m (start_of m) data = Inr st" and rs: "fst st = rs"
    using assms by (auto simp: parse_records_eq)
  note facts = read_lines_reads [OF st, unfolded reads_def rs]
  show "accepts w m (snd (start_of m)) rs" using facts by simp
  show "read_lines w m (start_of m) data = Inr (rs, behind m rs (snd (start_of m)))"
    using st facts rs by (metis prod.collapse)
qed

subsection \<open>The metadata decides the kind of log\<close>

definition good_meta :: "log_meta \<Rightarrow> bool" where
  "good_meta m \<longleftrightarrow> supported_schema (me_schema m) \<and> validate_meta m = Inr ()"

lemmas schema_numbers = schema1_def schema2_def schema3_def schema_version_def real_time_schema5_def real_time_schema_def

lemma schemas_distinct:
  "schema1 \<le> schema3" "schema2 \<le> schema3" "\<not> schema_version \<le> schema3" "\<not> real_time_schema5 \<le> schema3"
  "\<not> real_time_schema \<le> schema3" "\<not> is_real_time_schema schema_version"
  by code_simp+

lemma play_modes_distinct [simp]: "play_mode_turn_based \<noteq> play_mode_real_time"
  by (simp add: play_mode_turn_based_def play_mode_real_time_def)

lemma effective_real_time:
  assumes "good_meta m"
  shows "effective_mode m = play_mode_real_time \<longleftrightarrow> is_real_time_schema (me_schema m)"
proof (cases "me_schema m \<le> schema3")
  case True
  then show ?thesis
    using schemas_distinct by (auto simp: effective_mode_def is_real_time_schema_def)
next
  case False
  then have valid: "bindE (validate_play_mode (me_mode m)) (\<lambda>_.
        if me_mode m = play_mode_turn_based
        then guardE (me_schema m \<noteq> schema_version \<or> me_real_time m \<noteq> None)
          ''turn-based game contains real-time lifecycle'' (Inr ())
        else case (me_real_time m, me_scenario m) of
            (Some rm, Some s) \<Rightarrow>
              (case ss_real_time s of
                 None \<Rightarrow> fails ''real-time game is missing scenario or lifecycle metadata''
               | Some rt \<Rightarrow>
                   guardE (\<not> is_real_time_schema (me_schema m))
                     ''real-time game is missing scenario or lifecycle metadata''
                  (guardE (\<not> snapshot_supports_mode s play_mode_real_time)
                     ''scenario does not support real-time mode''
                  (guardE (rm_lifecycle_version rm \<noteq> lifecycle_version \<or> rm_generator rm \<noteq> generator_version \<or>
                           rt_generator rt \<noteq> rm_generator rm \<or> rm_seed rm = 0)
                     ''unsupported real-time lifecycle, generator version, or seed''
                  (guardE (rm_lifecycle rm \<noteq> lifecycle_preparing)
                     ''real-time game must initially be preparing''
                  (case validate_realtime_config (me_config m) (Some rt) of
                     Inl e \<Rightarrow> Inl (Wrapped ''invalid real-time scenario config: %w'' e)
                   | Inr _ \<Rightarrow> Inr ())))))
          | _ \<Rightarrow> fails ''real-time game is missing scenario or lifecycle metadata'') = Inr ()"
    using assms by (auto simp: good_meta_def validate_meta_def)
  show ?thesis
  proof (cases "me_mode m = play_mode_turn_based")
    case True
    then have "me_schema m = schema_version" using valid by auto
    then show ?thesis
      using True False schemas_distinct by (simp add: effective_mode_def)
  next
    case turn: False
    then have "is_real_time_schema (me_schema m)"
      using valid by (auto split: option.splits)
    moreover have "me_mode m = play_mode_real_time"
      using valid turn by (auto simp: validate_play_mode_def split: if_splits)
    ultimately show ?thesis using False by (simp add: effective_mode_def)
  qed
qed

subsection \<open>A record that is prepared is accepted\<close>

lemma record_fields_ignored [simp]:
  "validate_transition l a (r\<lparr>rd_schema := s\<rparr>) = validate_transition l a r"
  "validate_transition l a (r\<lparr>rd_previous := p\<rparr>) = validate_transition l a r"
  "validate_transition l a (r\<lparr>rd_recap := q\<rparr>) = validate_transition l a r"
  "validate_transition l a (r\<lparr>rd_meta_checksum := p\<rparr>) = validate_transition l a r"
  "validate_transition l a (r\<lparr>rd_checksum := p\<rparr>) = validate_transition l a r"
  "bad_rejection s' a (r\<lparr>rd_schema := s\<rparr>) = bad_rejection s' a r"
  "bad_rejection s' a (r\<lparr>rd_previous := p\<rparr>) = bad_rejection s' a r"
  "bad_rejection s' a (r\<lparr>rd_recap := q\<rparr>) = bad_rejection s' a r"
  "bad_rejection s' a (r\<lparr>rd_meta_checksum := p\<rparr>) = bad_rejection s' a r"
  "bad_rejection s' a (r\<lparr>rd_checksum := p\<rparr>) = bad_rejection s' a r"
  "record_id (r\<lparr>rd_schema := s\<rparr>) = record_id r"
  "record_id (r\<lparr>rd_previous := p\<rparr>) = record_id r"
  "record_id (r\<lparr>rd_recap := q\<rparr>) = record_id r"
  "record_id (r\<lparr>rd_meta_checksum := p\<rparr>) = record_id r"
  "record_id (r\<lparr>rd_checksum := p\<rparr>) = record_id r"
  by (simp_all add: validate_transition_def bad_rejection_def record_id_def split: option.split)

text \<open>What a record says besides its place in the chain.\<close>

definition fitting :: "log_meta \<Rightarrow> i64 \<Rightarrow> lifecycle_state \<Rightarrow> log_record \<Rightarrow> bool" where
  "fitting m e lc r \<longleftrightarrow>
     (if is_real_time_schema (me_schema m)
      then rd_command r = zero_command \<and> e \<le> rd_elapsed r \<and>
        (\<exists>d a. rd_action r = Some d \<and> decode_action d = Inr a \<and> validate_schema_action (me_schema m) a = Inr () \<and>
          \<not> bad_rejection (me_schema m) a r \<and> validate_transition lc a r = Inr ())
      else rd_action r = None \<and> rd_rejection r = None \<and> rd_elapsed r = 0 \<and> rd_lifecycle r = '''')"

lemma fitting_fields [simp]:
  "fitting m e lc (r\<lparr>rd_schema := s\<rparr>) = fitting m e lc r"
  "fitting m e lc (r\<lparr>rd_previous := p\<rparr>) = fitting m e lc r"
  "fitting m e lc (r\<lparr>rd_recap := q\<rparr>) = fitting m e lc r"
  "fitting m e lc (r\<lparr>rd_meta_checksum := p\<rparr>) = fitting m e lc r"
  "fitting m e lc (r\<lparr>rd_checksum := p\<rparr>) = fitting m e lc r"
  by (simp_all add: fitting_def)

lemma validate_record_input_Inr:
  assumes "validate_record_input r m v e lc = Inr i" and "good_meta m"
  shows "rd_version r = v" and "i = record_id r" and "i \<noteq> ''''" and "fitting m e lc r"
proof -
  have "rd_version r = v \<and> i = record_id r \<and> i \<noteq> '''' \<and> fitting m e lc r"
    using assms(1)
    by (auto simp: validate_record_input_def record_id_def decode_action_header fitting_def
        effective_real_time [OF assms(2), symmetric] split: if_splits option.splits)
  then show "rd_version r = v" and "i = record_id r" and "i \<noteq> ''''" and "fitting m e lc r" by blast+
qed

lemma not_isl_unit: "\<not> isl (x :: unit res) \<longleftrightarrow> x = Inr ()"
  by (cases x) simp_all

lemma validate_record_Inr:
  assumes "good_meta m"
  shows "validate_record w (me_schema m) k r c = Inr () \<longleftrightarrow>
    rd_schema r = me_schema m \<and> rd_version r = cu_next c \<and> record_id r \<noteq> '''' \<and> rd_previous r = cu_last c \<and>
    fitting m (cu_elapsed c) (cu_lifecycle c) r \<and> (me_schema m = schema1 \<or> rd_meta_checksum r = k) \<and>
    record_id r |\<notin>| cu_ids c \<and> rd_checksum r \<noteq> '''' \<and> record_checksum w r = Inr (rd_checksum r)"
    (is "?l \<longleftrightarrow> ?r")
proof
  assume ?l
  then show ?r
    using assms
    by (auto simp: validate_record_def fitting_def good_meta_def record_id_def not_isl_unit split: if_splits option.splits sum.splits)
next
  assume ?r
  then show ?l
    using assms
    by (auto simp: validate_record_def fitting_def good_meta_def guardE_def record_id_def split: if_splits)
qed

lemma record_checksum_field [simp]: "record_checksum w (r\<lparr>rd_checksum := k\<rparr>) = record_checksum w r"
  by (simp add: record_checksum_def Let_def)

lemma accepts_one:
  assumes "good_meta m"
  shows "accepts w m c [r] \<longleftrightarrow>
    rd_schema r = me_schema m \<and> rd_version r = cu_next c \<and> record_id r \<noteq> '''' \<and> rd_previous r = cu_last c \<and>
    fitting m (cu_elapsed c) (cu_lifecycle c) r \<and> (me_schema m = schema1 \<or> rd_meta_checksum r = me_checksum m) \<and>
    record_id r |\<notin>| cu_ids c \<and> rd_checksum r \<noteq> '''' \<and> record_checksum w r = Inr (rd_checksum r)"
  by (simp add: validate_record_Inr [OF assms])

lemma prepared_accepted:
  assumes "good_meta (lo_meta l)" and "prepare_record w l r = Inr r1"
  shows "accepts w (lo_meta l) (lo_cursor l) [r1]"
proof -
  define c where "c = lo_cursor l"
  define r2 where "r2 = (let r1 = r\<lparr>rd_schema := me_schema (lo_meta l), rd_previous := cu_last c\<rparr> in
    if rd_schema r1 = schema1 then r1\<lparr>rd_recap := map_option strip_recap (rd_recap r1)\<rparr> else r1)"
  define r3 where "r3 = r2\<lparr>rd_meta_checksum := (if rd_schema r2 = schema1 then '''' else me_checksum (lo_meta l))\<rparr>"
  obtain i ck where i: "validate_record_input r (lo_meta l) (cu_next c) (cu_elapsed c) (cu_lifecycle c) = Inr i"
    and new: "i |\<notin>| cu_ids c" and ck: "record_checksum w r3 = Inr ck" and r1: "r1 = r3\<lparr>rd_checksum := ck\<rparr>"
    using assms(2)
    by (auto simp: prepare_record_def c_def [symmetric] Let_def r2_def r3_def split: sum.splits)
  note input = validate_record_input_Inr [OF i assms(1)]
  have r2: "rd_schema r2 = me_schema (lo_meta l)" "rd_version r2 = rd_version r" "record_id r2 = record_id r"
    "rd_previous r2 = cu_last c" "fitting m e lc r2 = fitting m e lc r" for m e lc
    by (simp_all add: r2_def Let_def)
  show ?thesis
    unfolding accepts_one [OF assms(1)] c_def [symmetric]
    using input new ck record_checksum_not_empty [OF ck] r2 by (simp add: r1 r3_def)
qed

text \<open>Knowing fewer identifiers accepts no fewer records: a turn-based file is read without the
  identifier that created the game, while the open log refuses it.\<close>

lemma accepts_fewer:
  assumes "good_meta m" and "accepts w m c [r]" and "ids |\<subseteq>| cu_ids c"
  shows "accepts w m (c\<lparr>cu_ids := ids\<rparr>) [r]"
  using assms(2,3) unfolding accepts_one [OF assms(1)] by auto

subsection \<open>Where the reader and the log stand\<close>

lemma advance_ids [simp]: "cu_ids (advance s r c) = finsert (record_id r) (cu_ids c)"
  by (simp add: advance_def Let_def)

lemma behind_ids: "cu_ids (behind m rs c) = cu_ids c |\<union>| fset_of_list (map record_id rs)"
  by (induction rs arbitrary: c) auto

lemma behind_next:
  assumes "good_meta m" and "accepts w m c rs"
  shows "cu_next (behind m rs c) = cu_next c + of_nat (length rs)"
  using assms(2)
proof (induction rs arbitrary: c)
  case (Cons r rs)
  then have "rd_version r = cu_next c" using accepts_one [OF assms(1), of w c r] by simp
  then show ?case using Cons by (simp add: advance_def Let_def)
qed simp

lemma behind_last:
  "behind m rs c =
     (if rs = [] then c
      else advance (me_schema m) (last rs) (behind m (butlast rs) c))"
  by (cases rs rule: rev_cases) simp_all

lemma behind_still:
  assumes "\<not> is_real_time_schema (me_schema m)"
  shows "cu_elapsed (behind m rs c) = cu_elapsed c" and "cu_lifecycle (behind m rs c) = cu_lifecycle c"
  using assms by (induction rs arbitrary: c) (simp_all add: advance_def Let_def)

lemma cursor_of_behind:
  assumes "good_meta m" and "accepts w m (zero_cursor m\<lparr>cu_ids := ids\<rparr>) rs"
  shows "behind m rs (zero_cursor m\<lparr>cu_ids := ids\<rparr>) =
    cursor_of m rs\<lparr>cu_ids := ids |\<union>| fset_of_list (map record_id rs)\<rparr>"
proof (rule cursor.equality)
  let ?c = "zero_cursor m\<lparr>cu_ids := ids\<rparr>"
  show "cu_ids (behind m rs ?c) = cu_ids (cursor_of m rs\<lparr>cu_ids := ids |\<union>| fset_of_list (map record_id rs)\<rparr>)"
    by (simp add: behind_ids)
  show "cu_next (behind m rs ?c) = cu_next (cursor_of m rs\<lparr>cu_ids := ids |\<union>| fset_of_list (map record_id rs)\<rparr>)"
    using behind_next [OF assms] by (simp add: cursor_of_def Let_def zero_cursor_def)
  show "cu_last (behind m rs ?c) = cu_last (cursor_of m rs\<lparr>cu_ids := ids |\<union>| fset_of_list (map record_id rs)\<rparr>)"
    by (subst behind_last) (simp add: cursor_of_def Let_def zero_cursor_def advance_def)
  show "cu_elapsed (behind m rs ?c) = cu_elapsed (cursor_of m rs\<lparr>cu_ids := ids |\<union>| fset_of_list (map record_id rs)\<rparr>)"
    and "cu_lifecycle (behind m rs ?c) = cu_lifecycle (cursor_of m rs\<lparr>cu_ids := ids |\<union>| fset_of_list (map record_id rs)\<rparr>)"
    by (subst behind_last; simp add: cursor_of_def Let_def zero_cursor_def advance_def behind_still)+
qed simp

lemma cursor_of_snoc:
  assumes "rd_version r = cu_next (cursor_of m rs)"
  shows "cursor_of m (rs @ [r]) = advance (me_schema m) r (cursor_of m rs)"
  using assms
  by (intro cursor.equality) (auto simp: cursor_of_def advance_def Let_def zero_cursor_def)

lemma start_cursor:
  "snd (start_of m) = zero_cursor m\<lparr>cu_ids := (if is_real_time_schema (me_schema m) then {|me_create m|} else {||})\<rparr>"
  by (simp add: start_of_def parse_start_def zero_cursor_def)

text \<open>Where the reader stands behind a file is where the open log stands, up to the identifier of the
  creating command.\<close>

lemma reader_behind:
  assumes "good_meta m" and "parse_records w m data = Inr rs"
  obtains ids where "read_lines w m (start_of m) data = Inr (rs, cursor_of m rs\<lparr>cu_ids := ids\<rparr>)"
    and "ids |\<subseteq>| cu_ids (cursor_of m rs)"
proof -
  define ids0 where "ids0 = (if is_real_time_schema (me_schema m) then {|me_create m|} else {||})"
  note parse = parse_records_accepts [OF assms(2), unfolded start_cursor ids0_def [symmetric]]
  have "ids0 |\<union>| fset_of_list (map record_id rs) |\<subseteq>| cu_ids (cursor_of m rs)"
    by (auto simp: ids0_def cursor_of_def Let_def zero_cursor_def)
  then show ?thesis
    using that parse(2) cursor_of_behind [OF assms(1) parse(1)] by metis
qed

lemma closed_file_line [simp]: "closed_file (data @ s @ [newline])"
  by (simp add: closed_file_def)

text \<open>One more valid line at the end of a file is one more record.\<close>

lemma parse_appended:
  assumes "good_meta m" and "closed_file data" and "parse_records w m data = Inr rs"
    and "newline \<notin> set s" and "trim_space s \<noteq> []" and "wi_decode w (trim_space s) = Inr r"
    and "accepts w m (cursor_of m rs) [r]"
  shows "parse_records w m (data @ s @ [newline]) = Inr (rs @ [r])"
    and "cursor_of m (rs @ [r]) = advance (me_schema m) r (cursor_of m rs)"
proof -
  obtain ids where read: "read_lines w m (start_of m) data = Inr (rs, cursor_of m rs\<lparr>cu_ids := ids\<rparr>)"
    and ids: "ids |\<subseteq>| cu_ids (cursor_of m rs)" using reader_behind [OF assms(1,3)] .
  have "accepts w m (cursor_of m rs\<lparr>cu_ids := ids\<rparr>) [r]"
    using accepts_fewer [OF assms(1,7) ids] .
  then have "parse_line w (me_schema m) (me_checksum m) (rs, cursor_of m rs\<lparr>cu_ids := ids\<rparr>) s =
      Inr (rs @ [r], advance (me_schema m) r (cursor_of m rs\<lparr>cu_ids := ids\<rparr>))"
    using assms(5,6) by (simp add: parse_line_def)
  then show "parse_records w m (data @ s @ [newline]) = Inr (rs @ [r])"
    by (simp add: parse_records_eq read_line [OF assms(2,4)] read)
  show "cursor_of m (rs @ [r]) = advance (me_schema m) r (cursor_of m rs)"
    using cursor_of_snoc assms(7) accepts_one [OF assms(1)] by blast
qed

subsection \<open>The log and its file\<close>

definition holds :: "wire \<Rightarrow> log \<Rightarrow> string \<Rightarrow> log_record list \<Rightarrow> bool" where
  "holds w l data rs \<longleftrightarrow>
     good_meta (lo_meta l) \<and> closed_file data \<and> lo_size l = int (length data) \<and> lo_size l \<le> max_events_bytes \<and>
     parse_records w (lo_meta l) data = Inr rs \<and> lo_cursor l = cursor_of (lo_meta l) rs"

text \<open>The line of a record is read back as that record.\<close>

definition reads_back :: "wire \<Rightarrow> log_record \<Rightarrow> bool" where
  "reads_back w r \<longleftrightarrow>
     (let s = wi_record w r in
      newline \<notin> set s \<and> s \<noteq> [] \<and> trim_space s = s \<and> wi_decode w s = Inr r)"

lemma holds_parse_appended:
  assumes "holds w l data rs" and "reads_back w r" and "accepts w (lo_meta l) (lo_cursor l) [r]"
  shows "parse_records w (lo_meta l) (data @ wi_record w r @ [newline]) = Inr (rs @ [r])"
    and "cursor_of (lo_meta l) (rs @ [r]) = advance (me_schema (lo_meta l)) r (cursor_of (lo_meta l) rs)"
  using assms parse_appended [of "lo_meta l" data w rs "wi_record w r" r]
  by (simp_all add: holds_def reads_back_def Let_def)

lemma append_keeps:
  assumes "holds w l data rs" and "append_record w l r Durable data = ((Inr r1, l'), data')" and "reads_back w r1"
  shows "holds w l' data' (rs @ [r1])" and "lo_meta l' = lo_meta l"
proof -
  define line where "line = wi_record w r1 @ [newline]"
  have prep: "prepare_record w l r = Inr r1"
    and small: "\<not> (int (length line) > max_events_bytes \<or> lo_size l > max_events_bytes - int (length line))"
    and l': "l' = l\<lparr>lo_cursor := advance (me_schema (lo_meta l)) r1 (lo_cursor l), lo_size := lo_size l + int (length line)\<rparr>"
    and data': "data' = data @ line"
    using assms(2) by (auto simp: append_record_def Let_def line_def fails_def split: sum.splits if_splits)
  have "good_meta (lo_meta l)" using assms(1) by (simp add: holds_def)
  note facts = holds_parse_appended [OF assms(1,3) prepared_accepted [OF this prep], folded line_def]
  have "closed_file data'" by (simp add: data' line_def)
  then show "holds w l' data' (rs @ [r1])"
    using assms(1) facts small by (simp add: holds_def l' data')
  show "lo_meta l' = lo_meta l" by (simp add: l')
qed

subsection \<open>Recovery\<close>

lemma take_line:
  assumes "newline \<in> set s"
  shows "takeWhile (\<lambda>c. c \<noteq> newline) s @ newline # drop (length (takeWhile (\<lambda>c. c \<noteq> newline) s) + 1) s = s"
    and "newline \<notin> set (takeWhile (\<lambda>c. c \<noteq> newline) s)"
proof -
  obtain a b where s: "s = a @ newline # b" and a: "newline \<notin> set a" using split_list_first [OF assms] by blast
  have "takeWhile (\<lambda>c. c \<noteq> newline) (a @ newline # b) = a" using a by (induction a) auto
  then show "takeWhile (\<lambda>c. c \<noteq> newline) s @ newline # drop (length (takeWhile (\<lambda>c. c \<noteq> newline) s) + 1) s = s"
    by (simp add: s)
  show "newline \<notin> set (takeWhile (\<lambda>c. c \<noteq> newline) s)" using set_takeWhileD by fastforce
qed

text \<open>Whatever stands behind the acknowledged part: the scan takes whole lines off it, and what it has
  taken is a log that reads as the records it returns.\<close>

lemma scan_suffix_keeps:
  assumes "good_meta m" and "closed_file (data @ taken)" and "parse_records w m (data @ taken) = Inr rs"
    and "c = cursor_of m rs" and "scan_suffix w (me_schema m) (me_checksum m) (rs, c) taken left = ((rs', c'), taken')"
  shows "closed_file (data @ taken') \<and> parse_records w m (data @ taken') = Inr rs' \<and> prefix rs rs' \<and>
    prefix taken' (taken @ left)"
  using assms(2-)
proof (induction w "me_schema m" "me_checksum m" "(rs, c)" taken left arbitrary: rs c rule: scan_suffix.induct)
  case (1 w taken left rs c)
  let ?raw = "takeWhile (\<lambda>c. c \<noteq> newline) left" and ?rest = "drop (length (takeWhile (\<lambda>c. c \<noteq> newline) left) + 1) left"
  show ?case
  proof (cases "newline \<in> set left \<and> trim_space ?raw \<noteq> [] \<and>
      (\<exists>r. wi_decode w (trim_space ?raw) = Inr r \<and> validate_record w (me_schema m) (me_checksum m) r c = Inr ())")
    case False
    then have "((rs', c'), taken') = ((rs, c), taken)"
      using "1.prems"(4) by (subst (asm) scan_suffix.simps) (auto simp: Let_def split: if_splits sum.splits)
    then show ?thesis using "1.prems" by simp
  next
    case True
    then obtain r where r: "wi_decode w (trim_space ?raw) = Inr r"
      and valid: "validate_record w (me_schema m) (me_checksum m) r c = Inr ()" by blast
    note raw = take_line [of left] True
    have rec: "scan_suffix w (me_schema m) (me_checksum m) (rs @ [r], advance (me_schema m) r c) (taken @ ?raw @ [newline]) ?rest
        = ((rs', c'), taken')"
      using "1.prems"(4) True r valid by (subst (asm) scan_suffix.simps) (simp add: Let_def)
    note app = parse_appended [OF assms(1) "1.prems"(1,2), of ?raw r]
    have acc: "accepts w m (cursor_of m rs) [r]" using valid "1.prems"(3) by simp
    have "closed_file (data @ taken') \<and> parse_records w m (data @ taken') = Inr rs' \<and> prefix (rs @ [r]) rs' \<and>
        prefix taken' ((taken @ ?raw @ [newline]) @ ?rest)"
    proof (rule "1.hyps")
      show "parse_records w m (data @ taken @ ?raw @ [newline]) = Inr (rs @ [r])"
        using app acc r True raw by simp
    qed (use True r valid rec app acc raw "1.prems"(3) in \<open>simp_all add: closed_file_def\<close>)
    then show ?thesis using raw by (auto simp: prefix_def)
  qed
qed

lemma recover_extends:
  assumes "holds w l data rs" and "int (length (data @ tail)) \<le> max_events_bytes"
  obtains rs' l' data' where "recover_log w l (data @ tail) = Inr (rs', l', data')"
    and "holds w l' data' rs'" and "prefix rs rs'" and "prefix data data'" and "prefix data' (data @ tail)"
    and "lo_meta l' = lo_meta l"
proof -
  define m where "m = lo_meta l"
  note h = assms(1) [unfolded holds_def, folded m_def]
  obtain rs' c' taken where scan:
    "scan_suffix w (me_schema m) (me_checksum m) (rs, cursor_of m rs) [] tail = ((rs', c'), taken)"
    by (metis surj_pair)
  have keeps: "closed_file (data @ taken) \<and> parse_records w m (data @ taken) = Inr rs' \<and> prefix rs rs' \<and>
      prefix taken tail"
    using scan_suffix_keeps [of m data "[]" w rs "cursor_of m rs" tail rs' c' taken] h scan by simp
  define l' where "l' = l\<lparr>lo_cursor := cursor_of m rs', lo_size := int (length (data @ taken))\<rparr>"
  have recovered: "recover_data w l (data @ tail) = Inr (rs', data @ taken)"
    using h scan by (simp add: recover_data_def m_def [symmetric] matches_acknowledged_def closed_file_def guardE_def)
  have "recover_log w l (data @ tail) = Inr (rs', l', data @ taken)"
    unfolding recover_log_def recovered using assms(2) h by (simp add: l'_def m_def)
  moreover have "holds w l' (data @ taken) rs'"
    using h keeps assms(2) prefix_length_le [of taken tail] by (simp add: holds_def l'_def m_def)
  ultimately show ?thesis using that keeps by (simp add: l'_def)
qed

subsection \<open>Torn writes and reopening\<close>

lemma up_to_newline_torn:
  assumes "closed_file data" and "newline \<notin> set s"
  shows "up_to_newline (data @ s) = data"
proof -
  have "dropWhile (\<lambda>c. c \<noteq> newline) (rev s @ rev data) = dropWhile (\<lambda>c. c \<noteq> newline) (rev data)"
    using assms(2) by (intro dropWhile_append2) auto
  also have "\<dots> = rev data"
  proof (cases data rule: rev_cases)
    case (snoc d c)
    then show ?thesis using assms(1) by (simp add: closed_file_def)
  qed simp
  finally show ?thesis by (simp add: up_to_newline_def)
qed

lemma load_torn:
  assumes "closed_file data" and "newline \<notin> set s" and "int (length (data @ s)) \<le> max_events_bytes"
  shows "load_records w m (data @ s) = bindE (parse_records w m data) (\<lambda>rs. Inr (rs, data))"
proof (cases "s = []")
  case True
  then show ?thesis using assms by (auto simp: load_records_def closed_file_def)
next
  case False
  then have "last (data @ s) \<noteq> newline" using assms(2) by (metis last_append last_in_set)
  then show ?thesis
    using assms False up_to_newline_torn [OF assms(1,2)] by (simp add: load_records_def)
qed

text \<open>What may stand behind the acknowledged part: the beginning of the line of a record that the log
  was about to take.\<close>

definition torn :: "wire \<Rightarrow> log \<Rightarrow> string \<Rightarrow> bool" where
  "torn w l tail \<longleftrightarrow>
     tail = [] \<or> (\<exists>r k. accepts w (lo_meta l) (lo_cursor l) [r] \<and> reads_back w r \<and> tail = take k (wi_record w r @ [newline]))"

definition stored :: "wire \<Rightarrow> log \<Rightarrow> string \<Rightarrow> log_record list \<Rightarrow> bool" where
  "stored w l data rs \<longleftrightarrow>
     (\<exists>kept tail. data = kept @ tail \<and> holds w l kept rs \<and> torn w l tail \<and> int (length data) \<le> max_events_bytes)"

lemma storedE:
  assumes "stored w l data rs"
  obtains kept tail where "data = kept @ tail" and "holds w l kept rs" and "torn w l tail"
    and "int (length (kept @ tail)) \<le> max_events_bytes"
  using assms by (auto simp: stored_def)

lemma storedI:
  "holds w l kept rs \<Longrightarrow> torn w l tail \<Longrightarrow> int (length (kept @ tail)) \<le> max_events_bytes \<Longrightarrow> stored w l (kept @ tail) rs"
  unfolding stored_def by blast

lemma holds_stored: "holds w l data rs \<Longrightarrow> stored w l data rs"
  unfolding stored_def torn_def by (intro exI [of _ data] exI [of _ "[]"]) (simp add: holds_def)

lemma opens:
  assumes "holds w l data rs"
  shows "holds w \<lparr>lo_meta = lo_meta l, lo_cursor = cursor_of (lo_meta l) rs, lo_size = int (length data)\<rparr> data rs"
  using assms by (simp add: holds_def)

lemma open_extends:
  assumes "stored w l data rs"
  obtains rs' l' data' where "open_log w (lo_meta l) data = Inr (l', rs', data')"
    and "holds w l' data' rs'" and "prefix rs rs'" and "lo_meta l' = lo_meta l"
proof -
  define m where "m = lo_meta l"
  obtain kept tail where data: "data = kept @ tail" and h: "holds w l kept rs" and torn: "torn w l tail"
    and small: "int (length (kept @ tail)) \<le> max_events_bytes" using storedE [OF assms] .
  note kept = h [unfolded holds_def, folded m_def]
  consider (cut) "newline \<notin> set tail"
    | (whole) r where "accepts w m (lo_cursor l) [r]" and "reads_back w r" and "tail = wi_record w r @ [newline]"
  proof (cases "newline \<in> set tail")
    case True
    then obtain r k where r: "accepts w m (lo_cursor l) [r]" "reads_back w r"
      and tail: "tail = take k (wi_record w r @ [newline])"
      using torn by (auto simp: torn_def m_def)
    have "newline \<notin> set (take k (wi_record w r))"
      using r(2) by (auto simp: reads_back_def Let_def dest: in_set_takeD)
    then have "length (wi_record w r @ [newline]) \<le> k"
      using True tail by (cases "k \<le> length (wi_record w r)") auto
    then show ?thesis using whole r tail by simp
  qed (rule cut)
  then show ?thesis
  proof cases
    case cut
    then have "load_records w m data = Inr (rs, kept)"
      using load_torn [of kept tail w m] small kept by (simp add: data)
    then show ?thesis
      using that [of _ rs kept] opens [OF h] by (simp add: open_log_def m_def)
  next
    case whole
    define l' where "l' = \<lparr>lo_meta = m, lo_cursor = cursor_of m (rs @ [r]), lo_size = int (length data)\<rparr>"
    note app = holds_parse_appended [OF h whole(2) whole(1) [unfolded m_def], folded m_def]
    have closed: "closed_file data" by (simp add: data whole(3))
    then have "load_records w m data = Inr (rs @ [r], data)"
      using load_torn [of data "[]" w m] small app by (simp add: data whole(3))
    moreover have "holds w l' data (rs @ [r])"
      using kept closed app small by (simp add: holds_def l'_def data whole(3))
    ultimately show ?thesis
      using that [of l' "rs @ [r]" data] by (simp add: open_log_def m_def l'_def)
  qed
qed

lemma broken_append_keeps:
  assumes "holds w l data rs" and "append_record w l r io data = ((Inl e, l'), data')"
    and "case prepare_record w l r of Inl _ \<Rightarrow> True | Inr r1 \<Rightarrow> reads_back w r1"
  shows "stored w l data' rs" and "l' = l"
proof -
  have "l' = l \<and> stored w l data' rs"
  proof (cases "prepare_record w l r")
    case Inl
    then show ?thesis using assms(2) holds_stored [OF assms(1)] by (auto simp: append_record_def)
  next
    case (Inr r1)
    have "good_meta (lo_meta l)" using assms(1) by (simp add: holds_def)
    note acc = prepared_accepted [OF this Inr]
    show ?thesis
    proof (cases "data' = data")
      case True
      then show ?thesis
        using assms(2) Inr holds_stored [OF assms(1)]
        by (auto simp: append_record_def Let_def fails_def split: if_splits write_outcome.splits)
    next
      case False
      then obtain k where data': "data' = data @ take k (wi_record w r1 @ [newline])" and l': "l' = l"
        and small: "int (length data) + int (length (wi_record w r1 @ [newline])) \<le> max_events_bytes"
        using assms(1,2) Inr
        by (auto simp: append_record_def Let_def fails_def holds_def split: if_splits write_outcome.splits)
      have "torn w l (take k (wi_record w r1 @ [newline]))"
        using acc assms(3) Inr unfolding torn_def by auto
      moreover have "int (length (data @ take k (wi_record w r1 @ [newline]))) \<le> max_events_bytes"
        using small by simp
      ultimately show ?thesis using storedI [OF assms(1)] by (simp only: data' l' simp_thms)
    qed
  qed
  then show "stored w l data' rs" and "l' = l" by blast+
qed

lemma created_holds:
  assumes "create_log w game owner create cfg scen mode seed now = Inr (l, line)"
  shows "holds w l [] []"
proof -
  obtain m where m: "validate_meta m = Inr ()" "supported_schema (me_schema m)"
    and l: "\<exists>ck. l = \<lparr>lo_meta = m\<lparr>me_checksum := ck\<rparr>, lo_cursor = zero_cursor (m\<lparr>me_checksum := ck\<rparr>), lo_size = 0\<rparr>"
    using assms by (auto simp: create_log_def Let_def supported_schema_def split: if_splits)
  then obtain ck where l: "l = \<lparr>lo_meta = m\<lparr>me_checksum := ck\<rparr>, lo_cursor = zero_cursor (m\<lparr>me_checksum := ck\<rparr>), lo_size = 0\<rparr>"
    by blast
  have "validate_meta (m\<lparr>me_checksum := ck\<rparr>) = validate_meta m"
    by (simp add: validate_meta_def split: option.split)
  moreover have "parse_records w m2 [] = Inr []" for m2 by (simp add: parse_records_def)
  moreover have "cursor_of m2 [] = zero_cursor m2" for m2
    by (simp add: cursor_of_def Let_def zero_cursor_def)
  ultimately show ?thesis
    using m by (simp add: l holds_def good_meta_def closed_file_def max_events_bytes_def)
qed

end
