(* ===== verification/Log_Properties.thy ===== *)
theory Log_Properties
  imports Log_Inv
begin

text \<open>
  The life of a log: appends that succeed, appends that fail and leave the beginning of a line behind,
  recoveries and reopenings, in any order; and what every file that loads must look like.
\<close>

subsection \<open>The life of a log\<close>

type_synonym log_state = "log \<times> string \<times> log_record list"

text \<open>The log, its file, and the records its owner has been told are in it.\<close>

inductive log_step :: "wire \<Rightarrow> log_state \<Rightarrow> log_state \<Rightarrow> bool" for w where
  appended: "append_record w l r Durable data = ((Inr r1, l'), data') \<Longrightarrow> reads_back w r1 \<Longrightarrow>
    log_step w (l, data, rs) (l', data', rs @ [r1])"
| refused: "append_record w l r io data = ((Inl e, l'), data') \<Longrightarrow>
    (case prepare_record w l r of Inl _ \<Rightarrow> True | Inr r1 \<Rightarrow> reads_back w r1) \<Longrightarrow>
    log_step w (l, data, rs) (l', data', rs)"
| recovered: "recover_log w l data = Inr (rs', l', data') \<Longrightarrow> log_step w (l, data, rs) (l', data', rs')"
| reopened: "open_log w (lo_meta l) data = Inr (l', rs', data') \<Longrightarrow> log_step w (l, data, rs) (l', data', rs')"

definition log_runs :: "wire \<Rightarrow> log_state \<Rightarrow> log_state \<Rightarrow> bool" where
  "log_runs w = (log_step w)\<^sup>*\<^sup>*"

lemma log_runs_here [intro]: "log_runs w s s"
  by (simp add: log_runs_def)

lemma log_runs_snoc [intro]: "log_runs w s t \<Longrightarrow> log_step w t u \<Longrightarrow> log_runs w s u"
  unfolding log_runs_def by (rule rtranclp.rtrancl_into_rtrancl)

text \<open>An append to a file with a torn line is refused by the check of the size.\<close>

lemma append_after_torn:
  assumes "holds w l kept rs" and "tail \<noteq> []"
  shows "\<exists>e. append_record w l r io (kept @ tail) = ((Inl e, l), kept @ tail)"
  using assms by (auto simp: append_record_def Let_def holds_def split: sum.split)

lemma log_step_keeps:
  assumes "stored w l data rs" and "log_step w (l, data, rs) (l', data', rs')"
  shows "stored w l' data' rs' \<and> prefix rs rs' \<and> lo_meta l' = lo_meta l"
proof -
  obtain kept tail where data: "data = kept @ tail" and h: "holds w l kept rs" and "torn w l tail"
    and small: "int (length (kept @ tail)) \<le> max_events_bytes" using storedE [OF assms(1)] .
  note torn_append = append_after_torn [OF h, of tail, folded data]
  show ?thesis
    using assms(2)
  proof (cases rule: log_step.cases)
    case (appended r r1)
    moreover from this have "tail = []" using torn_append [of r Durable] by auto
    ultimately show ?thesis using append_keeps [OF h, of r r1 l' data'] data holds_stored by simp
  next
    case (refused r io e)
    show ?thesis
    proof (cases "tail = []")
      case True
      then show ?thesis using broken_append_keeps [OF h, of r io e l' data'] refused data by simp
    next
      case False
      then show ?thesis using torn_append [of r io] refused assms(1) by auto
    qed
  next
    case recovered
    obtain rs2 l2 data2 where "recover_log w l data = Inr (rs2, l2, data2)" and "holds w l2 data2 rs2"
      and "prefix rs rs2" and "lo_meta l2 = lo_meta l" using recover_extends [OF h small] data by metis
    then show ?thesis using recovered holds_stored by simp
  next
    case reopened
    obtain rs2 l2 data2 where "open_log w (lo_meta l) data = Inr (l2, rs2, data2)" and "holds w l2 data2 rs2"
      and "prefix rs rs2" and "lo_meta l2 = lo_meta l" using open_extends [OF assms(1)] by metis
    then show ?thesis using reopened holds_stored by simp
  qed
qed

lemma log_runs_keep:
  assumes "log_runs w (l, data, rs) (l', data', rs')" and "stored w l data rs"
  shows "stored w l' data' rs' \<and> prefix rs rs' \<and> lo_meta l' = lo_meta l"
  using assms(1) unfolding log_runs_def
proof (induction "(l', data', rs')" arbitrary: l' data' rs' rule: rtranclp_induct)
  case (step s)
  obtain l1 data1 rs1 where s: "s = (l1, data1, rs1)" by (cases s)
  then show ?case using step(3) [OF s] log_step_keeps [of w l1 data1 rs1 l' data' rs'] step(2)
    by (metis prefix_order.trans)
qed (use assms(2) in simp)

subsection \<open>What a file that loads looks like\<close>

text \<open>The lifecycles that may follow a lifecycle: the same one behind a refused command or an event that
  does not end the session.\<close>

definition next_lifecycles :: "lifecycle_state \<Rightarrow> lifecycle_state list" where
  "next_lifecycles l =
     (if l = lifecycle_preparing then [lifecycle_preparing, lifecycle_countdown, lifecycle_completed]
      else if l = lifecycle_countdown then [lifecycle_countdown, lifecycle_running, lifecycle_paused, lifecycle_completed]
      else if l = lifecycle_running then [lifecycle_running, lifecycle_paused, lifecycle_completed]
      else if l = lifecycle_paused then [lifecycle_paused, lifecycle_running, lifecycle_completed]
      else [])"

fun lifecycle_path :: "lifecycle_state \<Rightarrow> lifecycle_state list \<Rightarrow> bool" where
  "lifecycle_path l [] \<longleftrightarrow> True"
| "lifecycle_path l (k # ks) \<longleftrightarrow> k \<in> set (next_lifecycles l) \<and> lifecycle_path k ks"

lemmas lifecycle_names = lifecycle_preparing_def lifecycle_countdown_def lifecycle_running_def lifecycle_paused_def
  lifecycle_completed_def

lemma lifecycles_distinct [simp]:
  "lifecycle_preparing \<noteq> lifecycle_countdown" "lifecycle_preparing \<noteq> lifecycle_running"
  "lifecycle_preparing \<noteq> lifecycle_paused" "lifecycle_preparing \<noteq> lifecycle_completed"
  "lifecycle_countdown \<noteq> lifecycle_running" "lifecycle_countdown \<noteq> lifecycle_paused"
  "lifecycle_countdown \<noteq> lifecycle_completed" "lifecycle_running \<noteq> lifecycle_paused"
  "lifecycle_running \<noteq> lifecycle_completed" "lifecycle_paused \<noteq> lifecycle_completed"
  by (simp_all add: lifecycle_names)

lemmas lifecycles_distinct' [simp] = lifecycles_distinct [symmetric]

lemma transition_is_next:
  assumes "validate_transition l a r = Inr ()"
    and "l \<in> {lifecycle_preparing, lifecycle_countdown, lifecycle_running, lifecycle_paused, lifecycle_completed}"
  shows "rd_lifecycle r \<in> set (next_lifecycles l)"
  using assms
  by (auto simp: validate_transition_def next_lifecycles_def Let_def split: if_splits payload.splits)

lemma next_known:
  "k \<in> set (next_lifecycles l) \<Longrightarrow>
    k \<in> {lifecycle_preparing, lifecycle_countdown, lifecycle_running, lifecycle_paused, lifecycle_completed}"
  by (auto simp: next_lifecycles_def split: if_splits)

text \<open>The records a reader takes, seen as a whole.\<close>

definition chained :: "string \<Rightarrow> log_record list \<Rightarrow> bool" where
  "chained p rs \<longleftrightarrow> map rd_previous rs = take (length rs) (p # map rd_checksum rs)"

lemma chained_Cons [simp]: "chained p (r # rs) \<longleftrightarrow> rd_previous r = p \<and> chained (rd_checksum r) rs"
  by (simp add: chained_def)

lemma accepts_chain:
  assumes "good_meta m" and "accepts w m c rs"
  shows "map rd_version rs = map (\<lambda>i. cu_next c + of_nat i) [0..<length rs]"
    and "chained (cu_last c) rs"
    and "list_all (\<lambda>r. record_checksum w r = Inr (rd_checksum r)) rs"
    and "distinct (map record_id rs)" and "\<forall>r \<in> set rs. record_id r |\<notin>| cu_ids c"
proof -
  have "map rd_version rs = map (\<lambda>i. cu_next c + of_nat i) [0..<length rs] \<and> chained (cu_last c) rs \<and>
    list_all (\<lambda>r. record_checksum w r = Inr (rd_checksum r)) rs \<and> distinct (map record_id rs) \<and>
    (\<forall>r \<in> set rs. record_id r |\<notin>| cu_ids c)"
    using assms(2)
  proof (induction rs arbitrary: c)
    case (Cons r rs)
    have one: "accepts w m c [r]" using Cons.prems by simp
    note r = one [unfolded accepts_one [OF assms(1)]]
    note IH = Cons.IH [of "advance (me_schema m) r c"]
    have "map rd_version (r # rs) = map (\<lambda>i. cu_next c + of_nat i) (0 # map Suc [0..<length rs])"
      using IH Cons.prems r by (simp add: advance_def Let_def add.assoc)
    moreover have "0 # map Suc [0..<length rs] = [0..<length (r # rs)]"
      by (simp add: map_Suc_upt upt_conv_Cons del: upt_Suc)
    ultimately show ?case
      using IH Cons.prems r by (auto simp: advance_def Let_def split: if_splits)
  qed (simp add: chained_def)
  then show "map rd_version rs = map (\<lambda>i. cu_next c + of_nat i) [0..<length rs]"
    and "chained (cu_last c) rs"
    and "list_all (\<lambda>r. record_checksum w r = Inr (rd_checksum r)) rs"
    and "distinct (map record_id rs)" and "\<forall>r \<in> set rs. record_id r |\<notin>| cu_ids c" by blast+
qed

lemma accepts_path:
  assumes "good_meta m" and "is_real_time_schema (me_schema m)" and "accepts w m c rs"
    and "cu_lifecycle c \<in> {lifecycle_preparing, lifecycle_countdown, lifecycle_running, lifecycle_paused, lifecycle_completed}"
  shows "sorted (cu_elapsed c # map rd_elapsed rs) \<and> lifecycle_path (cu_lifecycle c) (map rd_lifecycle rs)"
  using assms(3,4)
proof (induction rs arbitrary: c)
  case (Cons r rs)
  have "accepts w m c [r]" using Cons.prems by simp
  then have "fitting m (cu_elapsed c) (cu_lifecycle c) r" using accepts_one [OF assms(1)] by blast
  then obtain a where later: "cu_elapsed c \<le> rd_elapsed r"
    and trans: "validate_transition (cu_lifecycle c) a r = Inr ()" using assms(2) by (auto simp: fitting_def)
  note nxt = transition_is_next [OF trans Cons.prems(2)]
  have "sorted (rd_elapsed r # map rd_elapsed rs) \<and> lifecycle_path (rd_lifecycle r) (map rd_lifecycle rs)"
    using Cons.IH [of "advance (me_schema m) r c"] Cons.prems(1) next_known [OF nxt] assms(2)
    by (simp add: advance_def Let_def)
  then show ?case using later nxt by auto
qed simp

lemma initial_preparing:
  assumes "good_meta m" and "is_real_time_schema (me_schema m)"
  shows "initial_lifecycle m = lifecycle_preparing"
proof -
  have "effective_mode m = play_mode_real_time" using effective_real_time [OF assms(1)] assms(2) by blast
  then have "\<not> me_schema m \<le> schema3" and mode: "me_mode m \<noteq> play_mode_turn_based"
    using play_modes_distinct [symmetric] by (auto simp: effective_mode_def split: if_splits)
  then have "\<exists>rm. me_real_time m = Some rm \<and> rm_lifecycle rm = lifecycle_preparing"
    using assms(1) by (auto simp: good_meta_def validate_meta_def split: option.splits)
  then show ?thesis using assms(2) by (auto simp: initial_lifecycle_def)
qed

definition valid_history :: "wire \<Rightarrow> log_meta \<Rightarrow> log_record list \<Rightarrow> bool" where
  "valid_history w m rs \<longleftrightarrow>
     map rd_version rs = map (\<lambda>i. of_nat (i + 1)) [0..<length rs] \<and>
     map rd_previous rs = take (length rs) ('''' # map rd_checksum rs) \<and>
     list_all (\<lambda>r. record_checksum w r = Inr (rd_checksum r)) rs \<and>
     distinct (map record_id rs) \<and>
     (if is_real_time_schema (me_schema m)
      then sorted (0 # map rd_elapsed rs) \<and> me_create m \<notin> record_id ` set rs \<and>
           lifecycle_path lifecycle_preparing (map rd_lifecycle rs)
      else True)"

lemma parsed_history:
  assumes "good_meta m" and "parse_records w m data = Inr rs"
  shows "valid_history w m rs"
proof -
  note acc = parse_records_accepts(1) [OF assms(2)]
  have c: "cu_next (snd (start_of m)) = 1" "cu_last (snd (start_of m)) = ''''"
    by (simp_all add: start_cursor zero_cursor_def)
  note chain = accepts_chain [OF assms(1) acc, unfolded c chained_def]
  have path: "sorted (0 # map rd_elapsed rs) \<and> lifecycle_path lifecycle_preparing (map rd_lifecycle rs)"
    if "is_real_time_schema (me_schema m)"
    using accepts_path [OF assms(1) that acc] initial_preparing [OF assms(1) that]
    by (simp add: start_cursor zero_cursor_def)
  show ?thesis
    using chain path by (auto simp: valid_history_def start_cursor add.commute split: if_splits)
qed

lemma up_to_newline_prefix: "prefix (up_to_newline data) data"
proof -
  have "suffix (dropWhile (\<lambda>c. c \<noteq> newline) (rev data)) (rev data)" by (rule suffix_dropWhile)
  then show ?thesis by (simp add: up_to_newline_def suffix_to_prefix)
qed

lemma check_meta_good: "check_meta w g m = Inr m' \<Longrightarrow> m' = m \<and> good_meta m"
  by (auto simp: check_meta_def good_meta_def split: sum.splits)

lemma load_kept:
  assumes "load_records w m data = Inr (rs, kept)"
  shows "prefix kept data" and "parse_records w m kept = Inr rs"
  using assms up_to_newline_prefix by (auto simp: load_records_def Let_def split: if_splits)

text \<open>C14. Whatever the bytes of an event file are, when the file loads under metadata that pass
  \<^verbatim>\<open>ReadMeta\<close>, the part that is kept is a prefix of the file and its records are a valid history: the
  versions count from 1 without a gap, every record carries the checksum of the one before it and its
  own checksum is right, no command identifier occurs twice, and in a real-time game elapsed time never
  runs back, the identifier of the creating command is not reused and the lifecycles follow the
  session's automaton from preparing, with nothing behind completed.\<close>

theorem loaded_log_is_valid:
  "case check_meta w game m of Inl _ \<Rightarrow> True
   | Inr _ \<Rightarrow> (case load_records w m data of Inl _ \<Rightarrow> True
     | Inr (rs, kept) \<Rightarrow> prefix kept data \<and> valid_history w m rs)"
proof (cases "check_meta w game m")
  case (Inr m')
  then have "good_meta m" using check_meta_good by blast
  then show ?thesis
    using Inr load_kept parsed_history [OF _ load_kept(2)] by (auto split: sum.splits)
qed simp

text \<open>C11. No acknowledged record is ever lost. Along any sequence of appends, failed appends that
  leave the beginning of a line in the file, recoveries and reopenings of a log that was just created,
  the records its owner holds only grow; and wherever the log is left, opening its file again succeeds
  with all of them, and so does recovering the open log, whatever bytes an uncertain write has left
  behind the acknowledged part.\<close>

theorem log_survives:
  assumes "create_log w game owner create cfg scen mode seed now = Inr (l0, line)"
    and "log_runs w (l0, [], []) (l, data, rs)" and "log_runs w (l, data, rs) (l', data', rs')"
  shows "prefix rs rs' \<and>
    (\<exists>l2 rs2 data2. open_log w (lo_meta l0) data' = Inr (l2, rs2, data2) \<and> prefix rs' rs2) \<and>
    (\<forall>junk. int (length (take (nat (lo_size l')) data' @ junk)) \<le> max_events_bytes \<longrightarrow>
      (\<exists>rs2 l2 data2. recover_log w l' (take (nat (lo_size l')) data' @ junk) = Inr (rs2, l2, data2) \<and>
        prefix rs' rs2))"
proof -
  have one: "stored w l data rs \<and> lo_meta l = lo_meta l0"
    using log_runs_keep [OF assms(2) holds_stored [OF created_holds [OF assms(1)]]] by simp
  then have two: "stored w l' data' rs' \<and> prefix rs rs' \<and> lo_meta l' = lo_meta l0"
    using log_runs_keep [OF assms(3)] by simp
  obtain kept tail where kept: "data' = kept @ tail" "holds w l' kept rs'"
    using storedE [of w l' data' rs'] two by metis
  then have "take (nat (lo_size l')) data' = kept" by (simp add: holds_def)
  then show ?thesis
    using two open_extends [of w l' data' rs'] recover_extends [OF kept(2)] by metis
qed

text \<open>A turn-based log with two commands: the first is written, the write of the second breaks off.\<close>

definition sample_state0 :: state where
  "sample_state0 = \<lparr>st_version = 1, st_turn = 1, st_cash = 0, st_position = 0, st_mark = 1000000, st_equity = 0,
     st_over = False, st_reason = NotOver, st_best_bid = 0, st_best_ask = 0\<rparr>"

definition sample_entry :: "u64 \<Rightarrow> string \<Rightarrow> log_record" where
  "sample_entry v i = \<lparr>rd_schema = schema_version, rd_version = v, rd_previous = '''', rd_checksum = '''',
     rd_meta_checksum = '''', rd_command = zero_command\<lparr>cm_id := i\<rparr>, rd_action = None, rd_elapsed = 0,
     rd_lifecycle = '''', rd_result = \<lparr>rs_state = sample_state0, rs_summary = zero_summary, rs_events = [], rs_ledger = []\<rparr>,
     rd_rejection = None, rd_coaching = None, rd_recap = None\<rparr>"

definition sample_log_meta :: log_meta where
  "sample_log_meta = \<lparr>me_schema = schema_version, me_game = ''g'', me_owner = ''o'', me_create = ''c'', me_created = 0,
     me_config = first_spread, me_scenario = None, me_mode = play_mode_turn_based, me_real_time = None,
     me_checksum = digest (domain_of ''meta'' schema_version @ ''{0}'')\<rparr>"

definition sample_written :: "u64 \<Rightarrow> string \<Rightarrow> string \<Rightarrow> string \<Rightarrow> log_record" where
  "sample_written v i previous text = sample_entry v i\<lparr>rd_previous := previous, rd_meta_checksum := me_checksum sample_log_meta,
     rd_checksum := digest (domain_of ''record'' schema_version @ previous @ me_checksum sample_log_meta @ text)\<rparr>"

definition sample_first :: log_record where "sample_first = sample_written 1 ''a'' '''' ''{1}''"
definition sample_second :: log_record where "sample_second = sample_written 2 ''b'' (rd_checksum sample_first) ''{2}''"

definition sample_wire :: wire where
  "sample_wire = \<lparr>wi_record = (\<lambda>r. if rd_version r = 1 then ''{1}'' else ''{2}''), wi_meta = (\<lambda>_. ''{0}''),
     wi_decode = (\<lambda>s. if s = ''{1}'' then Inr sample_first else if s = ''{2}'' then Inr sample_second
       else fails ''unexpected end of JSON input'')\<rparr>"

definition sample_log :: log where
  "sample_log = \<lparr>lo_meta = sample_log_meta, lo_cursor = zero_cursor sample_log_meta, lo_size = 0\<rparr>"

definition sample_log1 :: log where
  "sample_log1 = sample_log\<lparr>lo_cursor := advance schema_version sample_first (lo_cursor sample_log), lo_size := 4\<rparr>"

lemma sample_checks:
  "validate_config first_spread = Inr ()" "validate_play_mode play_mode_turn_based = Inr ()"
  "\<not> schema_version \<le> schema3" "schema_version \<noteq> schema1" "supported_schema schema_version"
  "\<not> is_real_time_schema schema_version" "max_metadata_bytes = 1048576" "max_events_bytes = 67108864"
  "trim_space ''{1}'' = ''{1}''" "trim_space ''{2}'' = ''{2}''" "newline \<notin> set ''{1}''" "newline \<notin> set ''{2}''"
  by code_simp+

lemma sample_log_created:
  "create_log sample_wire ''g'' ''o'' ''c'' first_spread None play_mode_turn_based 0 0 =
    Inr (sample_log, ''{0}'' @ [newline])"
  using sample_checks
  by (simp add: create_log_def Let_def validate_meta_def metadata_checksum_def sample_wire_def sample_log_def
      sample_log_meta_def)

lemma sample_append1:
  "append_record sample_wire sample_log (sample_entry 1 ''a'') Durable [] = ((Inr sample_first, sample_log1), ''{1}'' @ [newline])"
  using sample_checks
  by (simp add: append_record_def prepare_record_def validate_record_input_def effective_mode_def sample_log_def
      sample_log_meta_def zero_cursor_def sample_entry_def Let_def record_checksum_def sample_wire_def sample_first_def
      sample_written_def sample_log1_def)

lemma sample_append2:
  "append_record sample_wire sample_log1 (sample_entry 2 ''b'') (Broken 2) (''{1}'' @ [newline]) =
    ((fails ''write event log'', sample_log1), ''{1}'' @ [newline] @ ''{2'')"
  "prepare_record sample_wire sample_log1 (sample_entry 2 ''b'') = Inr sample_second"
  using sample_checks
  by (simp_all add: append_record_def prepare_record_def validate_record_input_def effective_mode_def sample_log_def
      sample_log_meta_def zero_cursor_def sample_entry_def Let_def record_checksum_def sample_wire_def sample_first_def
      sample_written_def sample_log1_def sample_second_def advance_def record_id_def)

lemma sample_reads: "reads_back sample_wire sample_first" "reads_back sample_wire sample_second"
  using sample_checks
  by (simp_all add: reads_back_def sample_wire_def sample_first_def sample_second_def sample_written_def sample_entry_def Let_def)

theorem log_survives_witness:
  "\<exists>l2 rs2 data2. open_log sample_wire sample_log_meta (''{1}'' @ [newline] @ ''{2'') = Inr (l2, rs2, data2) \<and>
    prefix [sample_first] rs2"
proof -
  have "log_step sample_wire (sample_log, [], []) (sample_log1, ''{1}'' @ [newline], [] @ [sample_first])"
    by (rule appended [OF sample_append1 sample_reads(1)])
  then have one: "log_runs sample_wire (sample_log, [], []) (sample_log1, ''{1}'' @ [newline], [sample_first])"
    using log_runs_snoc [OF log_runs_here] by simp
  have "log_step sample_wire (sample_log1, ''{1}'' @ [newline], [sample_first])
      (sample_log1, ''{1}'' @ [newline] @ ''{2'', [sample_first])"
    using sample_append2(1) sample_reads(2)
    by (intro refused [where r = "sample_entry 2 ''b''" and io = "Broken 2"])
      (simp_all add: fails_def sample_append2(2))
  then have two: "log_runs sample_wire (sample_log1, ''{1}'' @ [newline], [sample_first])
      (sample_log1, ''{1}'' @ [newline] @ ''{2'', [sample_first])"
    using log_runs_snoc [OF log_runs_here] by blast
  show ?thesis
    using log_survives [OF sample_log_created one two] by (simp add: sample_log_def)
qed

end
