(* ===== verification/Journal.thy ===== *)
theory Journal
  imports Log_Inv
begin

text \<open>
  A game kept in a log: its state is what replaying the records of the file gives. The locale states
  what a game owes its log - the state it goes on with is the one that redoing the written record
  leads to - and shows that appends, failed appends, recovery and reopening keep state and file
  together. The turn-based and the real-time games are its interpretations.
\<close>

subsection \<open>Recovery and reopening behind one torn line\<close>

lemma scan_stops: "newline \<notin> set left \<Longrightarrow> scan_suffix w s k st taken left = (st, taken)"
  by (subst scan_suffix.simps) simp

lemma scan_line:
  assumes "reads_back w r" and "validate_record w s k r c = Inr ()"
  shows "scan_suffix w s k (rs, c) taken (wi_record w r @ [newline]) =
    ((rs @ [r], advance s r c), taken @ wi_record w r @ [newline])"
proof -
  let ?s = "wi_record w r"
  have s: "newline \<notin> set ?s" "?s \<noteq> []" "trim_space ?s = ?s" "wi_decode w ?s = Inr r"
    using assms(1) by (auto simp: reads_back_def Let_def)
  have "takeWhile (\<lambda>c. c \<noteq> newline) (?s @ [newline]) = ?s"
    using s(1) by (subst takeWhile_append2) auto
  then show ?thesis
    using s assms(2) by (subst scan_suffix.simps) (simp add: Let_def scan_stops)
qed

definition torn_line :: "wire \<Rightarrow> log_record \<Rightarrow> string \<Rightarrow> bool" where
  "torn_line w r tail \<longleftrightarrow> (\<exists>k. tail = take k (wi_record w r @ [newline]))"

lemma torn_line_cases:
  assumes "torn_line w r tail" and "reads_back w r"
  obtains (cut) "newline \<notin> set tail" | (whole) "tail = wi_record w r @ [newline]"
proof -
  obtain k where k: "tail = take k (wi_record w r @ [newline])" using assms(1) by (auto simp: torn_line_def)
  have "newline \<notin> set (take k (wi_record w r))"
    using assms(2) by (auto simp: reads_back_def Let_def dest: in_set_takeD)
  then show ?thesis using that k by (cases "k \<le> length (wi_record w r)") auto
qed

lemma holds_line:
  assumes "holds w l data rs" and "reads_back w r" and "accepts w (lo_meta l) (lo_cursor l) [r]"
    and "int (length (data @ wi_record w r @ [newline])) \<le> max_events_bytes"
  shows "holds w (l\<lparr>lo_cursor := cursor_of (lo_meta l) (rs @ [r]), lo_size := int (length (data @ wi_record w r @ [newline]))\<rparr>)
    (data @ wi_record w r @ [newline]) (rs @ [r])"
  using assms(1,4) holds_parse_appended [OF assms(1-3)] by (simp add: holds_def)

lemma recover_torn:
  assumes "holds w l data rs" and "reads_back w r" and "accepts w (lo_meta l) (lo_cursor l) [r]"
    and "torn_line w r tail" and "int (length (data @ tail)) \<le> max_events_bytes"
  obtains rs' l' data' where "recover_log w l (data @ tail) = Inr (rs', l', data')" and "holds w l' data' rs'"
    and "rs' = rs \<or> rs' = rs @ [r]" and "lo_meta l' = lo_meta l"
proof -
  obtain rs' l' data' where rec: "recover_log w l (data @ tail) = Inr (rs', l', data')" and "holds w l' data' rs'"
    and "lo_meta l' = lo_meta l" using recover_extends [OF assms(1,5)] .
  moreover have "rs' = rs \<or> rs' = rs @ [r]"
  proof -
    define m where "m = lo_meta l"
    note h = assms(1) [unfolded holds_def, folded m_def]
    define scan where "scan = scan_suffix w (me_schema m) (me_checksum m) (rs, lo_cursor l) [] tail"
    have "fst (fst scan) = rs \<or> fst (fst scan) = rs @ [r]"
      using assms(4,2)
    proof (cases rule: torn_line_cases)
      case whole
      then show ?thesis using scan_line [OF assms(2)] assms(3) by (simp add: scan_def m_def)
    qed (simp add: scan_def scan_stops)
    moreover have "rs' = fst (fst scan)"
      using rec h assms(5)
      by (auto simp: recover_log_def recover_data_def m_def [symmetric] matches_acknowledged_def scan_def
          split: prod.splits if_splits)
    ultimately show ?thesis by simp
  qed
  ultimately show ?thesis using that by blast
qed

lemma open_torn:
  assumes "holds w l data rs" and "reads_back w r" and "accepts w (lo_meta l) (lo_cursor l) [r]"
    and "torn_line w r tail" and "int (length (data @ tail)) \<le> max_events_bytes"
  obtains rs' l' data' where "open_log w (lo_meta l) (data @ tail) = Inr (l', rs', data')" and "holds w l' data' rs'"
    and "rs' = rs \<or> rs' = rs @ [r]" and "lo_meta l' = lo_meta l"
  using assms(4,2)
proof (cases rule: torn_line_cases)
  case cut
  then have "load_records w (lo_meta l) (data @ tail) = Inr (rs, data)"
    using load_torn [of data tail w "lo_meta l"] assms(1,5) by (simp add: holds_def)
  then show ?thesis using that [of _ rs data] opens [OF assms(1)] by (simp add: open_log_def)
next
  case whole
  let ?data = "data @ wi_record w r @ [newline]"
  note held = holds_line [OF assms(1-3) assms(5) [unfolded whole]]
  have "load_records w (lo_meta l) ?data = Inr (rs @ [r], ?data)"
    using load_torn [of ?data "[]" w "lo_meta l"] held by (simp add: holds_def)
  then show ?thesis
    using that [of _ "rs @ [r]" ?data] opens [OF held] by (simp add: open_log_def whole)
qed

subsection \<open>What a record keeps when it is written\<close>

definition written_as :: "log_record \<Rightarrow> log_record \<Rightarrow> bool" where
  "written_as r r1 \<longleftrightarrow>
     rd_version r1 = rd_version r \<and> rd_command r1 = rd_command r \<and> rd_action r1 = rd_action r \<and>
     rd_elapsed r1 = rd_elapsed r \<and> rd_lifecycle r1 = rd_lifecycle r \<and> rd_result r1 = rd_result r \<and>
     rd_rejection r1 = rd_rejection r \<and> rd_coaching r1 = rd_coaching r \<and>
     (rd_recap r1 = None \<longleftrightarrow> rd_recap r = None)"

lemma prepared_written:
  assumes "prepare_record w l r = Inr r1"
  shows "written_as r r1"
proof -
  have "\<exists>r2 p q s k. r1 = r2\<lparr>rd_meta_checksum := p, rd_checksum := q\<rparr> \<and>
      (r2 = r\<lparr>rd_schema := s, rd_previous := k\<rparr> \<or>
       r2 = r\<lparr>rd_schema := s, rd_previous := k, rd_recap := map_option strip_recap (rd_recap r)\<rparr>)"
    using assms unfolding prepare_record_def Let_def
    by (auto split: sum.splits if_splits)
  then show ?thesis by (auto simp: written_as_def)
qed

lemma append_error_cases:
  assumes "append_record w l r io data = ((Inl e, l'), data')"
  obtains (kept) "l' = l" and "data' = data"
    | (torn) r1 n where "l' = l" and "prepare_record w l r = Inr r1"
        and "data' = data @ take n (wi_record w r1 @ [newline])" and "lo_size l = int (length data)"
        and "lo_size l + int (length (wi_record w r1 @ [newline])) \<le> max_events_bytes"
proof (cases "prepare_record w l r")
  case Inl
  then show ?thesis using assms kept by (simp add: append_record_def)
next
  case (Inr r1)
  show ?thesis
  proof (cases "data' = data")
    case True
    then show ?thesis
      using assms Inr kept by (auto simp: append_record_def Let_def fails_def split: if_splits write_outcome.splits)
  next
    case False
    then show ?thesis
      using assms Inr torn [of r1]
      by (auto simp del: take_append simp: append_record_def Let_def fails_def split: if_splits write_outcome.splits)
  qed
qed

subsection \<open>The contract\<close>

definition replayed :: "(log_meta \<Rightarrow> 's res) \<Rightarrow> (log_meta \<Rightarrow> 's \<Rightarrow> log_record \<Rightarrow> 's res) \<Rightarrow> log_meta \<Rightarrow> log_record list \<Rightarrow> 's res" where
  "replayed restart redo m rs = bindE (restart m) (\<lambda>s. foldE (redo m) s rs)"

text \<open>The open log, its file and the state belong together.\<close>

definition backed ::
  "(log_meta \<Rightarrow> 's res) \<Rightarrow> (log_meta \<Rightarrow> 's \<Rightarrow> log_record \<Rightarrow> 's res) \<Rightarrow> wire \<Rightarrow> log \<Rightarrow> string \<Rightarrow> 's \<Rightarrow> bool" where
  "backed restart redo w l data s \<longleftrightarrow>
     (\<exists>rs. holds w l data rs \<and> replayed restart redo (lo_meta l) rs = Inr s)"

text \<open>The file can be opened again, and what it holds can be replayed.\<close>

definition reopens ::
  "(log_meta \<Rightarrow> 's res) \<Rightarrow> (log_meta \<Rightarrow> 's \<Rightarrow> log_record \<Rightarrow> 's res) \<Rightarrow> wire \<Rightarrow> log_meta \<Rightarrow> string \<Rightarrow> ('s \<Rightarrow> bool) \<Rightarrow> bool" where
  "reopens restart redo w m data P \<longleftrightarrow>
     (\<exists>l rs kept s. open_log w m data = Inr (l, rs, kept) \<and> holds w l kept rs \<and> lo_meta l = m \<and>
        replayed restart redo m rs = Inr s \<and> P s)"

definition recovers ::
  "(log_meta \<Rightarrow> 's res) \<Rightarrow> (log_meta \<Rightarrow> 's \<Rightarrow> log_record \<Rightarrow> 's res) \<Rightarrow> wire \<Rightarrow> log \<Rightarrow> string \<Rightarrow> ('s \<Rightarrow> bool) \<Rightarrow> bool" where
  "recovers restart redo w l data P \<longleftrightarrow>
     (\<exists>l' rs kept s. recover_log w l data = Inr (rs, l', kept) \<and> holds w l' kept rs \<and> lo_meta l' = lo_meta l \<and>
        replayed restart redo (lo_meta l) rs = Inr s \<and> P s)"

lemma replayed_snoc:
  assumes "replayed restart redo m rs = Inr s"
  shows "replayed restart redo m (rs @ [r]) = redo m s r"
  using assms by (auto simp: replayed_def foldE_append) (simp add: bindE_def split: sum.split)

lemma backed_reopens: "backed restart redo w l data s \<Longrightarrow> reopens restart redo w (lo_meta l) data (\<lambda>s'. s' = s)"
proof -
  assume "backed restart redo w l data s"
  then obtain rs where h: "holds w l data rs" and r: "replayed restart redo (lo_meta l) rs = Inr s"
    by (auto simp: backed_def)
  have "load_records w (lo_meta l) data = Inr (rs, data)"
    using load_torn [of data "[]" w "lo_meta l"] h by (simp add: holds_def)
  then show ?thesis
    using opens [OF h] r by (auto simp: reopens_def open_log_def)
qed

lemma backed_recovers:
  assumes "backed restart redo w l data s"
  shows "recovers restart redo w l data (\<lambda>s'. s' = s)"
proof -
  obtain rs where h: "holds w l data rs" and rep: "replayed restart redo (lo_meta l) rs = Inr s"
    using assms by (auto simp: backed_def)
  have small: "int (length (data @ [])) \<le> max_events_bytes" using h by (simp add: holds_def)
  obtain rs' l' data' where rec: "recover_log w l (data @ []) = Inr (rs', l', data')" "holds w l' data' rs'"
    "prefix data data'" "prefix data' (data @ [])" "lo_meta l' = lo_meta l"
    using recover_extends [OF h small] by metis
  then have "data' = data" by (simp add: prefix_order.antisym)
  then have "rs' = rs" using rec(2,5) h by (simp add: holds_def)
  then show ?thesis using rec rep by (auto simp: recovers_def)
qed

lemma recovers_mono: "recovers restart redo w l data P \<Longrightarrow> (\<And>s. P s \<Longrightarrow> Q s) \<Longrightarrow> recovers restart redo w l data Q"
  unfolding recovers_def by metis

locale journal =
  fixes restart :: "log_meta \<Rightarrow> 's res"
    and redo :: "log_meta \<Rightarrow> 's \<Rightarrow> log_record \<Rightarrow> 's res"
    and sound :: "log_meta \<Rightarrow> 's \<Rightarrow> bool"
    and offer :: "log_meta \<Rightarrow> 's \<Rightarrow> log_record \<Rightarrow> (log_record \<Rightarrow> 's) \<Rightarrow> bool"
  assumes start_sound: "restart m = Inr s \<Longrightarrow> sound m s"
    and offer_redone: "sound m s \<Longrightarrow> offer m s r k \<Longrightarrow> written_as r r1 \<Longrightarrow> redo m s r1 = Inr (k r1)"
    and offer_sound: "sound m s \<Longrightarrow> offer m s r k \<Longrightarrow> written_as r r1 \<Longrightarrow> sound m (k r1)"
begin

lemma created_backed:
  assumes "create_log w game owner create cfg scen mode seed now = Inr (l, line)" and "restart (lo_meta l) = Inr s"
  shows "backed restart redo w l [] s" and "sound (lo_meta l) s"
  using created_holds [OF assms(1)] assms(2) start_sound
  by (auto simp: backed_def replayed_def intro!: exI [of _ "[]"])

lemma append_backed:
  assumes "backed restart redo w l data s" and "sound (lo_meta l) s" and "offer (lo_meta l) s r k"
    and "append_record w l r io data = ((Inr r1, l'), data')" and "reads_back w r1"
  shows "backed restart redo w l' data' (k r1)" and "lo_meta l' = lo_meta l" and "sound (lo_meta l) (k r1)"
proof -
  obtain rs where h: "holds w l data rs" and rep: "replayed restart redo (lo_meta l) rs = Inr s"
    using assms(1) by (auto simp: backed_def)
  have io: "io = Durable" and prep: "prepare_record w l r = Inr r1"
    using assms(4) by (auto simp: append_record_def Let_def fails_def split: sum.splits if_splits write_outcome.splits)
  have "redo (lo_meta l) s r1 = Inr (k r1)"
    using offer_redone [OF assms(2,3)] prepared_written [OF prep] by blast
  moreover note keep = append_keeps [OF h assms(4) [unfolded io] assms(5)]
  ultimately show "backed restart redo w l' data' (k r1)"
    using keep replayed_snoc [OF rep, of r1] unfolding backed_def by (intro exI [of _ "rs @ [r1]"]) simp
  show "lo_meta l' = lo_meta l" using keep by simp
  show "sound (lo_meta l) (k r1)" using offer_sound [OF assms(2,3) prepared_written [OF prep]] .
qed

text \<open>After an append that failed the game goes on from the state before it or from the one behind it.\<close>

lemma broken_backed:
  assumes "backed restart redo w l data s" and "sound (lo_meta l) s" and "offer (lo_meta l) s r k"
    and "append_record w l r io data = ((Inl e, l'), data')"
    and "case prepare_record w l r of Inl _ \<Rightarrow> True | Inr r1 \<Rightarrow> reads_back w r1"
  shows "l' = l" and "recovers restart redo w l data' (\<lambda>s'. s' = s \<or> (\<exists>r1. prepare_record w l r = Inr r1 \<and> s' = k r1))"
    and "reopens restart redo w (lo_meta l) data' (\<lambda>s'. s' = s \<or> (\<exists>r1. prepare_record w l r = Inr r1 \<and> s' = k r1))"
proof -
  obtain rs where h: "holds w l data rs" and rep: "replayed restart redo (lo_meta l) rs = Inr s"
    using assms(1) by (auto simp: backed_def)
  have small: "int (length (data @ [])) \<le> max_events_bytes" using h by (simp add: holds_def)
  show "l' = l" using broken_append_keeps [OF h assms(4,5)] by simp
  show "recovers restart redo w l data' (\<lambda>s'. s' = s \<or> (\<exists>r1. prepare_record w l r = Inr r1 \<and> s' = k r1))"
    and "reopens restart redo w (lo_meta l) data' (\<lambda>s'. s' = s \<or> (\<exists>r1. prepare_record w l r = Inr r1 \<and> s' = k r1))"
  proof -
    have "recovers restart redo w l data' (\<lambda>s'. s' = s \<or> (\<exists>r1. prepare_record w l r = Inr r1 \<and> s' = k r1)) \<and>
      reopens restart redo w (lo_meta l) data' (\<lambda>s'. s' = s \<or> (\<exists>r1. prepare_record w l r = Inr r1 \<and> s' = k r1))"
    proof (cases "data' = data")
      case True
      obtain rs' l2 data2 where rec: "recover_log w l (data @ []) = Inr (rs', l2, data2)" "holds w l2 data2 rs'"
        "prefix rs rs'" "prefix data2 (data @ [])" "prefix data data2" "lo_meta l2 = lo_meta l"
        using recover_extends [OF h small] by metis
      then have "data2 = data" by (simp add: prefix_order.antisym)
      then have "rs' = rs" using rec(2,6) h by (simp add: holds_def)
      then have "recovers restart redo w l data' (\<lambda>s'. s' = s \<or> (\<exists>r1. prepare_record w l r = Inr r1 \<and> s' = k r1))"
        using rec rep True unfolding recovers_def by auto
      moreover have "reopens restart redo w (lo_meta l) data' (\<lambda>s'. s' = s \<or> (\<exists>r1. prepare_record w l r = Inr r1 \<and> s' = k r1))"
        using backed_reopens [OF assms(1)] True unfolding reopens_def by blast
      ultimately show ?thesis by blast
    next
      case False
      then obtain r1 tail where r1: "prepare_record w l r = Inr r1" and tail: "torn_line w r1 tail"
        and data': "data' = data @ tail" and small: "int (length (data @ tail)) \<le> max_events_bytes"
      proof -
        from assms(4) show ?thesis
        proof (cases rule: append_error_cases)
          case (torn r1 n)
          then show ?thesis
            using that [of r1 "take n (wi_record w r1 @ [newline])"] by (force simp: torn_line_def)
        qed (use False in simp)
      qed
      have readable: "reads_back w r1" using assms(5) r1 by simp
      have "good_meta (lo_meta l)" using h by (simp add: holds_def)
      note acc = prepared_accepted [OF this r1]
      have "redo (lo_meta l) s r1 = Inr (k r1)"
        using offer_redone [OF assms(2,3)] prepared_written [OF r1] by blast
      then have two: "replayed restart redo (lo_meta l) (rs @ [r1]) = Inr (k r1)"
        using replayed_snoc [OF rep] by simp
      have "\<exists>s'. replayed restart redo (lo_meta l) rs' = Inr s' \<and> (s' = s \<or> (\<exists>r1. prepare_record w l r = Inr r1 \<and> s' = k r1))"
        if "rs' = rs \<or> rs' = rs @ [r1]" for rs'
        using that rep two r1 by auto
      note either = this
      obtain rs2 l2 data2 where rec: "recover_log w l (data @ tail) = Inr (rs2, l2, data2)" "holds w l2 data2 rs2"
        "rs2 = rs \<or> rs2 = rs @ [r1]" "lo_meta l2 = lo_meta l"
        using recover_torn [OF h readable acc tail small] .
      obtain rs3 l3 data3 where open3: "open_log w (lo_meta l) (data @ tail) = Inr (l3, rs3, data3)" "holds w l3 data3 rs3"
        "rs3 = rs \<or> rs3 = rs @ [r1]" "lo_meta l3 = lo_meta l"
        using open_torn [OF h readable acc tail small] .
      have "recovers restart redo w l (data @ tail) (\<lambda>s'. s' = s \<or> (\<exists>r1. prepare_record w l r = Inr r1 \<and> s' = k r1))"
        unfolding recovers_def using rec either [OF rec(3)] by auto
      moreover have "reopens restart redo w (lo_meta l) (data @ tail) (\<lambda>s'. s' = s \<or> (\<exists>r1. prepare_record w l r = Inr r1 \<and> s' = k r1))"
        unfolding reopens_def using open3 either [OF open3(3)] by auto
      ultimately show ?thesis by (simp add: data')
    qed
    then show "recovers restart redo w l data' (\<lambda>s'. s' = s \<or> (\<exists>r1. prepare_record w l r = Inr r1 \<and> s' = k r1))"
      and "reopens restart redo w (lo_meta l) data' (\<lambda>s'. s' = s \<or> (\<exists>r1. prepare_record w l r = Inr r1 \<and> s' = k r1))" by blast+
  qed
qed

end

end
