(* ===== verification/Coaching.thy ===== *)
theory Coaching
  imports Scenario
begin

text \<open>
  What the session says about a turn (\<^verbatim>\<open>Coach\<close> of \<^verbatim>\<open>internal/scenario/scenario.go\<close>): which note is
  chosen from the state before the turn and its result, with its text. \<^verbatim>\<open>Coach\<close> never returns \<^verbatim>\<open>nil\<close>.
\<close>

definition advice :: "string \<Rightarrow> string \<Rightarrow> string \<Rightarrow> coaching" where
  "advice code title body = \<lparr>co_code = code, co_title = title, co_body = body\<rparr>"

subsection \<open>Words for a position\<close>

definition magnitude_string :: "qty \<Rightarrow> string" where
  "magnitude_string v = (case abs_qty_checked v of Inr m \<Rightarrow> show_qty m | Inl _ \<Rightarrow> tl (show_qty v))"

definition inventory_side :: "qty \<Rightarrow> string" where
  "inventory_side p = (if p < 0 then ''short'' else ''long'')"

definition inventory_description :: "qty \<Rightarrow> string" where
  "inventory_description p = inventory_side p @ '' '' @ magnitude_string p @ '' units''"

definition informed_inventory_effect :: "qty \<Rightarrow> qty \<Rightarrow> bool \<Rightarrow> string" where
  "informed_inventory_effect old new mixed =
     (if mixed
      then ''Excluding the informed fills while retaining this turn's ordinary fills gives a counterfactual closing position of '' @
        inventory_description old @ ''; including every fill gives the actual closing position of '' @
        inventory_description new @ ''.''
      else if old > 0 \<and> new < 0 \<or> old < 0 \<and> new > 0
      then ''They flipped inventory from '' @ inventory_description old @ '' to '' @ inventory_description new @
        '', replacing one directional exposure with the other.''
      else if new = old then ''They did not change net inventory risk.''
      else if new = 0
      then ''They flattened the prior '' @ inventory_side old @ '' inventory and reduced directional risk.''
      else if old \<noteq> 0 \<and> \<not> greater_magnitude new old
      then ''They reduced the prior '' @ inventory_side old @ '' inventory from '' @ magnitude_string old @ '' to '' @
        magnitude_string new @ '' units rather than creating more directional risk.''
      else ''They increased inventory risk to '' @ inventory_description new @ ''.'')"

subsection \<open>The lessons\<close>

definition coach_general :: "state \<Rightarrow> result \<Rightarrow> coaching" where
  "coach_general old r =
     (let new = rs_state r in
      if st_over new then advice ''terminal'' ''Session complete''
        ''The scenario is over. Review the turns where inventory and the reference mark changed the outcome.''
      else if greater_magnitude (st_position new) (st_position old) \<and> st_position new \<noteq> 0
      then advice ''inventory-built'' ''Inventory increased''
        (''You now carry '' @ show_qty (st_position new) @ '' units. The next reference-price move matters more than it did before.'')
      else if st_position old > 0 \<and> st_mark new < st_mark old \<or> st_position old < 0 \<and> st_mark new > st_mark old
      then advice ''mark-against-position'' ''The mark moved against you''
        ''Your carried inventory lost value as the reference mark moved. Spread income and directional exposure are separate.''
      else if sm_units (rs_summary r) = 0 then advice ''no-fill'' ''No quote was crossed''
        ''You did not trade this turn. A wider quote can avoid inventory risk, but it may also leave spread income on the table.''
      else if sm_storage (rs_summary r) > 0 then advice ''carry-cost'' ''Inventory has a carrying cost''
        ''Storage was charged on your position. Holding inventory needs to earn more than it costs.''
      else advice ''fill-near-flat'' ''You traded and stayed controlled''
        ''Customer flow reached your quote without leaving a large position. Keep watching whether that balance holds.'')"

definition coach_inventory_pressure :: "state \<Rightarrow> result \<Rightarrow> coaching" where
  "coach_inventory_pressure old r =
     (let new = rs_state r in
      if st_over new then advice ''inventory-pressure-complete'' ''Inventory review''
        ''Review your largest position, the quote skew you used, and whether it reduced risk before the next mark move.''
      else if st_position new > 0 \<and> st_mark new < st_mark old then advice ''long-mark-against'' ''Long inventory, lower mark''
        ''You are long and the mark fell. Next turn, lower both bid and ask to make your ask more competitive and avoid adding more inventory.''
      else if st_position new < 0 \<and> st_mark new > st_mark old then advice ''short-mark-against'' ''Short inventory, higher mark''
        ''You are short and the mark rose. Next turn, raise both bid and ask to make your bid more competitive and avoid selling more inventory.''
      else if st_position new > 0 then advice ''long-skew'' ''Skew down to reduce a long''
        (''You are long '' @ show_qty (st_position new) @ '' units. On the next quote, shift both prices down: the lower ask invites offsetting buys from customers, while the lower bid discourages more buying from you.'')
      else if st_position new < 0 then advice ''short-skew'' ''Skew up to reduce a short''
        (''You are short '' @ magnitude_string (st_position new) @ '' units. On the next quote, shift both prices up: the higher bid invites offsetting sells from customers, while the higher ask discourages more selling from you.'')
      else if sm_units (rs_summary r) = 0 then advice ''pressure-no-fill'' ''No fill is information''
        ''Your quote did not cross any customer limit. If you are comfortable being flat, tighten by one cent to test for more flow; otherwise keep your protection.''
      else advice ''pressure-flat'' ''Flat after the flow''
        ''The larger clips did not leave you with inventory this turn. Keep the spread deliberate and use the audit before tightening for more flow.'')"

definition is_adverse_selection :: "state \<Rightarrow> result \<Rightarrow> bool" where
  "is_adverse_selection old r \<longleftrightarrow>
     (let new = rs_state r in sm_units (rs_summary r) > 0 \<and> added_risk (st_position old) (st_position new) \<and>
        (st_position new > 0 \<and> st_mark new < st_mark old \<or> st_position new < 0 \<and> st_mark new > st_mark old))"

definition coach_volatility_shock :: "state \<Rightarrow> result \<Rightarrow> coaching" where
  "coach_volatility_shock old r =
     (let new = rs_state r in
      if st_over new then advice ''volatility-shock-complete'' ''Adverse selection review''
        ''Find the fill-and-mark sequence that created the most risk, then review whether your next quote widened and skewed enough to protect the desk.''
      else if is_adverse_selection old r \<and> st_position new > 0 \<and> st_mark new < st_mark old then advice ''long-adverse-selection'' ''Adverse selection: long into a drop''
        ''You were filled into a long position and the mark fell. Protect first: widen the spread, then shift both prices down to make your ask more competitive and avoid buying more.''
      else if is_adverse_selection old r \<and> st_position new < 0 \<and> st_mark new > st_mark old then advice ''short-adverse-selection'' ''Adverse selection: short into a rise''
        ''You were filled into a short position and the mark rose. Protect first: widen the spread, then shift both prices up to make your bid more competitive and avoid selling more.''
      else if st_position new > 0 then advice ''shock-long-protect'' ''Long inventory is live risk''
        ''The mark can move sharply in this lesson. Keep a protective spread and shift both prices down until your long inventory is reduced; do not tighten merely to recover P&L.''
      else if st_position new < 0 then advice ''shock-short-protect'' ''Short inventory is live risk''
        ''The mark can move sharply in this lesson. Keep a protective spread and shift both prices up until your short inventory is reduced; do not tighten merely to recover P&L.''
      else if sm_units (rs_summary r) = 0 then advice ''shock-no-fill'' ''A quiet turn can protect you''
        ''No customer limit crossed your quote. With no inventory, use this pause to decide whether your spread should remain defensive before inviting more flow.''
      else advice ''shock-flat'' ''Flat after the shock''
        ''You traded without carrying inventory into the next move. Keep distinguishing spread capture from mark risk before you tighten again.'')"

subsection \<open>Informed flow\<close>

text \<open>What the events of the turn say about the informed customers.\<close>

record informed_evidence =
  iv_buy_fill :: bool
  iv_sell_fill :: bool
  iv_ordinary :: bool
  iv_arrival :: bool
  iv_fill :: bool
  iv_delta :: qty
  iv_delta_valid :: bool

definition moved_delta :: "qty res \<Rightarrow> informed_evidence \<Rightarrow> informed_evidence" where
  "moved_delta d v = (case d of Inr n \<Rightarrow> v\<lparr>iv_delta := n\<rparr> | Inl _ \<Rightarrow> v\<lparr>iv_delta_valid := False\<rparr>)"

definition weigh_event :: "informed_evidence \<Rightarrow> event \<Rightarrow> informed_evidence" where
  "weigh_event v ev =
     (let v1 = (case ev_order ev of
          Some ord \<Rightarrow> if or_informed ord then v\<lparr>iv_arrival := True\<rparr> else v | None \<Rightarrow> v)
      in case ev_trade ev of
          None \<Rightarrow> v1
        | Some tr \<Rightarrow>
            if \<not> tr_informed tr
            then if tr_buyer tr = player_account \<or> tr_seller tr = player_account then v1\<lparr>iv_ordinary := True\<rparr> else v1
            else
              let v2 = (if tr_seller tr = player_account
                    then moved_delta (sub_qty (iv_delta v1) (tr_qty tr))
                      (v1\<lparr>iv_arrival := True, iv_fill := True, iv_buy_fill := True\<rparr>)
                    else v1)
              in if tr_buyer tr = player_account
                 then moved_delta (add_qty (iv_delta v2) (tr_qty tr))
                   (v2\<lparr>iv_arrival := True, iv_fill := True, iv_sell_fill := True\<rparr>)
                 else v2)"

definition informed_evidence_of :: "result \<Rightarrow> informed_evidence" where
  "informed_evidence_of r =
     foldl weigh_event
       \<lparr>iv_buy_fill = False, iv_sell_fill = False, iv_ordinary = False,
        iv_arrival = (sm_informed_orders (rs_summary r) > 0),
        iv_fill = (sm_informed_filled (rs_summary r) > 0 \<or> sm_informed_units (rs_summary r) > 0),
        iv_delta = 0, iv_delta_valid = True\<rparr> (rs_events r)"

definition informed_fill_note :: "informed_evidence \<Rightarrow> result \<Rightarrow> coaching" where
  "informed_fill_note v r =
     (let sm = rs_summary r; final = st_over (rs_state r); position = st_position (rs_state r); pnl = sm_informed_pnl sm;
          without = (if iv_delta_valid v
            then (case sub_qty position (iv_delta v) of Inr c \<Rightarrow> c | Inl _ \<Rightarrow> position) else position);
          text = ''The informed fills traded '' @ show_qty (sm_informed_units sm) @ '' units and produced '' @
            show_money pnl @ '' informed-flow P&L. '' @ informed_inventory_effect without position (iv_ordinary v);
          bought = iv_buy_fill v \<and> \<not> iv_sell_fill v; sold = iv_sell_fill v \<and> \<not> iv_buy_fill v
      in
      if bought \<and> pnl < 0
      then if final then advice ''informed-buy-filled'' ''You sold before the rise''
        (text @ '' The final informed buy knew the direction of the rise, and its negative result records value conceded at the new mark.'')
           else advice ''informed-buy-filled'' ''You sold before the rise''
        (text @ '' The customer knew the direction of the rise, and the negative result records value conceded. A wider spread or higher ask can deny that edge.'')
      else if bought \<and> pnl > 0
      then if final then advice ''informed-buy-contained'' ''Your ask contained the informed buy''
        (text @ '' The final buyer knew the mark would rise but not by how much and overpaid relative to the closing mark.'')
           else advice ''informed-buy-contained'' ''Your ask contained the informed buy''
        (text @ '' The buyer knew the mark would rise but not by how much and overpaid relative to the closing mark. Compare that protection with the ordinary flow your quote attracted.'')
      else if bought
      then if final then advice ''informed-buy-contained'' ''Your ask contained the informed buy''
        (text @ '' The final customer's direction was right, but the execution price matched the new mark, leaving no measured informed edge.'')
           else advice ''informed-buy-contained'' ''Your ask contained the informed buy''
        (text @ '' The customer's direction was right, but the execution price matched the new mark, leaving no measured informed edge. Compare that protection with the ordinary flow your quote attracted.'')
      else if sold \<and> pnl < 0
      then if final then advice ''informed-sell-filled'' ''You bought before the fall''
        (text @ '' The final informed sell knew the direction of the fall, and its negative result records value conceded at the new mark.'')
           else advice ''informed-sell-filled'' ''You bought before the fall''
        (text @ '' The customer knew the direction of the fall, and the negative result records value conceded. A wider spread or lower bid can deny that edge.'')
      else if sold \<and> pnl > 0
      then if final then advice ''informed-sell-contained'' ''Your bid contained the informed sell''
        (text @ '' The final seller knew the mark would fall but not by how much and accepted less than the closing mark.'')
           else advice ''informed-sell-contained'' ''Your bid contained the informed sell''
        (text @ '' The seller knew the mark would fall but not by how much and accepted less than the closing mark. Compare that protection with the ordinary flow your quote attracted.'')
      else if sold
      then if final then advice ''informed-sell-contained'' ''Your bid contained the informed sell''
        (text @ '' The final customer's direction was right, but the execution price matched the new mark, leaving no measured informed edge.'')
           else advice ''informed-sell-contained'' ''Your bid contained the informed sell''
        (text @ '' The customer's direction was right, but the execution price matched the new mark, leaving no measured informed edge. Compare that protection with the ordinary flow your quote attracted.'')
      else if final then advice ''informed-flow-result'' ''Review the informed fills''
        (text @ '' These mixed informed fills are the final measured informed evidence for the lesson.'')
      else advice ''informed-flow-result'' ''Review the informed fills''
        (text @ '' Use the informed events to separate this measured result from ordinary flow, then judge protection alongside total P&L and matched volume.''))"

definition coach_informed_flow :: "result \<Rightarrow> coaching" where
  "coach_informed_flow r =
     (let v = informed_evidence_of r; sm = rs_summary r; st = rs_state r in
      if iv_arrival v \<and> \<not> iv_fill v
      then advice ''informed-flow-avoided'' ''Your quote denied the informed flow''
        (format_int (sm_informed_orders sm) @ '' informed orders arrived, but none filled your quote. No informed units traded and informed-flow P&L was '' @
         show_money (sm_informed_pnl sm) @ ''.'' @
         (if st_over st then '' That avoided flow is the final informed evidence for this lesson.''
          else '' Keep testing whether width or skew provided the protection.''))
      else if iv_fill v then informed_fill_note v r
      else if sm_units sm > 0
      then advice ''ordinary-flow'' ''Ordinary flow reached your quote''
        (if st_over st then ''Ordinary customer flow traded with your quote on the final turn. No measured informed evidence accompanied that flow.''
         else ''Ordinary customer flow traded with your quote. Manage the resulting inventory without labeling an unlucky mark move as adverse selection when there is no measured informed evidence.'')
      else if st_over st then advice ''terminal'' ''Session complete''
        ''The lesson ended with no customer fill on the final turn. The scorecard separates informed evidence, inventory, execution edge, storage, and total P&L.''
      else if st_position st > 0 then advice ''protect-long-inventory'' ''Protect the long inventory''
        ''You are carrying a long position. A lower skew can invite offsetting flow while reducing exposure to another fall.''
      else if st_position st < 0 then advice ''protect-short-inventory'' ''Protect the short inventory''
        ''You are carrying a short position. A higher skew can invite offsetting flow while reducing exposure to another rise.''
      else advice ''no-fill'' ''No quote was crossed''
        ''No customer filled your quote this turn. Decide whether the protection is worth keeping before inviting more flow.'')"

subsection \<open>Choosing the lesson\<close>

definition coach :: "scenario_snapshot \<Rightarrow> state \<Rightarrow> result \<Rightarrow> coaching" where
  "coach snap old r =
     (let st = rs_state r in
      if st_over st \<and> st_reason st = PlayerQuit
      then if st_turn st = 0 then advice ''player-quit'' ''Session ended''
        ''You ended the session. No turn was completed.''
           else advice ''player-quit'' ''Session ended''
        ''You ended the session. Review the prior turns to assess your fills, inventory, quote protection, and P&L.''
      else if ss_id snap = ''inventory-pressure-v1'' then coach_inventory_pressure old r
      else if ss_id snap = ''volatility-shock-v1'' then coach_volatility_shock old r
      else if ss_id snap = ''volatility-shock-v2'' then coach_informed_flow r
      else coach_general old r)"

end
