(* ===== verification/Turn_Game.thy ===== *)
theory Turn_Game
  imports Journal Coaching Catalog Durable_Action Exchange_Runs
begin

text \<open>
  A turn-based game of the server (\<^verbatim>\<open>cmd/server/exchange.go\<close>): the command handler behind its decoder,
  the replay of a log and recovery. The state of a game is what the server keeps in memory beside its
  log; what the write of a record did is an argument of the handler. Locking, metrics and the
  rendering of responses are left out; the synchronization of the log before a rebuild is taken to
  succeed.
\<close>

subsection \<open>State\<close>

record latest_turn =
  lt_turn :: i64
  lt_summary :: summary
  lt_coaching :: "coaching option"

record game =
  gm_engine :: engine
  gm_commands :: "(string, log_record) fmap"
  gm_equity :: money
  gm_through :: u64
  gm_latest :: "latest_turn option"
  gm_coaching :: "coaching option"
  gm_recap :: "recap option"

record entry =
  en_game :: game
  en_log :: log
  en_file :: string
  en_failed :: bool

definition submit_quote_type :: string where "submit_quote_type = ''submit_quote''"

definition tag_events :: "string \<Rightarrow> result \<Rightarrow> result" where
  "tag_events i r = r\<lparr>rs_events := map (\<lambda>ev. ev\<lparr>ev_command := i\<rparr>) (rs_events r)\<rparr>"

definition result_events_through :: "result \<Rightarrow> u64 \<Rightarrow> u64" where
  "result_events_through r n = foldl (\<lambda>n ev. if ev_seq ev > n then ev_seq ev else n) n (rs_events r)"

definition checked_starting_equity :: "config \<Rightarrow> money res" where
  "checked_starting_equity c = bindE (notional (cf_mark c) (cf_position c)) (\<lambda>worth. add_money (cf_cash c) worth)"

subsection \<open>Replay\<close>

text \<open>Lists have one empty value here, so the empty ledger needs no special case.\<close>

definition durable_results_equal :: "result \<Rightarrow> result \<Rightarrow> bool" where
  "durable_results_equal a b \<longleftrightarrow> a = b"

definition replay_record :: "engine \<times> (string, log_record) fmap \<Rightarrow> log_record \<Rightarrow> (engine \<times> (string, log_record) fmap) res" where
  "replay_record st r =
     (let (e, cmds) = st; i = cm_id (rd_command r) in
      bindE (execute e (rd_command r)) (\<lambda>(e', res, err).
      case err of
        Some er \<Rightarrow> Inl (Wrapped (''replay command '' @ i @ '': %w'') er)
      | None \<Rightarrow>
          if \<not> durable_results_equal (tag_events i res) (rd_result r)
          then Inl (Errorf ''replay result mismatch at version %d'' [show_dec (uint (rd_version r))])
          else Inr (e', fmupd i r cmds)))"

definition replay_records :: "config \<Rightarrow> log_record list \<Rightarrow> (engine \<times> (string, log_record) fmap) res" where
  "replay_records c rs = bindE (new_engine c) (\<lambda>e. foldE replay_record (e, fmempty) rs)"

definition remember :: "game \<Rightarrow> log_record \<Rightarrow> game" where
  "remember g r =
     (let g1 = g\<lparr>gm_through := result_events_through (rd_result r) (gm_through g)\<rparr>;
          g2 = (if cm_type (rd_command r) = submit_quote_type
            then g1\<lparr>gm_latest := Some \<lparr>lt_turn = st_turn (rs_state (rd_result r)),
                lt_summary = rs_summary (rd_result r), lt_coaching = rd_coaching r\<rparr>\<rparr> else g1);
          g3 = (if rd_coaching r \<noteq> None then g2\<lparr>gm_coaching := rd_coaching r\<rparr> else g2)
      in if rd_recap r \<noteq> None then g3\<lparr>gm_recap := rd_recap r\<rparr> else g3)"

text \<open>\<^verbatim>\<open>rebuildExchangeEntry\<close> for a turn-based game.\<close>

definition rebuild_game :: "log_meta \<Rightarrow> log_record list \<Rightarrow> game res" where
  "rebuild_game m rs =
     bindE (replay_records (me_config m) rs) (\<lambda>(e, cmds).
     bindE (checked_starting_equity (me_config m)) (\<lambda>q.
     Inr (foldl remember \<lparr>gm_engine = e, gm_commands = cmds, gm_equity = q, gm_through = 0, gm_latest = None,
            gm_coaching = None, gm_recap = None\<rparr> rs)))"

subsection \<open>The handler\<close>

datatype reply =
    StorageUnavailable | KeyReused | AlreadyDone log_record | CreatesGame | VersionConflict
  | CommandRejected go_error | RecapFailed | NotCommitted | Accepted log_record

text \<open>A new game, as \<^verbatim>\<open>create\<close> leaves it.\<close>

definition new_game :: "log_meta \<Rightarrow> game res" where
  "new_game m =
     bindE (new_engine (me_config m)) (\<lambda>e. bindE (state_of e) (\<lambda>st.
     Inr \<lparr>gm_engine = e, gm_commands = fmempty, gm_equity = st_equity st, gm_through = 0, gm_latest = None,
       gm_coaching = None, gm_recap = None\<rparr>))"

definition prior_results :: "(string, log_record) fmap \<Rightarrow> result list" where
  "prior_results cmds = map rd_result (sort_key rd_version (fm_values cmds))"

text \<open>The record of a command that the engine has taken, with its coaching note and recap.\<close>

definition draft_record :: "log_meta \<Rightarrow> game \<Rightarrow> command \<Rightarrow> state \<Rightarrow> result \<Rightarrow> log_record res" where
  "draft_record m g c old res0 =
     (let res = tag_events (cm_id c) res0;
          r = \<lparr>rd_schema = schema_version, rd_version = st_version (rs_state res), rd_previous = '''', rd_checksum = '''',
               rd_meta_checksum = '''', rd_command = c, rd_action = None, rd_elapsed = 0, rd_lifecycle = '''',
               rd_result = res, rd_rejection = None,
               rd_coaching = map_option (\<lambda>s. coach s old res) (me_scenario m), rd_recap = None\<rparr>
      in case me_scenario m of
           None \<Rightarrow> Inr r
         | Some s \<Rightarrow>
             if st_over (rs_state res)
             then bindE (build_recap s (me_config m) (prior_results (gm_commands g)) res) (\<lambda>recap.
               Inr (r\<lparr>rd_recap := Some recap\<rparr>))
             else Inr r)"

definition take_record :: "engine \<Rightarrow> log_record \<Rightarrow> game \<Rightarrow> game" where
  "take_record e r g =
     g\<lparr>gm_engine := e, gm_commands := fmupd (cm_id (rd_command r)) r (gm_commands g),
       gm_through := result_events_through (rd_result r) (gm_through g),
       gm_latest := (if cm_type (rd_command r) = submit_quote_type
         then Some \<lparr>lt_turn = st_turn (rs_state (rd_result r)), lt_summary = rs_summary (rd_result r),
           lt_coaching = rd_coaching r\<rparr> else gm_latest g),
       gm_coaching := rd_coaching r, gm_recap := rd_recap r\<rparr>"

text \<open>\<^verbatim>\<open>recover\<close>: true if it succeeded. The log has moved on even where the rebuild fails.\<close>

definition recover_entry :: "wire \<Rightarrow> entry \<Rightarrow> (bool \<times> entry) res" where
  "recover_entry w t =
     (case recover_log w (en_log t) (en_file t) of
        Inl _ \<Rightarrow> Inr (False, t)
      | Inr (rs, l, data) \<Rightarrow>
          let t1 = t\<lparr>en_log := l, en_file := data\<rparr> in
          case rebuild_game (lo_meta l) rs of
            Inl e \<Rightarrow> if is_panic e then Inl e else Inr (False, t1)
          | Inr g \<Rightarrow> Inr (True, t1\<lparr>en_game := g, en_failed := False\<rparr>))"

definition after_failure :: "wire \<Rightarrow> reply \<Rightarrow> entry \<Rightarrow> (reply \<times> entry) res" where
  "after_failure w rep t =
     bindE (recover_entry w t) (\<lambda>(ok, t1). Inr (rep, if ok then t1 else t1\<lparr>en_failed := True\<rparr>))"

definition handle_command :: "wire \<Rightarrow> write_outcome \<Rightarrow> command \<Rightarrow> entry \<Rightarrow> (reply \<times> entry) res" where
  "handle_command w io c t =
     (let g = en_game t; m = lo_meta (en_log t) in
      if en_failed t then Inr (StorageUnavailable, t)
      else case fmlookup (gm_commands g) (cm_id c) of
        Some prior \<Rightarrow> Inr (if rd_command prior \<noteq> c then KeyReused else AlreadyDone prior, t)
      | None \<Rightarrow>
          if cm_id c = me_create m then Inr (CreatesGame, t)
          else bindE (state_of (gm_engine g)) (\<lambda>old.
            if cm_version c \<noteq> st_version old then Inr (VersionConflict, t)
            else bindE (execute (gm_engine g) c) (\<lambda>(e, res, err).
              let t1 = t\<lparr>en_game := g\<lparr>gm_engine := e\<rparr>\<rparr> in
              case err of
                Some er \<Rightarrow> Inr (CommandRejected er, t1)
              | None \<Rightarrow> (case draft_record m g c old res of
                  Inl er \<Rightarrow> if is_panic er then Inl er else after_failure w RecapFailed t1
                | Inr r \<Rightarrow>
                    let ((out, l), data) = append_record w (en_log t) r io (en_file t);
                        t2 = t1\<lparr>en_log := l, en_file := data\<rparr>
                    in case out of
                      Inl er \<Rightarrow> if is_panic er then Inl er else after_failure w NotCommitted t2
                    | Inr r1 \<Rightarrow> Inr (Accepted r1, t2\<lparr>en_game := take_record e r1 g\<rparr>)))))"

subsection \<open>Creating and loading a game\<close>

definition local_principal :: string where "local_principal = ''local''"

definition matches_create :: "log_meta \<Rightarrow> string \<Rightarrow> string \<Rightarrow> play_mode \<Rightarrow> bool" where
  "matches_create m create scen mode \<longleftrightarrow> me_create m = create \<and>
     (case me_scenario m of None \<Rightarrow> False | Some s \<Rightarrow> ss_id s = scen) \<and> effective_mode m = mode"

text \<open>A turn-based game that does not exist yet.\<close>

definition create_entry :: "wire \<Rightarrow> string \<Rightarrow> string \<Rightarrow> string \<Rightarrow> int \<Rightarrow> (entry \<times> string) res" where
  "create_entry w i create scen now =
     (case get_scenario scen of
        None \<Rightarrow> fails ''scenario is not in the server catalog''
      | Some d \<Rightarrow>
          bindE (new_engine (sd_config d)) (\<lambda>e.
          bindE (create_log w i local_principal create (sd_config d) (Some (snapshot_of_definition d))
            play_mode_turn_based 0 now) (\<lambda>(l, line).
          bindE (state_of e) (\<lambda>st.
          Inr (\<lparr>en_game = \<lparr>gm_engine = e, gm_commands = fmempty, gm_equity = st_equity st, gm_through = 0,
                   gm_latest = None, gm_coaching = None, gm_recap = None\<rparr>,
                 en_log = l, en_file = [], en_failed = False\<rparr>, line)))))"

text \<open>\<^verbatim>\<open>loadLocked\<close> on the file of a turn-based game.\<close>

definition load_entry :: "wire \<Rightarrow> log_meta \<Rightarrow> string \<Rightarrow> entry res" where
  "load_entry w m data =
     bindE (open_log w m data) (\<lambda>(l, rs, kept).
     bindE (rebuild_game (lo_meta l) rs) (\<lambda>g.
     Inr \<lparr>en_game = g, en_log = l, en_file = kept, en_failed = False\<rparr>))"

subsection \<open>The decoder of a command\<close>

text \<open>A request behind \<^verbatim>\<open>decodeStrictJSON\<close>: the prices are raw JSON, absent where the text is empty.\<close>

record command_request =
  rq_id :: string
  rq_type :: string
  rq_version :: "u64 option"
  rq_bid :: "json option"
  rq_ask :: "json option"

definition turn_command :: "command_request \<Rightarrow> command res" where
  "turn_command q =
     (case rq_version q of
        None \<Rightarrow> fails ''expected_version is required''
      | Some v \<Rightarrow>
          let c = zero_command\<lparr>cm_id := rq_id q, cm_type := rq_type q, cm_version := v\<rparr> in
          if rq_type q = ''submit_quote''
          then (case (rq_bid q, rq_ask q) of
              (Some b, Some a) \<Rightarrow>
                (case fixed_value price_scale b of
                   Inl e \<Rightarrow> Inl (Wrapped ''invalid bid: %w'' e)
                 | Inr bid \<Rightarrow> (case fixed_value price_scale a of
                     Inl e \<Rightarrow> Inl (Wrapped ''invalid ask: %w'' e)
                   | Inr ask \<Rightarrow> Inr (c\<lparr>cm_bid := bid, cm_ask := ask\<rparr>)))
            | _ \<Rightarrow> fails ''submit_quote requires bid and ask'')
          else if rq_type q = ''quit''
          then if rq_bid q \<noteq> None \<or> rq_ask q \<noteq> None then fails ''quit does not accept bid or ask'' else Inr c
          else fails ''unsupported command type'')"

end
