(* ===== verification/Turn_Inv.thy ===== *)
theory Turn_Inv
  imports Turn_Game Executor
begin

text \<open>
  The turn-based game as an instance of the journal: replay and rebuilding are a fold of single
  records, the record that the handler writes is the one that the fold redoes, and the locale's
  facts carry over to the handler.
\<close>

subsection \<open>What the engine reports\<close>

lemma finish_reports: "finish e sm evs = Inr (e', r) \<Longrightarrow> e' = e \<and> state_of e = Inr (rs_state r)"
  by (auto simp: finish_def result_of_def)

lemma command_steps_report:
  "open_account c i cash position = Inr (e', r) \<Longrightarrow> state_of e' = Inr (rs_state r)"
  "place_limit c i s p q f = Inr (e', r) \<Longrightarrow> state_of e' = Inr (rs_state r)"
  "cancel_limit c i oid = Inr (e', r) \<Longrightarrow> state_of e' = Inr (rs_state r)"
  "replace_limit c i oid s p q f = Inr (e', r) \<Longrightarrow> state_of e' = Inr (rs_state r)"
  by (auto simp: open_account_def place_limit_def cancel_limit_def replace_limit_def case_prod_beta Let_def
      dest: finish_reports split: option.splits if_splits)

lemma submit_quote_reports:
  "submit_quote_step bid ask e = Inr (e', r) \<Longrightarrow> state_of e' = Inr (rs_state r)"
  by (auto simp: submit_quote_step_def submit_quote_v2_def submit_quote_legacy_def case_prod_beta Let_def
      dest: finish_reports split: option.splits if_splits)

lemma execute_reports:
  assumes "execute e c = Inr (e', r, None)"
  shows "state_of e' = Inr (rs_state r)"
proof -
  note t = transact_reports [where Q = "\<lambda>e s. state_of e = Inr s"]
  have "quit e = Inr (e', r, None) \<Longrightarrow> state_of e' = Inr (rs_state r)"
    by (auto simp: quit_def refuse_def result_of_def case_prod_beta Let_def split: if_splits)
  moreover have "refuse e er \<noteq> Inr (e', r, None)" for er by (auto simp: refuse_def)
  ultimately show ?thesis
    using assms
    unfolding execute_def submit_quote_cmd_def open_account_cmd_def place_order_cmd_def cancel_order_cmd_def
      replace_order_cmd_def
    by (auto split: if_splits dest: t [OF _ command_steps_report(1)] t [OF _ command_steps_report(2)]
        t [OF _ command_steps_report(3)] t [OF _ command_steps_report(4)] t [OF _ submit_quote_reports])
qed

subsection \<open>Replay and rebuild as a fold of records\<close>

definition redo_game :: "log_meta \<Rightarrow> game \<Rightarrow> log_record \<Rightarrow> game res" where
  "redo_game m g r =
     bindE (replay_record (gm_engine g, gm_commands g) r) (\<lambda>(e, cmds).
     Inr (remember (g\<lparr>gm_engine := e, gm_commands := cmds\<rparr>) r))"

lemma remember_commutes:
  "remember (g\<lparr>gm_engine := e, gm_commands := cmds\<rparr>) r = (remember g r)\<lparr>gm_engine := e, gm_commands := cmds\<rparr>"
  by (cases g) (simp add: remember_def Let_def)

lemma remember_keeps [simp]: "gm_engine (remember g r) = gm_engine g" "gm_commands (remember g r) = gm_commands g"
  by (simp_all add: remember_def Let_def)

lemma redo_all:
  "foldE (redo_game m) g rs =
    bindE (foldE replay_record (gm_engine g, gm_commands g) rs) (\<lambda>(e, cmds).
    Inr (foldl remember (g\<lparr>gm_engine := e, gm_commands := cmds\<rparr>) rs))"
proof (induction rs arbitrary: g)
  case (Cons r rs)
  show ?case
  proof (cases "replay_record (gm_engine g, gm_commands g) r")
    case (Inr p)
    obtain e cmds where p: "p = (e, cmds)" by (cases p)
    let ?g = "remember (g\<lparr>gm_engine := e, gm_commands := cmds\<rparr>) r"
    have "foldE (redo_game m) g (r # rs) = foldE (redo_game m) ?g rs"
      using Inr by (simp add: redo_game_def p)
    also have "\<dots> = bindE (foldE replay_record (e, cmds) rs) (\<lambda>(e, cmds).
        Inr (foldl remember (?g\<lparr>gm_engine := e, gm_commands := cmds\<rparr>) rs))"
      using Cons.IH [of ?g] by simp
    also have "(\<lambda>(e, cmds). Inr (foldl remember (?g\<lparr>gm_engine := e, gm_commands := cmds\<rparr>) rs) :: game res) =
        (\<lambda>(e, cmds). Inr (foldl remember (g\<lparr>gm_engine := e, gm_commands := cmds\<rparr>) (r # rs)))"
      by (auto simp: remember_commutes)
    finally show ?thesis using Inr by (simp add: p)
  qed (simp add: redo_game_def)
qed simp

lemma new_engine_equity:
  assumes "new_engine c = Inr e"
  shows "\<exists>st. state_of e = Inr st \<and> checked_starting_equity c = Inr (st_equity st)"
proof -
  note s = new_engine_state [OF assms]
  let ?a = "new_account player_account (cf_cash c) (cf_position c)"
  have "within_limits c (cf_mark c) ?a False"
  proof -
    obtain e0 where "post_opening (initial_engine c) player_account (cf_cash c) (cf_position c) = Inr e0"
      and "account_within_limits e0 player_account False = Inr True" and "e0 = e"
      using assms by (auto simp: new_engine_def)
    then show ?thesis using s by (auto simp: account_within_limits_def get_account_def)
  qed
  then obtain q where q: "equity (cf_mark c) ?a = Inr q"
    by (auto simp: within_limits_def orFalse_def new_account_def split: sum.splits)
  then show ?thesis
    using s
    by (simp add: state_of_def get_account_def checked_starting_equity_def equity_def or_zero_def new_account_def)
qed

lemma rebuild_replayed: "rebuild_game m rs = replayed new_game redo_game m rs"
proof (cases "new_engine (me_config m)")
  case (Inr e)
  obtain st where st: "state_of e = Inr st" "checked_starting_equity (me_config m) = Inr (st_equity st)"
    using new_engine_equity [OF Inr] by blast
  show ?thesis
    using Inr st
    by (simp add: rebuild_game_def replay_records_def replayed_def new_game_def redo_all)
qed (simp add: rebuild_game_def replay_records_def replayed_def new_game_def)

subsection \<open>The contract of the journal\<close>

definition game_sound :: "log_meta \<Rightarrow> game \<Rightarrow> bool" where
  "game_sound m g \<longleftrightarrow> reachable (me_config m) (gm_engine g) \<and>
     (me_scenario m = None \<longrightarrow> gm_coaching g = None) \<and> (gm_recap g \<noteq> None \<longrightarrow> e_over (gm_engine g))"

definition game_offer :: "log_meta \<Rightarrow> game \<Rightarrow> log_record \<Rightarrow> (log_record \<Rightarrow> game) \<Rightarrow> bool" where
  "game_offer m g r k \<longleftrightarrow> (\<exists>c old e res. execute (gm_engine g) c = Inr (e, res, None) \<and>
     draft_record m g c old res = Inr r \<and> k = (\<lambda>r1. take_record e r1 g))"

lemma draft_fields:
  assumes "draft_record m g c old res = Inr r"
  shows "rd_command r = c" and "rd_result r = tag_events (cm_id c) res"
    and "rd_coaching r = None \<longleftrightarrow> me_scenario m = None"
    and "rd_recap r \<noteq> None \<Longrightarrow> st_over (rs_state res)"
  using assms
  by (auto simp: draft_record_def Let_def tag_events_def split: option.splits if_splits)

lemma draft_not_over:
  assumes "reachable cfg e" and "execute e c = Inr (e', res, None)"
  shows "\<not> e_over e"
proof
  assume "e_over e"
  then have "refused (execute e c)"
    using over_refused reachable_good [OF assms(1)] venue_call.command by blast
  then show False using assms(2) by (simp add: refused_def)
qed

lemma offer_redone:
  assumes "game_sound m g" and "game_offer m g r k" and "written_as r r1"
  shows "redo_game m g r1 = Inr (k r1)" and "game_sound m (k r1)"
proof -
  obtain c old e res where exec: "execute (gm_engine g) c = Inr (e, res, None)"
    and draft: "draft_record m g c old res = Inr r" and k: "k = (\<lambda>r1. take_record e r1 g)"
    using assms(2) by (auto simp: game_offer_def)
  note w = assms(3) [unfolded written_as_def] and d = draft_fields [OF draft]
  have fresh: "gm_recap g = None"
    using draft_not_over [OF _ exec] assms(1) by (auto simp: game_sound_def)
  have "replay_record (gm_engine g, gm_commands g) r1 = Inr (e, fmupd (cm_id c) r1 (gm_commands g))"
    using exec w d by (simp add: replay_record_def Let_def durable_results_equal_def)
  then have "redo_game m g r1 =
      Inr (remember (g\<lparr>gm_engine := e, gm_commands := fmupd (cm_id c) r1 (gm_commands g)\<rparr>) r1)"
    by (simp add: redo_game_def)
  moreover have "gm_coaching g = None" if "rd_coaching r1 = None"
    using that w d assms(1) by (simp add: game_sound_def)
  ultimately show "redo_game m g r1 = Inr (k r1)"
    using w d(1) fresh
    by (cases "rd_coaching r1"; cases "rd_recap r1") (simp_all add: k take_record_def remember_def Let_def)
  have "reachable (me_config m) e"
    using reachable.call [of "me_config m" "gm_engine g"] venue_call.command [of "gm_engine g" c] exec assms(1)
    by (simp add: game_sound_def)
  moreover have "e_over e" if "rd_recap r \<noteq> None"
    using d(4) [OF that] execute_reports [OF exec] state_over by metis
  ultimately show "game_sound m (k r1)"
    using w d by (simp add: k take_record_def game_sound_def)
qed

lemma new_game_sound: "new_game m = Inr g \<Longrightarrow> game_sound m g"
  by (auto simp: new_game_def game_sound_def intro: reachable.start)

interpretation turns: journal new_game redo_game game_sound game_offer
  by unfold_locales (rule new_game_sound, assumption, (rule offer_redone, assumption+)+)

subsection \<open>The handler\<close>

text \<open>Every record that the handler would write in this state is read back from its line.\<close>

definition readable :: "wire \<Rightarrow> entry \<Rightarrow> command \<Rightarrow> bool" where
  "readable w t c \<longleftrightarrow>
     (\<forall>e old res r r1. state_of (gm_engine (en_game t)) = Inr old \<and>
        execute (gm_engine (en_game t)) c = Inr (e, res, None) \<and>
        draft_record (lo_meta (en_log t)) (en_game t) c old res = Inr r \<and>
        prepare_record w (en_log t) r = Inr r1 \<longrightarrow> reads_back w r1)"

definition entry_ok :: "wire \<Rightarrow> log_meta \<Rightarrow> entry \<Rightarrow> bool" where
  "entry_ok w m t \<longleftrightarrow> \<not> en_failed t \<and> lo_meta (en_log t) = m \<and>
     backed new_game redo_game w (en_log t) (en_file t) (en_game t) \<and> game_sound m (en_game t)"

text \<open>The commands that a game answers without executing them only grow.\<close>

definition keeps_commands :: "game \<Rightarrow> game \<Rightarrow> bool" where
  "keeps_commands g g' \<longleftrightarrow> (\<forall>i r. fmlookup (gm_commands g) i = Some r \<longrightarrow> fmlookup (gm_commands g') i = Some r)"

lemma keeps_commands_refl [simp]: "keeps_commands g g"
  by (simp add: keeps_commands_def)

lemma keeps_commands_trans: "keeps_commands g g' \<Longrightarrow> keeps_commands g' g'' \<Longrightarrow> keeps_commands g g''"
  by (simp add: keeps_commands_def)

lemma take_record_keeps:
  "fmlookup (gm_commands g) (cm_id (rd_command r)) = None \<Longrightarrow> keeps_commands g (take_record e r g)"
  by (auto simp: keeps_commands_def take_record_def)

definition may_become :: "log_meta \<Rightarrow> game \<Rightarrow> game \<Rightarrow> bool" where
  "may_become m g g' \<longleftrightarrow> game_sound m g' \<and> keeps_commands g g'"

lemma recovered_entry:
  assumes "recovers new_game redo_game w (en_log t) (en_file t) P"
  obtains t' where "recover_entry w t = Inr (True, t')" and "P (en_game t')" and "\<not> en_failed t'"
    and "lo_meta (en_log t') = lo_meta (en_log t)"
    and "backed new_game redo_game w (en_log t') (en_file t') (en_game t')"
proof -
  obtain l rs kept g where r: "recover_log w (en_log t) (en_file t) = Inr (rs, l, kept)" "holds w l kept rs"
    "lo_meta l = lo_meta (en_log t)" "replayed new_game redo_game (lo_meta (en_log t)) rs = Inr g" "P g"
    using assms by (auto simp: recovers_def)
  then show ?thesis
    using that [of "t\<lparr>en_log := l, en_file := kept, en_game := g, en_failed := False\<rparr>"]
    by (auto simp: recover_entry_def Let_def rebuild_replayed backed_def)
qed

lemma after_failure_ok:
  assumes "recovers new_game redo_game w (en_log t) (en_file t) P" and "lo_meta (en_log t) = m"
    and "\<And>g'. P g' \<Longrightarrow> may_become m g g'"
  shows "\<exists>t'. after_failure w rep t = Inr (rep, t') \<and> entry_ok w m t' \<and> keeps_commands g (en_game t') \<and> P (en_game t')"
proof -
  obtain t1 where "recover_entry w t = Inr (True, t1)" "P (en_game t1)" "\<not> en_failed t1"
    "lo_meta (en_log t1) = lo_meta (en_log t)" "backed new_game redo_game w (en_log t1) (en_file t1) (en_game t1)"
    using recovered_entry [OF assms(1)] .
  then show ?thesis using assms(2) assms(3) [of "en_game t1"] by (simp add: after_failure_def entry_ok_def may_become_def)
qed

lemma add_int_safe [simp]: "safe (add_int a b)"
  by (simp add: add_int_def gives_guard)

lemma tally_safe [simp]:
  "safe (include_position t p)" "safe (include_event t ev)" "safe (include_result i t r)" "safe (check_versions rs f)"
proof -
  show position: "safe (include_position t p)" for t p
    by (simp add: include_position_def gives_bind_any)
  show event: "safe (include_event t ev)" for t ev
    unfolding include_event_def
    by (cases "ev_trade ev") (auto intro!: gives_bind_any gives_if position)
  show "safe (include_result i t r)"
    unfolding include_result_def Let_def
    by (intro gives_guard gives_bind_any safe_fold event gives_if) simp_all
  show "safe (check_versions rs f)"
    by (simp add: check_versions_def Let_def gives_guard)
qed

lemma recap_safe: "safe (build_recap s c rs r)"
  unfolding build_recap_def Let_def
  by (intro gives_guard gives_bind_any safe_fold gives_if) simp_all

lemma draft_safe: "safe (draft_record m g c old res)"
  unfolding draft_record_def Let_def
  by (cases "me_scenario m") (auto intro!: gives_bind_any gives_if recap_safe)

lemma append_error_plain:
  assumes "append_record w l r io data = ((Inl e, l'), data')"
  shows "\<not> is_panic e"
proof -
  have "\<not> is_panic er" if "prepare_record w l r = Inl er" for er
    using that by (auto simp: prepare_record_def Let_def guardE_def fails_def record_checksum_def
        split: sum.splits if_splits)
  then show ?thesis
    using assms
    by (auto simp: append_record_def Let_def size_changed_def fails_def split: sum.splits if_splits write_outcome.splits)
qed

text \<open>What an answer says of the game behind it.\<close>

definition answered :: "command \<Rightarrow> reply \<Rightarrow> game \<Rightarrow> game \<Rightarrow> bool" where
  "answered c rep g g' \<longleftrightarrow>
     (case rep of
        Accepted r \<Rightarrow> rd_command r = c \<and> fmlookup (gm_commands g') (cm_id c) = Some r \<and>
          state_of (gm_engine g') = Inr (rs_state (rd_result r))
      | StorageUnavailable \<Rightarrow> False
      | NotCommitted \<Rightarrow> True
      | _ \<Rightarrow> g' = g)"

text \<open>The handler always answers, and keeps state and file together, whatever becomes of the write.\<close>

lemma handle_answers:
  assumes ok: "entry_ok w m t" and readable: "readable w t c"
  shows "\<exists>rep t'. handle_command w io c t = Inr (rep, t') \<and> entry_ok w m t' \<and>
    keeps_commands (en_game t) (en_game t') \<and> answered c rep (en_game t) (en_game t')"
proof -
  define g where "g = en_game t"
  have t: "\<not> en_failed t" "lo_meta (en_log t) = m" "backed new_game redo_game w (en_log t) (en_file t) g" "game_sound m g"
    using ok by (simp_all add: entry_ok_def g_def)
  have reach: "reachable (me_config m) (gm_engine g)" using t(4) by (simp add: game_sound_def)
  have "known (gm_engine g) player_account" using reachable_good [OF reach] wf_known by blast
  then obtain old where old: "state_of (gm_engine g) = Inr old"
    by (auto simp: state_of_def get_account_def fmlookup_dom_iff)
  obtain e res err where exec: "execute (gm_engine g) c = Inr (e, res, err)"
    using venue_call_reaches [OF reach venue_call.command [of _ c]] by metis
  show ?thesis
  proof (cases "fmlookup (gm_commands g) (cm_id c) = None \<and> cm_id c \<noteq> me_create m \<and> cm_version c = st_version old")
    case False
    then show ?thesis
      using ok t old by (auto simp: handle_command_def Let_def g_def [symmetric] answered_def split: option.splits)
  next
    case True
    define t1 where "t1 = t\<lparr>en_game := g\<lparr>gm_engine := e\<rparr>\<rparr>"
    have body: "handle_command w io c t = (case err of
        Some er \<Rightarrow> Inr (CommandRejected er, t1)
      | None \<Rightarrow> (case draft_record m g c old res of
          Inl er \<Rightarrow> if is_panic er then Inl er else after_failure w RecapFailed t1
        | Inr r \<Rightarrow>
            let ((out, l), data) = append_record w (en_log t) r io (en_file t);
                t2 = t1\<lparr>en_log := l, en_file := data\<rparr>
            in case out of
              Inl er \<Rightarrow> if is_panic er then Inl er else after_failure w NotCommitted t2
            | Inr r1 \<Rightarrow> Inr (Accepted r1, t2\<lparr>en_game := take_record e r1 g\<rparr>)))"
      unfolding t1_def using t True old exec by (simp add: handle_command_def Let_def g_def [symmetric])
    show ?thesis
    proof (cases err)
      case (Some er)
      have "e = gm_engine g" using venue_call_error venue_call.command exec Some by metis
      then have "t1 = t" by (simp add: t1_def g_def)
      then show ?thesis using body Some ok by (simp add: answered_def)
    next
      case None
      show ?thesis
      proof (cases "draft_record m g c old res")
        case (Inl er)
        have "recovers new_game redo_game w (en_log t1) (en_file t1) (\<lambda>g'. g' = g)"
          using backed_recovers [OF t(3)] by (simp add: t1_def)
        then have "\<exists>t2. after_failure w RecapFailed t1 = Inr (RecapFailed, t2) \<and> entry_ok w m t2 \<and>
          keeps_commands g (en_game t2) \<and> en_game t2 = g"
          by (rule after_failure_ok) (use t(2,4) in \<open>simp_all add: t1_def may_become_def\<close>)
        then show ?thesis
          using body None Inl draft_safe [of m g c old res] by (auto simp: g_def gives_def answered_def)
      next
        case (Inr r)
        have offer: "game_offer m g r (\<lambda>r1. take_record e r1 g)"
          using exec Inr None by (auto simp: game_offer_def)
        have keep: "keeps_commands g (take_record e r1 g)" "rd_command r1 = c" if "written_as r r1" for r1
          using that True draft_fields [OF Inr] by (auto simp: written_as_def intro!: take_record_keeps)
        have reads: "reads_back w r1" if "prepare_record w (en_log t) r = Inr r1" for r1
          using readable that old exec None Inr t(2) unfolding readable_def g_def by blast
        obtain out l data where app: "append_record w (en_log t) r io (en_file t) = ((out, l), data)"
          by (metis prod.exhaust_sel)
        define t2 where "t2 = t1\<lparr>en_log := l, en_file := data\<rparr>"
        show ?thesis
        proof (cases out)
          case (Inr r1)
          have prep: "prepare_record w (en_log t) r = Inr r1"
            using app Inr by (auto simp: append_record_def Let_def fails_def split: sum.splits if_splits write_outcome.splits)
          note held = turns.append_backed [OF t(3) _ _ app [unfolded Inr] reads [OF prep], unfolded t(2), OF t(4) offer]
          have "handle_command w io c t = Inr (Accepted r1, t2\<lparr>en_game := take_record e r1 g\<rparr>)"
            using body None \<open>draft_record m g c old res = Inr r\<close> app Inr by (simp add: t2_def)
          moreover have "rd_result r1 = tag_events (cm_id c) res"
            using prepared_written [OF prep] draft_fields(2) [OF \<open>draft_record m g c old res = Inr r\<close>]
            by (simp add: written_as_def)
          then have "answered c (Accepted r1) g (take_record e r1 g)"
            using keep(2) [OF prepared_written [OF prep]] execute_reports [OF exec [unfolded None]]
            by (simp add: answered_def take_record_def tag_events_def)
          ultimately show ?thesis
            using held t keep(1) [OF prepared_written [OF prep]]
            by (simp add: entry_ok_def t2_def t1_def g_def [symmetric])
        next
          case (Inl er)
          have "case prepare_record w (en_log t) r of Inl _ \<Rightarrow> True | Inr r1 \<Rightarrow> reads_back w r1"
            using reads by (simp split: sum.split)
          note broken = turns.broken_backed [OF t(3) _ _ app [unfolded Inl] this, unfolded t(2), OF t(4) offer]
          have "may_become m g s" if "s = g \<or> (\<exists>r1. prepare_record w (en_log t) r = Inr r1 \<and> s = take_record e r1 g)" for s
            using that t(4) offer_redone(2) [OF t(4) offer] keep prepared_written by (auto simp: may_become_def)
          note becomes = this
          have "recovers new_game redo_game w (en_log t2) (en_file t2)
              (\<lambda>s. s = g \<or> (\<exists>r1. prepare_record w (en_log t) r = Inr r1 \<and> s = take_record e r1 g))"
            using broken(1,2) by (simp add: t2_def)
          then have "\<exists>t3. after_failure w NotCommitted t2 = Inr (NotCommitted, t3) \<and> entry_ok w m t3 \<and>
              keeps_commands g (en_game t3) \<and>
              (en_game t3 = g \<or> (\<exists>r1. prepare_record w (en_log t) r = Inr r1 \<and> en_game t3 = take_record e r1 g))"
            by (rule after_failure_ok) (use t(2) broken(1) becomes in \<open>auto simp: t2_def t1_def\<close>)
          then obtain t3 where "after_failure w NotCommitted t2 = Inr (NotCommitted, t3)" "entry_ok w m t3"
            "keeps_commands g (en_game t3)" by blast
          then show ?thesis
            using body None \<open>draft_record m g c old res = Inr r\<close> app Inl append_error_plain [OF app [unfolded Inl]]
            by (simp add: t2_def g_def answered_def)
        qed
      qed
    qed
  qed
qed

end
