(* ===== verification/Turn_Properties.thy ===== *)
theory Turn_Properties
  imports Turn_Inv Log_Properties
begin

text \<open>
  The life of a turn-based game: commands whose writes succeed or fail, restarts of the server, and
  crashes in the middle of a write, in any order.
\<close>

subsection \<open>The life of a game\<close>

text \<open>A write of the handler in this state left the file like this.\<close>

definition write_leaves :: "wire \<Rightarrow> entry \<Rightarrow> command \<Rightarrow> string \<Rightarrow> game \<Rightarrow> bool" where
  "write_leaves w t c data' g' \<longleftrightarrow>
     (\<exists>e old res r io r1. state_of (gm_engine (en_game t)) = Inr old \<and> execute (gm_engine (en_game t)) c = Inr (e, res, None) \<and>
        draft_record (lo_meta (en_log t)) (en_game t) c old res = Inr r \<and>
        fmlookup (gm_commands (en_game t)) (cm_id c) = None \<and>
        prepare_record w (en_log t) r = Inr r1 \<and> g' = take_record e r1 (en_game t) \<and>
        data' = snd (append_record w (en_log t) r io (en_file t)))"

inductive serves :: "wire \<Rightarrow> entry \<Rightarrow> entry \<Rightarrow> bool" for w where
  command: "readable w t c \<Longrightarrow> handle_command w io c t = Inr (rep, t') \<Longrightarrow> serves w t t'"
| restart: "load_entry w (lo_meta (en_log t)) (en_file t) = Inr t' \<Longrightarrow> serves w t t'"
| crash: "readable w t c \<Longrightarrow> write_leaves w t c data g' \<Longrightarrow>
    load_entry w (lo_meta (en_log t)) data = Inr t' \<Longrightarrow> serves w t t'"

definition served :: "wire \<Rightarrow> entry \<Rightarrow> entry \<Rightarrow> bool" where
  "served w = (serves w)\<^sup>*\<^sup>*"

lemma served_here [intro]: "served w t t"
  by (simp add: served_def)


lemma reopened_entry:
  assumes "reopens new_game redo_game w m data P"
  obtains t where "load_entry w m data = Inr t" and "P (en_game t)" and "\<not> en_failed t" and "lo_meta (en_log t) = m"
    and "backed new_game redo_game w (en_log t) (en_file t) (en_game t)"
proof -
  obtain l rs kept g where r: "open_log w m data = Inr (l, rs, kept)" "holds w l kept rs" "lo_meta l = m"
    "replayed new_game redo_game m rs = Inr g" "P g"
    using assms by (auto simp: reopens_def)
  then show ?thesis
    using that [of "\<lparr>en_game = g, en_log = l, en_file = kept, en_failed = False\<rparr>"]
    by (auto simp: load_entry_def rebuild_replayed backed_def)
qed

lemma entry_restarts:
  assumes "entry_ok w m t"
  obtains t' where "load_entry w m (en_file t) = Inr t'" and "en_game t' = en_game t" and "entry_ok w m t'"
proof -
  have "reopens new_game redo_game w m (en_file t) (\<lambda>s'. s' = en_game t)"
    using backed_reopens [of new_game redo_game w "en_log t" "en_file t" "en_game t"] assms by (simp add: entry_ok_def)
  then obtain t' where "load_entry w m (en_file t) = Inr t'" "en_game t' = en_game t" "\<not> en_failed t'"
    "lo_meta (en_log t') = m" "backed new_game redo_game w (en_log t') (en_file t') (en_game t')"
    by (rule reopened_entry)
  then show ?thesis using that [of t'] assms by (simp add: entry_ok_def)
qed

text \<open>However the write of a record ends, the file loads as the game before it or the one behind it.\<close>

lemma entry_crashes:
  assumes ok: "entry_ok w m t" and readable: "readable w t c" and left: "write_leaves w t c data g'"
  obtains t' where "load_entry w m data = Inr t'" and "en_game t' = en_game t \<or> en_game t' = g'" and "entry_ok w m t'"
    and "keeps_commands (en_game t) (en_game t')"
proof -
  obtain e old res r io r1 where old: "state_of (gm_engine (en_game t)) = Inr old"
    and exec: "execute (gm_engine (en_game t)) c = Inr (e, res, None)"
    and draft: "draft_record m (en_game t) c old res = Inr r" and new: "fmlookup (gm_commands (en_game t)) (cm_id c) = None"
    and prep: "prepare_record w (en_log t) r = Inr r1" and g': "g' = take_record e r1 (en_game t)"
    and data: "data = snd (append_record w (en_log t) r io (en_file t))"
    using left ok by (auto simp: write_leaves_def entry_ok_def)
  have t: "lo_meta (en_log t) = m" "backed new_game redo_game w (en_log t) (en_file t) (en_game t)" "game_sound m (en_game t)"
    using ok by (simp_all add: entry_ok_def)
  have offer: "game_offer m (en_game t) r (\<lambda>r1. take_record e r1 (en_game t))"
    using exec draft by (auto simp: game_offer_def)
  have reads: "reads_back w r1"
    using readable old exec draft prep t(1) unfolding readable_def by blast
  have keep: "keeps_commands (en_game t) g'" "game_sound m g'"
    using new draft_fields(1) [OF draft] prepared_written [OF prep] offer_redone(2) [OF t(3) offer]
    by (auto simp: g' written_as_def intro!: take_record_keeps)
  obtain out l where app: "append_record w (en_log t) r io (en_file t) = ((out, l), data)"
    using data by (metis prod.exhaust_sel)
  have "reopens new_game redo_game w m data (\<lambda>s. s = en_game t \<or> s = g')"
  proof (cases out)
    case (Inr r2)
    have "prepare_record w (en_log t) r = Inr r2"
      using app Inr by (auto simp: append_record_def Let_def fails_def split: sum.splits if_splits write_outcome.splits)
    then have "r2 = r1" using prep by simp
    then have "backed new_game redo_game w l data g'" and "lo_meta l = m"
      using turns.append_backed [OF t(2) _ _ app [unfolded Inr] , unfolded t(1), OF t(3) offer] reads by (simp_all add: g')
    then show ?thesis using backed_reopens [of new_game redo_game w l data g'] by (auto simp: reopens_def)
  next
    case (Inl er)
    show ?thesis
      using turns.broken_backed(3) [OF t(2) _ _ app [unfolded Inl], unfolded t(1), OF t(3) offer] prep reads
      by (simp add: g') 
  qed
  then obtain t' where t': "load_entry w m data = Inr t'" "en_game t' = en_game t \<or> en_game t' = g'" "\<not> en_failed t'"
    "lo_meta (en_log t') = m" "backed new_game redo_game w (en_log t') (en_file t') (en_game t')"
    by (rule reopened_entry)
  moreover from this keep t(3) have "game_sound m (en_game t')" "keeps_commands (en_game t) (en_game t')" by auto
  ultimately show ?thesis using that [of t'] by (simp add: entry_ok_def)
qed

lemma serves_keeps:
  assumes "serves w t t'" and "entry_ok w m t"
  shows "entry_ok w m t' \<and> keeps_commands (en_game t) (en_game t')"
  using assms(1)
proof (cases rule: serves.cases)
  case (command c io rep)
  then show ?thesis using handle_answers [OF assms(2) command(1), of io] by auto
next
  case restart
  then show ?thesis using entry_restarts [OF assms(2)] assms(2) by (metis entry_ok_def keeps_commands_refl sum.inject(2))
next
  case (crash c data g')
  then show ?thesis using entry_crashes [OF assms(2) crash(1,2)] assms(2) by (metis entry_ok_def sum.inject(2))
qed

lemma served_keeps:
  assumes "served w t t'" and "entry_ok w m t"
  shows "entry_ok w m t' \<and> keeps_commands (en_game t) (en_game t')"
  using assms(1) unfolding served_def
proof (induction rule: rtranclp_induct)
  case (step t1 t2)
  then show ?case using serves_keeps [of w t1 t2 m] keeps_commands_trans by blast
qed (use assms(2) in simp)

lemma created_entry:
  assumes "create_entry w i create scen now = Inr (t, line)"
  shows "entry_ok w (lo_meta (en_log t)) t" and "gm_commands (en_game t) = fmempty"
proof -
  obtain d e l st where made: "new_engine (sd_config d) = Inr e" "state_of e = Inr st"
    and log: "create_log w i local_principal create (sd_config d) (Some (snapshot_of_definition d))
      play_mode_turn_based 0 now = Inr (l, line)"
    and t: "t = \<lparr>en_game = \<lparr>gm_engine = e, gm_commands = fmempty, gm_equity = st_equity st, gm_through = 0,
                   gm_latest = None, gm_coaching = None, gm_recap = None\<rparr>,
                 en_log = l, en_file = [], en_failed = False\<rparr>"
    using assms by (auto simp: create_entry_def split: option.splits)
  have "me_config (lo_meta l) = sd_config d"
    using log by (auto simp: create_log_def Let_def split: if_splits)
  then have "new_game (lo_meta l) = Inr (en_game t)" using made by (simp add: new_game_def t)
  then show "entry_ok w (lo_meta (en_log t)) t"
    using turns.created_backed [OF log] by (simp add: entry_ok_def t)
  show "gm_commands (en_game t) = fmempty" by (simp add: t)
qed

subsection \<open>Properties\<close>



text \<open>C12. Commands are idempotent for the whole life of a game, across recoveries, restarts and crashes:
  once a command has been accepted, every later command with its identifier is answered from the stored
  record if its payload is the same, is refused as a reuse of the key otherwise, and never reaches the
  engine.\<close>

theorem commands_are_idempotent:
  assumes "create_entry w i create scen now = Inr (t0, line)" and "served w t0 t" and "readable w t c"
    and "handle_command w io c t = Inr (Accepted r, t1)" and "served w t1 t2"
  shows "handle_command w io' (c'\<lparr>cm_id := cm_id c\<rparr>) t2 =
    Inr (if c'\<lparr>cm_id := cm_id c\<rparr> = c then AlreadyDone r else KeyReused, t2)"
proof -
  note ok = served_keeps [OF assms(2) created_entry(1) [OF assms(1)], THEN conjunct1]
  have one: "entry_ok w (lo_meta (en_log t0)) t1" "rd_command r = c"
    "fmlookup (gm_commands (en_game t1)) (cm_id c) = Some r"
    using handle_answers [OF ok assms(3), of io] assms(4) by (auto simp: answered_def)
  then show ?thesis
    using served_keeps [OF assms(5) one(1)]
    by (auto simp: handle_command_def Let_def entry_ok_def keeps_commands_def)
qed

text \<open>The first lesson with one accepted command.\<close>

definition lesson_meta :: log_meta where
  "lesson_meta = \<lparr>me_schema = schema_version, me_game = ''g'', me_owner = local_principal, me_create = ''c'', me_created = 0,
     me_config = sd_config first_spread_lesson, me_scenario = Some (snapshot_of_definition first_spread_lesson),
     me_mode = play_mode_turn_based, me_real_time = None, me_checksum = ''''\<rparr>"

definition lesson_quit :: command where
  "lesson_quit = zero_command\<lparr>cm_id := ''q'', cm_type := ''quit''\<rparr>"

definition lesson_draft :: "log_record res" where
  "lesson_draft = bindE (new_game lesson_meta) (\<lambda>g. bindE (state_of (gm_engine g)) (\<lambda>old.
     bindE (execute (gm_engine g) lesson_quit) (\<lambda>(e, res, err).
     if err = None \<and> st_version old = cm_version lesson_quit then draft_record lesson_meta g lesson_quit old res
     else fails ''refused'')))"

definition lesson_wire0 :: wire where
  "lesson_wire0 = \<lparr>wi_record = (\<lambda>_. ''{1}''), wi_meta = (\<lambda>_. ''{0}''), wi_decode = (\<lambda>_. fails ''unexpected end of JSON input'')\<rparr>"

definition lesson_log :: log where
  "lesson_log = (let m = lesson_meta\<lparr>me_checksum := digest (domain_of ''meta'' schema_version @ ''{0}'')\<rparr>
     in \<lparr>lo_meta = m, lo_cursor = zero_cursor m, lo_size = 0\<rparr>)"

definition lesson_wire :: wire where
  "lesson_wire = lesson_wire0\<lparr>wi_decode := (\<lambda>_. bindE lesson_draft (prepare_record lesson_wire0 lesson_log))\<rparr>"

lemma lesson_plays:
  "case new_game lesson_meta of Inl _ \<Rightarrow> False | Inr g \<Rightarrow> (case state_of (gm_engine g) of Inl _ \<Rightarrow> False | Inr old \<Rightarrow>
     (case execute (gm_engine g) lesson_quit of Inl _ \<Rightarrow> False | Inr (e, res, err) \<Rightarrow>
        st_version old = 0 \<and> st_version (rs_state res) = 1 \<and> (case err of None \<Rightarrow> True | Some _ \<Rightarrow> False) \<and>
        \<not> isl (draft_record lesson_meta g lesson_quit old res)))"
  by code_simp

lemma lesson_found: "get_scenario ''first-spread-v1'' = Some first_spread_lesson"
  by (simp add: get_scenario_def catalog_def first_spread_lesson_def)

lemma lesson_checks:
  "validate_meta lesson_meta = Inr ()" "validate_config (sd_config first_spread_lesson) = Inr ()"
  "trim_space ''{1}'' = ''{1}''" "newline \<notin> set ''{1}''"
  by code_simp+

lemma draft_valid:
  assumes "draft_record m g c old res = Inr r" and "effective_mode m = play_mode_turn_based" and "cm_id c \<noteq> ''''"
  shows "validate_record_input r m (st_version (rs_state res)) n l = Inr (cm_id c)" and "rd_schema r = schema_version"
  using assms
  by (auto simp: draft_record_def validate_record_input_def tag_events_def play_mode_turn_based_def
      play_mode_real_time_def Let_def split: option.splits if_splits)

lemma lesson_numbers:
  "supported_schema schema_version" "schema_version \<noteq> schema1" "\<not> is_real_time_schema schema_version"
  "max_metadata_bytes = 1048576" "max_events_bytes = 67108864"
  by code_simp+

lemma lesson_created:
  "\<exists>g. new_game lesson_meta = Inr g \<and>
     create_entry lesson_wire ''g'' ''c'' ''first-spread-v1'' 0 =
       Inr (\<lparr>en_game = g, en_log = lesson_log, en_file = [], en_failed = False\<rparr>, ''{0}'' @ [newline])"
proof -
  obtain g where g: "new_game lesson_meta = Inr g"
    using lesson_plays by (cases "new_game lesson_meta") simp_all
  have log: "create_log lesson_wire ''g'' local_principal ''c'' (sd_config first_spread_lesson)
      (Some (snapshot_of_definition first_spread_lesson)) play_mode_turn_based 0 0 = Inr (lesson_log, ''{0}'' @ [newline])"
    using lesson_checks(1,2) lesson_numbers
    by (simp add: create_log_def Let_def lesson_meta_def lesson_log_def metadata_checksum_def lesson_wire_def lesson_wire0_def
        play_mode_turn_based_def play_mode_real_time_def)
  obtain e st where "new_engine (sd_config first_spread_lesson) = Inr e" "state_of e = Inr st"
    "g = \<lparr>gm_engine = e, gm_commands = fmempty, gm_equity = st_equity st, gm_through = 0, gm_latest = None,
       gm_coaching = None, gm_recap = None\<rparr>"
    using g by (auto simp: new_game_def lesson_meta_def)
  then show ?thesis
    using g log lesson_found by (simp add: create_entry_def)
qed

lemma lesson_prepare: "prepare_record lesson_wire l r = prepare_record lesson_wire0 l r"
proof -
  have same: "record_checksum lesson_wire = record_checksum lesson_wire0"
    by (simp add: record_checksum_def lesson_wire_def Let_def fun_eq_iff)
  show ?thesis unfolding prepare_record_def same ..
qed

lemma lesson_same: "new_game (lo_meta lesson_log) = new_game lesson_meta"
  "draft_record (lo_meta lesson_log) = draft_record lesson_meta"
proof -
  have "me_config (lo_meta lesson_log) = me_config lesson_meta" "me_scenario (lo_meta lesson_log) = me_scenario lesson_meta"
    by (simp_all add: lesson_log_def Let_def)
  note same = this
  show "new_game (lo_meta lesson_log) = new_game lesson_meta" unfolding new_game_def same ..
  show "draft_record (lo_meta lesson_log) = draft_record lesson_meta" unfolding draft_record_def fun_eq_iff same by blast
qed

lemma lesson_runs:
  assumes "new_game lesson_meta = Inr g"
  obtains old e res r where "state_of (gm_engine g) = Inr old" and "st_version old = cm_version lesson_quit"
    and "execute (gm_engine g) lesson_quit = Inr (e, res, None)" and "st_version (rs_state res) = 1"
    and "draft_record lesson_meta g lesson_quit old res = Inr r" and "lesson_draft = Inr r"
proof -
  obtain old where old: "state_of (gm_engine g) = Inr old"
    using lesson_plays assms by (cases "state_of (gm_engine g)") simp_all
  obtain p where "execute (gm_engine g) lesson_quit = Inr p"
    using lesson_plays assms old by (cases "execute (gm_engine g) lesson_quit") simp_all
  then obtain e res err where exec: "execute (gm_engine g) lesson_quit = Inr (e, res, err)"
    by (cases p) simp
  have none: "err = None" and run: "st_version old = 0" "st_version (rs_state res) = 1"
    and drafted: "\<not> isl (draft_record lesson_meta g lesson_quit old res)"
    using lesson_plays assms old exec by (simp_all split: option.splits)
  obtain r where draft: "draft_record lesson_meta g lesson_quit old res = Inr r"
    using drafted by (cases "draft_record lesson_meta g lesson_quit old res") simp_all
  have zero: "cm_version lesson_quit = 0" by (simp add: lesson_quit_def zero_command_def)
  have "lesson_draft = Inr r"
    unfolding lesson_draft_def by (simp add: assms old exec none run zero draft)
  then show ?thesis using that [of old e res r] old exec none run zero draft by simp
qed

lemma lesson_readable:
  assumes "new_game lesson_meta = Inr g" and "en_game t = g" and "en_log t = lesson_log"
  shows "readable lesson_wire t lesson_quit"
proof -
  obtain old e res r where run: "state_of (gm_engine g) = Inr old" "st_version old = cm_version lesson_quit"
    "execute (gm_engine g) lesson_quit = Inr (e, res, None)" "st_version (rs_state res) = 1"
    "draft_record lesson_meta g lesson_quit old res = Inr r" "lesson_draft = Inr r"
    using lesson_runs [OF assms(1)] .
  have "reads_back lesson_wire r1" if "prepare_record lesson_wire0 lesson_log r = Inr r1" for r1
  proof -
    have "wi_decode lesson_wire s = Inr r1" for s
      unfolding lesson_wire_def by (simp add: run(6) that)
    then show ?thesis
      using lesson_checks(3,4) by (simp add: reads_back_def) (simp add: lesson_wire_def lesson_wire0_def)
  qed
  then show ?thesis
    using assms(2,3) run(1-5) by (simp add: readable_def lesson_same lesson_prepare)
qed

lemma lesson_accepted:
  assumes g: "new_game lesson_meta = Inr g" and t: "t = \<lparr>en_game = g, en_log = lesson_log, en_file = [], en_failed = False\<rparr>"
  shows "\<exists>r t1. handle_command lesson_wire Durable lesson_quit t = Inr (Accepted r, t1)"
proof -
  obtain old e res r where run: "state_of (gm_engine g) = Inr old" "st_version old = cm_version lesson_quit"
    "execute (gm_engine g) lesson_quit = Inr (e, res, None)" "st_version (rs_state res) = 1"
    and draft: "draft_record lesson_meta g lesson_quit old res = Inr r" and "lesson_draft = Inr r"
    using lesson_runs [OF g] .
  have "effective_mode (lo_meta lesson_log) = play_mode_turn_based" "cm_id lesson_quit = ''q''"
    using lesson_numbers by (simp_all add: effective_mode_def lesson_log_def lesson_meta_def Let_def lesson_quit_def)
  then have valid: "validate_record_input r (lo_meta lesson_log) 1 0 '''' = Inr ''q''" "rd_schema r = schema_version"
    using draft_valid [of "lo_meta lesson_log" g lesson_quit old res r] draft run(4) by (auto simp: lesson_same)
  then obtain r1 where "prepare_record lesson_wire lesson_log r = Inr r1"
    using lesson_numbers
    by (auto simp: prepare_record_def lesson_log_def Let_def zero_cursor_def lesson_meta_def record_checksum_def initial_lifecycle_def)
  then have "\<exists>l data. append_record lesson_wire lesson_log r Durable [] = ((Inr r1, l), data)"
    using lesson_numbers
    by (simp add: append_record_def lesson_wire_def lesson_wire0_def lesson_log_def Let_def)
  moreover have "gm_commands g = fmempty" using g by (auto simp: new_game_def)
  moreover have "cm_id lesson_quit \<noteq> me_create (lo_meta lesson_log)"
    by (simp add: lesson_quit_def lesson_log_def lesson_meta_def Let_def)
  ultimately show ?thesis
    using run draft by (auto simp: handle_command_def t lesson_same Let_def)
qed



theorem commands_are_idempotent_witness:
  "\<exists>t0 r t1. create_entry lesson_wire ''g'' ''c'' ''first-spread-v1'' 0 = Inr (t0, ''{0}'' @ [newline]) \<and>
     handle_command lesson_wire Durable lesson_quit t0 = Inr (Accepted r, t1) \<and>
     handle_command lesson_wire Durable lesson_quit t1 = Inr (AlreadyDone r, t1)"
proof -
  obtain g where g: "new_game lesson_meta = Inr g" and created: "create_entry lesson_wire ''g'' ''c'' ''first-spread-v1'' 0 =
      Inr (\<lparr>en_game = g, en_log = lesson_log, en_file = [], en_failed = False\<rparr>, ''{0}'' @ [newline])"
    using lesson_created by blast
  define t0 where "t0 = \<lparr>en_game = g, en_log = lesson_log, en_file = [], en_failed = False\<rparr>"
  obtain r t1 where answer: "handle_command lesson_wire Durable lesson_quit t0 = Inr (Accepted r, t1)"
    using lesson_accepted [OF g t0_def] by blast
  have "readable lesson_wire t0 lesson_quit" using lesson_readable [OF g, of t0] by (simp add: t0_def)
  then have "handle_command lesson_wire Durable (lesson_quit\<lparr>cm_id := cm_id lesson_quit\<rparr>) t1 = Inr (AlreadyDone r, t1)"
    using commands_are_idempotent [OF created [folded t0_def] served_here _ answer served_here, of Durable lesson_quit] by simp
  then show ?thesis using created [folded t0_def] answer by auto
qed

end
