(* ===== verification/Spec2Isabelle.thy ===== *)
theory Spec2Isabelle
  imports Game_Mode Arith_Properties Exchange_Properties Session_Properties Durable_Properties Scenario_Properties
    Log_Properties Turn_Properties
begin

text \<open>
  \<^bold>\<open>A verification development of the market maker's exchange kernel\<close>

  The program is a market-making game. A player quotes a bid and an ask; generated customers trade
  against the quote; a mark price moves; the player's account is settled, margined and charged. Two
  kinds of session share one engine: turn-based simulations, and real-time sessions in which a
  sequencer interleaves the player's requests with a generated schedule of system actions. All
  amounts are 64-bit fixed-point integers, and the engine is event sourced.

  \<^bold>\<open>Conventions.\<close> Go's \<^verbatim>\<open>int64\<close> is the type \<open>i64\<close> (a 64-bit word read with \<open>ival\<close>; operators wrap as in Go),
  \<^verbatim>\<open>uint64\<close> is \<open>u64\<close>. A function that may fail returns a sum: \<open>Inl\<close> an error, \<open>Inr\<close> a value; an error value
  \<open>Panic\<close> is a Go panic (nil dereference, index out of range, explicit \<^verbatim>\<open>panic\<close>), so that "never panics" is
  a statement about results. Go maps are finite maps; where Go iterates over a map, the code sorts
  the keys and so does the model. Pointers into the order book are order ids in a store. Methods that
  change a receiver return the new receiver.

  \<^bold>\<open>Components and theories.\<close>

  \<^item> \<^verbatim>\<open>internal/fixed/fixed.go\<close>: \<open>Fixed\<close> (checked arithmetic, the 128-bit scaling), \<open>Decimal\<close> (parser and
    printer), over \<open>Go_Int\<close> (machine integers, division, \<^verbatim>\<open>math/bits\<close>) and \<open>Prelude\<close> (results, folds,
    finite maps). Properties in \<open>Arith_Properties\<close>: operations are exact or fail, scaling is exact,
    decimal texts are read back, bounded draws return.
  \<^item> \<^verbatim>\<open>internal/orderbook/book.go\<close>: \<open>Order_Book\<close> is the whole file. \<open>Book_Inv\<close> has the representation
    invariant (\<open>book_inv\<close>: levels, price lists and index agree with the list of live orders) and its
    preservation, \<open>Book_Match\<close> the specification of matching on a list (\<open>sweep\<close>), \<open>Book_Contract\<close> the
    contract of a book as a locale with its interpretation, \<open>Book_Properties\<close> the properties on every
    book that a sequence of calls can reach.
  \<^item> \<^verbatim>\<open>internal/exchange/ledger.go\<close>: \<open>Ledger\<close>, with the double-entry invariant.
  \<^item> \<^verbatim>\<open>internal/exchange/exchange.go\<close>: \<open>Rng\<close> (SplitMix64 and the PCG generator of the legacy mode),
    \<open>Exchange_Types\<close>, \<open>Exchange_Risk\<close> (views and risk checks), \<open>Exchange_Settle\<close> (settlement,
    reservations, attribution), \<open>Exchange_Engine\<close> (transactions, accounts, venue and real-time
    calls), \<open>Exchange_Turns\<close> (turn-based simulations, dispatch). The invariant \<open>wf\<close> and \<open>reserved_ok\<close>
    are in \<open>Exchange_Inv\<close> and \<open>Exchange_Reserve\<close>, freedom from panics in \<open>Steps\<close>, \<open>Exchange_Safe\<close> and
    \<open>Exchange_Quiet\<close>, the contract of a venue call as a locale in \<open>Exchange_Contract\<close>, reachable engines
    in \<open>Exchange_Runs\<close>, the properties in \<open>Exchange_Properties\<close>.
  \<^item> \<^verbatim>\<open>internal/game/mode.go\<close>: \<open>Game_Mode\<close>.
  \<^item> \<^verbatim>\<open>internal/realtime/action.go\<close>: \<open>Realtime_Action\<close> (actions, payloads, validations).
  \<^item> \<^verbatim>\<open>internal/realtime/generator.go\<close>: \<open>Generator\<close>, over \<open>Sha256\<close>; \<open>Generator_Inv\<close> has its invariant and the
    measure \<open>progress\<close>, \<open>Schedule\<close> the contract of a schedule as a locale, interpreted on the generator
    and on the sequencer's static schedule; properties in \<open>Generator_Properties\<close>.
  \<^item> \<^verbatim>\<open>internal/realtime/exchange.go\<close>: \<open>Executor\<close>, properties in \<open>Executor_Properties\<close>.
  \<^item> \<^verbatim>\<open>internal/realtime/sequencer.go\<close>: \<open>Sequencer_Data\<close>, \<open>Sequencer\<close> (the local state of \<^verbatim>\<open>run\<close>, its closures,
    the loop over due actions), \<open>Sequencer_Requests\<close> (one definition per request kind, admission, the
    loop's turns, creation). \<open>Session\<close> is a locale of elementary events in which the code is walked
    through once; it is used three times: \<open>Session_Runs\<close> (structure: lifecycle, numbering, queue),
    \<open>Session_Time\<close> and \<open>Session_Clock\<close> (logical time) and \<open>Session_Returns\<close> (the loop ends).
    \<open>Session_Venue\<close> builds the platform from the generator and the executor and discharges the laws;
    the properties are in \<open>Session_Properties\<close>.

  \<^item> \<^verbatim>\<open>internal/realtime/action.go\<close>, its durable form: \<open>Durable_Action\<close> (encoding and the strict decoder over
    JSON values), properties in \<open>Durable_Properties\<close>.
  \<^item> \<^verbatim>\<open>internal/scenario/scenario.go\<close>: \<open>Scenario\<close> (configurations, validation, recap and scorecard), \<open>Catalog\<close>
    (the lessons with their texts), \<open>Coaching\<close> (the notes); properties in \<open>Scenario_Properties\<close>.
  \<^item> \<^verbatim>\<open>internal/eventlog/log.go\<close>: \<open>Event_Log\<close> (metadata, records, validation, checksums), \<open>Log_File\<close> (creation,
    appending, loading, opening and recovery over the bytes of the file); \<open>Log_Inv\<close> has the invariant
    that relates an open log, its file and the acknowledged records, \<open>Log_Properties\<close> the life of a log.
  \<^item> \<^verbatim>\<open>cmd/server/exchange.go\<close>: \<open>Turn_Game\<close> (the command handler of turn-based games, replay, rebuilding,
    recovery, creation and loading). \<open>Journal\<close> states as a locale what a game owes its log; \<open>Turn_Inv\<close>
    interprets it on the turn-based game and walks through the handler, \<open>Turn_Properties\<close> has the life of
    a game: commands, restarts and crashes in any order.

  \<^bold>\<open>Log and files.\<close> A file is the string of its bytes. \<^verbatim>\<open>encoding/json\<close> on whole records is the parameter \<open>wire\<close>;
  the properties assume that a record that was written is read back from its line (\<open>reads_back\<close>,
  \<open>readable\<close>). What a write did to the file is the argument \<open>write_outcome\<close>: all of the line, or any part
  of it and an error.

  \<^bold>\<open>The sequencer's world.\<close> Schedule, executor, clock, timers, replay lookup and action factory are fields
  of the record \<open>platform\<close>, functions on a world \<open>'w\<close>; each may panic or answer anything. A goroutine that
  is blocked on a channel is a request in the queue; the scheduler's choice is the choice of the next
  \<open>step\<close>. \<open>logged p\<close> is the platform \<open>p\<close> with an executor that keeps a list of its calls. Statements about
  time assume a monotone clock (\<^verbatim>\<open>time.Time\<close> documents it), which stays below \<open>2\<^sup>6\<^sup>2\<close> nanoseconds (146 years).

  \<^bold>\<open>Termination, bounds and fuel.\<close> Rejection sampling (\<open>bounded_loop\<close>) recurses on the number of states left
  in the period of the generator, so it is total. Matching recurses on the number of live orders. The
  loop over due actions is a partial function, \<open>None\<close> where the schedule never ends;
  \<open>every_turn_returns\<close> shows that with a schedule that can be used up it returns.
  \<open>drain\<close> takes fuel; three times the duration plus two is enough for a generator.

  \<^bold>\<open>Not modelled.\<close> The server's glue for real-time games (the parts it connects - sequencer, executor,
  generator and log - are modelled), HTTP routing and responses, metrics, locking, the terminal client,
  file identity and permissions. SHA-256, PCG and the conversions of the standard library are modelled
  where the source uses them; \<^verbatim>\<open>context\<close> cancellation is a parameter of \<open>ask\<close>.
\<close>

end
